theory Spec2Isabelle
  imports Main "HOL-Library.Sublist"
begin

section \<open>JavaScript string primitives used by the path algebra\<close>

text \<open>
  Paths are JavaScript strings; they are modelled as \<open>string\<close> (a list of characters).
  The helpers below follow the semantics of the \<open>String.prototype\<close> methods the source calls,
  restricted to the argument shapes that occur in the source.
\<close>

definition SLASH :: char where "SLASH = CHR ''/''"
definition BACK_SLASH :: char where "BACK_SLASH = CHR 0x5C"
definition DOT :: char where "DOT = CHR ''.''"
definition COLON :: char where "COLON = CHR '':''"

definition startsWith :: "string \<Rightarrow> string \<Rightarrow> bool" where
  "startsWith s p \<longleftrightarrow> take (length p) s = p"

definition endsWith :: "string \<Rightarrow> string \<Rightarrow> bool" where
  "endsWith s p \<longleftrightarrow> length p \<le> length s \<and> drop (length s - length p) s = p"

definition slice :: "string \<Rightarrow> nat \<Rightarrow> nat \<Rightarrow> string" where
  \<comment> \<open>\<open>s.slice(a, b)\<close> for \<open>0 \<le> a\<close>, \<open>0 \<le> b\<close>\<close>
  "slice s a b = take (b - a) (drop a s)"

fun lastIndexOf :: "string \<Rightarrow> char \<Rightarrow> int" where
  \<comment> \<open>\<open>s.lastIndexOf(c)\<close>: the greatest index holding \<open>c\<close>, or \<open>-1\<close>\<close>
  "lastIndexOf [] c = -1"
| "lastIndexOf (x # xs) c =
     (let r = lastIndexOf xs c in if r \<noteq> -1 then r + 1 else if x = c then 0 else -1)"

fun split :: "char \<Rightarrow> string \<Rightarrow> string list" where
  \<comment> \<open>\<open>s.split(c)\<close>: always at least one piece\<close>
  "split c [] = [[]]"
| "split c (x # xs) =
     (if x = c then [] # split c xs
      else (case split c xs of p # ps \<Rightarrow> (x # p) # ps | [] \<Rightarrow> [[x]]))"

fun joinWith :: "string \<Rightarrow> string list \<Rightarrow> string" where
  \<comment> \<open>\<open>xs.join(sep)\<close>\<close>
  "joinWith sep [] = []"
| "joinWith sep [x] = x"
| "joinWith sep (x # y # ys) = x @ sep @ joinWith sep (y # ys)"

definition is_letter :: "char \<Rightarrow> bool" where
  \<comment> \<open>the character class \<open>[A-Za-z]\<close>\<close>
  "is_letter c \<longleftrightarrow> (let n = (of_char c :: nat) in (65 \<le> n \<and> n \<le> 90) \<or> (97 \<le> n \<and> n \<le> 122))"

definition is_sep :: "char \<Rightarrow> bool" where
  \<comment> \<open>the character class \<open>[/\\]\<close>\<close>
  "is_sep c \<longleftrightarrow> c = SLASH \<or> c = BACK_SLASH"

definition toUpperCase_char :: "char \<Rightarrow> char" where
  "toUpperCase_char c =
     (let n = (of_char c :: nat) in if 97 \<le> n \<and> n \<le> 122 then char_of (n - 32) else c)"

definition replace_backslashes :: "string \<Rightarrow> string" where
  \<comment> \<open>\<open>s.replace(/\\/g, "/")\<close>\<close>
  "replace_backslashes s = map (\<lambda>c. if c = BACK_SLASH then SLASH else c) s"

section \<open>Regular expressions of the path module\<close>

fun DRIVE_LETTER_START_RE :: "string \<Rightarrow> bool" where
  \<comment> \<open>\<open>/^[A-Za-z]:\//\<close>\<close>
  "DRIVE_LETTER_START_RE (a # b # c # _) \<longleftrightarrow> is_letter a \<and> b = COLON \<and> c = SLASH"
| "DRIVE_LETTER_START_RE _ \<longleftrightarrow> False"

fun DRIVE_LETTER_RE :: "string \<Rightarrow> bool" where
  \<comment> \<open>\<open>/^[A-Za-z]:$/\<close>\<close>
  "DRIVE_LETTER_RE [a, b] \<longleftrightarrow> is_letter a \<and> b = COLON"
| "DRIVE_LETTER_RE _ \<longleftrightarrow> False"

fun UNC_REGEX :: "string \<Rightarrow> bool" where
  \<comment> \<open>\<open>/^[/\\]{2}/\<close>\<close>
  "UNC_REGEX (a # b # _) \<longleftrightarrow> is_sep a \<and> is_sep b"
| "UNC_REGEX _ \<longleftrightarrow> False"

definition IS_ABSOLUTE_RE :: "string \<Rightarrow> bool" where
  \<comment> \<open>\<open>/^[/\\](?![/\\])|^[/\\]{2}(?!\.)|^[A-Za-z]:[/\\]/\<close>\<close>
  "IS_ABSOLUTE_RE s \<longleftrightarrow>
     (case s of
        [] \<Rightarrow> False
      | a # r \<Rightarrow>
          (is_sep a \<and> (case r of [] \<Rightarrow> True | b # _ \<Rightarrow> \<not> is_sep b))
        \<or> (is_sep a \<and> (case r of [] \<Rightarrow> False
               | b # r' \<Rightarrow> is_sep b \<and> (case r' of [] \<Rightarrow> True | c # _ \<Rightarrow> c \<noteq> DOT)))
        \<or> (is_letter a \<and> (case r of b # c # _ \<Rightarrow> b = COLON \<and> is_sep c | _ \<Rightarrow> False)))"

fun ROOT_FOLDER_RE_replace :: "string \<Rightarrow> string" where
  \<comment> \<open>\<open>s.replace(/^\/([A-Za-z]:)?$/, "$1")\<close>\<close>
  "ROOT_FOLDER_RE_replace [a] = (if a = SLASH then [] else [a])"
| "ROOT_FOLDER_RE_replace [a, b, c] =
     (if a = SLASH \<and> is_letter b \<and> c = COLON then [b, c] else [a, b, c])"
| "ROOT_FOLDER_RE_replace s = s"

section \<open>normalizeWindowsPath and normalizeString\<close>

definition normalizeWindowsPath :: "string \<Rightarrow> string" where
  "normalizeWindowsPath input =
     (if input = [] then input
      else (let s = replace_backslashes input
            in if DRIVE_LETTER_START_RE s then map toUpperCase_char (take 3 s) @ drop 3 s else s))"

record ns_state =
  res :: string
  lastSegmentLength :: int
  lastSlash :: int
  dots :: int

definition ns_init :: ns_state where
  "ns_init = \<lparr>res = [], lastSegmentLength = 0, lastSlash = -1, dots = 0\<rparr>"

definition ns_step :: "string \<Rightarrow> bool \<Rightarrow> ns_state \<Rightarrow> nat \<Rightarrow> char \<Rightarrow> ns_state" where
  \<comment> \<open>one iteration of the loop body of \<open>normalizeString\<close> at \<open>index\<close> with the current \<open>char\<close>\<close>
  "ns_step path allowAboveRoot st index ch =
     (if ch = SLASH then
        (if lastSlash st = int index - 1 \<or> dots st = 1 then
           st\<lparr>lastSlash := int index, dots := 0\<rparr>
         else if dots st = 2 then
           (if (length (res st) < 2 \<or> lastSegmentLength st \<noteq> 2 \<or> \<not> endsWith (res st) [DOT]
                  \<or> res st ! (length (res st) - 2) \<noteq> DOT) \<and> length (res st) > 2 then
              (let lastSlashIndex = lastIndexOf (res st) SLASH in
               if lastSlashIndex = -1 then
                 st\<lparr>res := [], lastSegmentLength := 0, lastSlash := int index, dots := 0\<rparr>
               else
                 (let r = slice (res st) 0 (nat lastSlashIndex) in
                  st\<lparr>res := r,
                     lastSegmentLength := int (length r) - 1 - lastIndexOf r SLASH,
                     lastSlash := int index, dots := 0\<rparr>))
            else if (length (res st) < 2 \<or> lastSegmentLength st \<noteq> 2 \<or> \<not> endsWith (res st) [DOT]
                  \<or> res st ! (length (res st) - 2) \<noteq> DOT) \<and> length (res st) > 0 then
              st\<lparr>res := [], lastSegmentLength := 0, lastSlash := int index, dots := 0\<rparr>
            else if allowAboveRoot then
              st\<lparr>res := res st @ (if length (res st) > 0 then SLASH # [DOT, DOT] else [DOT, DOT]),
                 lastSegmentLength := 2, lastSlash := int index, dots := 0\<rparr>
            else st\<lparr>lastSlash := int index, dots := 0\<rparr>)
         else
           (let segment = slice path (nat (lastSlash st + 1)) index in
            st\<lparr>res := (if length (res st) > 0 then res st @ SLASH # segment else segment),
               lastSegmentLength := int (length segment),
               lastSlash := int index, dots := 0\<rparr>))
      else if ch = DOT \<and> dots st \<noteq> -1 then st\<lparr>dots := dots st + 1\<rparr>
      else st\<lparr>dots := -1\<rparr>)"

definition normalizeString :: "string \<Rightarrow> bool \<Rightarrow> string" where
  \<comment> \<open>the loop runs \<open>index = 0 .. path.length\<close>; the last iteration feeds a virtual slash,
      unless the last real character was a slash, in which case the loop breaks\<close>
  "normalizeString path allowAboveRoot =
     (let st = foldl (\<lambda>st i. ns_step path allowAboveRoot st i (path ! i)) ns_init [0..<length path]
      in if path \<noteq> [] \<and> last path = SLASH then res st
         else res (ns_step path allowAboveRoot st (length path) SLASH))"

definition normalize :: "string \<Rightarrow> string" where
  "normalize p =
     (if length p = 0 then [DOT]
      else
        (let originalPath = p;
             path = normalizeWindowsPath p;
             isPathAbsolute = IS_ABSOLUTE_RE path;
             trailingSeparator = endsWith path [SLASH];
             path = normalizeString path (\<not> isPathAbsolute)
         in if length path = 0 then
              (if isPathAbsolute then [SLASH]
               else if trailingSeparator \<and> length originalPath > 0 \<and> originalPath \<noteq> [DOT]
                    then [DOT, SLASH] else [DOT])
            else
              (let path = (if trailingSeparator \<and> \<not> endsWith path [SLASH] then path @ [SLASH] else path);
                   path = (if DRIVE_LETTER_RE path \<and> length path = 2 then path @ [SLASH] else path);
                   normOriginal = replace_backslashes originalPath
               in if UNC_REGEX normOriginal \<and> startsWith normOriginal ''//./'' then
                    ''//./'' @ (if startsWith path [SLASH] then drop 1 path else path)
                  else if UNC_REGEX normOriginal \<and> startsWith normOriginal ''//''
                          \<and> \<not> startsWith normOriginal ''//./'' then
                    ''//'' @ (if startsWith path [SLASH] then drop 1 path else path)
                  else if isPathAbsolute \<and> \<not> IS_ABSOLUTE_RE path \<and> path \<noteq> [SLASH] then
                    SLASH # path
                  else path)))"

section \<open>The path algebra on strings\<close>

text \<open>
  \<open>process.cwd()\<close> is the only input that does not come in as an argument; the functions
  that consult it take it as their first parameter \<open>pcwd\<close>.
\<close>

definition cwd :: "string \<Rightarrow> string" where
  "cwd pcwd = replace_backslashes pcwd"

definition join :: "string list \<Rightarrow> string" where
  "join segments =
     (if length segments = 0 then [DOT]
      else
        (let joined = foldl (\<lambda>joined segment.
                         if length segment > 0 then
                           (if length joined = 0 then segment else joined @ SLASH # segment)
                         else joined) [] segments
         in if length joined = 0 then [DOT] else normalize joined))"

fun resolve_loop :: "string list \<Rightarrow> string \<Rightarrow> bool \<Rightarrow> string \<times> bool" where
  \<comment> \<open>the \<open>for\<close> loop of \<open>resolve\<close>; the first argument lists \<open>args[i]\<close> for
      \<open>i = args.length - 1\<close> down to \<open>0\<close>, followed by \<open>cwd()\<close> for \<open>i = -1\<close>\<close>
  "resolve_loop [] resolvedPath resolvedAbsolute = (resolvedPath, resolvedAbsolute)"
| "resolve_loop (path # rest) resolvedPath resolvedAbsolute =
     (if resolvedAbsolute then (resolvedPath, resolvedAbsolute)
      else if length path = 0 then resolve_loop rest resolvedPath resolvedAbsolute
      else
        (let normalizedSegment = normalizeWindowsPath path
         in resolve_loop rest (normalizedSegment @ SLASH # resolvedPath)
              (IS_ABSOLUTE_RE normalizedSegment)))"

definition resolve :: "string \<Rightarrow> string list \<Rightarrow> string" where
  "resolve pcwd args =
     (let (resolvedPath, resolvedAbsolute) = resolve_loop (rev args @ [cwd pcwd]) [] False;
          resolvedPath = normalizeString resolvedPath (\<not> resolvedAbsolute)
      in if resolvedAbsolute then
           (if IS_ABSOLUTE_RE resolvedPath then resolvedPath else SLASH # resolvedPath)
         else if length resolvedPath > 0 then resolvedPath else [DOT])"

definition isAbsolute :: "string \<Rightarrow> bool" where
  "isAbsolute p = IS_ABSOLUTE_RE (normalizeWindowsPath p)"

definition substring_from :: "string \<Rightarrow> int \<Rightarrow> string" where
  \<comment> \<open>\<open>s.substring(i)\<close>: a negative start counts as \<open>0\<close>\<close>
  "substring_from s i = drop (nat i) s"

definition extname :: "string \<Rightarrow> string" where
  "extname p =
     (let path = normalizeWindowsPath p;
          lastSlashIdx = lastIndexOf path SLASH;
          lastSlashIdx = (if lastSlashIdx = -1 then 0 else lastSlashIdx);
          basePart = (if lastSlashIdx = 0 then path else substring_from path (lastSlashIdx + 1))
      in if basePart = [DOT] \<or> basePart = [DOT, DOT] then []
         else
           (let lastDotIdx = lastIndexOf basePart DOT
            in if lastDotIdx \<le> 0 then [] else substring_from basePart lastDotIdx))"

definition segments_of :: "string \<Rightarrow> string list" where
  \<comment> \<open>\<open>s.replace(ROOT_FOLDER_RE, "$1").split("/").filter(Boolean)\<close>\<close>
  "segments_of s = filter (\<lambda>x. x \<noteq> []) (split SLASH (ROOT_FOLDER_RE_replace s))"

fun commonSegments :: "string list \<Rightarrow> string list \<Rightarrow> nat" where
  \<comment> \<open>the \<open>while\<close> loop of \<open>relative\<close> counting equal leading segments\<close>
  "commonSegments (x # xs) (y # ys) = (if x = y then Suc (commonSegments xs ys) else 0)"
| "commonSegments _ _ = 0"

definition relative_resolved :: "string \<Rightarrow> string \<Rightarrow> string" where
  \<comment> \<open>the body of \<open>relative\<close> after \<open>resolvedFrom\<close> and \<open>resolvedTo\<close> are computed\<close>
  "relative_resolved resolvedFrom resolvedTo =
     (if resolvedFrom = resolvedTo then []
      else
        (let fromSegments = segments_of resolvedFrom;
             toSegments = segments_of resolvedTo
         in if length fromSegments > 0 \<and> length toSegments > 0
               \<and> DRIVE_LETTER_RE (hd fromSegments) \<and> DRIVE_LETTER_RE (hd toSegments)
               \<and> map toUpperCase_char (hd fromSegments) \<noteq> map toUpperCase_char (hd toSegments)
            then resolvedTo
            else
              (let common = commonSegments fromSegments toSegments;
                   upSegments = replicate (length fromSegments - common) [DOT, DOT];
                   downSegments = drop common toSegments;
                   result = joinWith [SLASH] (upSegments @ downSegments)
               in if length result > 0 then result else [DOT])))"

definition relative :: "string \<Rightarrow> string \<Rightarrow> string \<Rightarrow> string" where
  "relative pcwd from to = relative_resolved (resolve pcwd [from]) (resolve pcwd [to])"

definition dirname :: "string \<Rightarrow> string" where
  "dirname p =
     (if length p = 0 then [DOT]
      else
        (let normalizedPath = normalizeWindowsPath p;
             lastSlash = lastIndexOf normalizedPath SLASH
         in if lastSlash = -1 then (if IS_ABSOLUTE_RE normalizedPath then [SLASH] else [DOT])
            else if lastSlash = 0 then [SLASH]
            else
              (let dir = slice normalizedPath 0 (nat lastSlash)
               in if DRIVE_LETTER_RE dir \<and> length dir = 2 then dir @ [SLASH]
                  else normalize dir)))"

record FormatInputPathObject =
  fi_root :: "string option"
  fi_dir :: "string option"
  fi_base :: "string option"
  fi_ext :: "string option"
  fi_name :: "string option"

definition or_else :: "string option \<Rightarrow> string \<Rightarrow> string" where
  \<comment> \<open>\<open>a || b\<close> for an optional string \<open>a\<close>: \<open>undefined\<close> and \<open>""\<close> are falsy\<close>
  "or_else a b = (case a of Some s \<Rightarrow> (if s \<noteq> [] then s else b) | None \<Rightarrow> b)"

definition format :: "FormatInputPathObject \<Rightarrow> string" where
  "format p =
     (let dir = or_else (fi_dir p) (or_else (fi_root p) []);
          base = or_else (fi_base p) (or_else (fi_name p) [] @ or_else (fi_ext p) [])
      in if dir = [] then base
         else if Some dir = fi_root p then dir @ base
         else normalize (dir @ SLASH # base))"

fun strip_trailing_slashes :: "string \<Rightarrow> nat \<Rightarrow> nat" where
  \<comment> \<open>the \<open>while (end > 0 && normalizedPath[end - 1] === SLASH) end--\<close> loop of \<open>basename\<close>\<close>
  "strip_trailing_slashes s 0 = 0"
| "strip_trailing_slashes s (Suc n) = (if s ! n = SLASH then strip_trailing_slashes s n else Suc n)"

definition basename :: "string \<Rightarrow> string option \<Rightarrow> string" where
  "basename p ext =
     (let normalizedPath = normalizeWindowsPath p;
          end = strip_trailing_slashes normalizedPath (length normalizedPath)
      in if end = 0 then []
         else
           (let start = lastIndexOf (take end normalizedPath) SLASH;
                start = (if start = -1 then 0 else start + 1);
                filename = slice normalizedPath (nat start) end
            in (case ext of
                  Some e \<Rightarrow>
                    (if e \<noteq> [] \<and> endsWith filename e \<and> filename \<noteq> e
                     then slice filename 0 (length filename - length e) else filename)
                | None \<Rightarrow> filename)))"

record ParsedPath =
  pp_root :: string
  pp_dir :: string
  pp_base :: string
  pp_ext :: string
  pp_name :: string

fun PATH_ROOT_RE_exec :: "string \<Rightarrow> string option" where
  \<comment> \<open>\<open>/^[/\\]|^[a-zA-Z]:[/\\]/.exec(s)\<close>: the matched text\<close>
  "PATH_ROOT_RE_exec [] = None"
| "PATH_ROOT_RE_exec (a # r) =
     (if is_sep a then Some [a]
      else (case r of
              b # c # _ \<Rightarrow> if is_letter a \<and> b = COLON \<and> is_sep c then Some [a, b, c] else None
            | _ \<Rightarrow> None))"

definition parse :: "string \<Rightarrow> ParsedPath" where
  "parse p =
     (let normalizedPath = normalizeWindowsPath p;
          B = basename normalizedPath None;
          E = extname B;
          N = slice B 0 (length B - length E);
          D = dirname normalizedPath;
          R = (case PATH_ROOT_RE_exec normalizedPath of
                 None \<Rightarrow> []
               | Some R0 \<Rightarrow>
                   if DRIVE_LETTER_RE R0 \<and> length R0 = 2 \<and> length normalizedPath > 2
                      \<and> normalizedPath ! 2 = SLASH
                   then R0 @ [SLASH]
                   else if R0 = [SLASH] \<and> startsWith D ''//'' then
                     (if UNC_REGEX D then
                        (let uncParts = take 3 (split SLASH D);
                             j = joinWith [SLASH] uncParts
                         in if j \<noteq> [] then j else R0)
                      else R0)
                   else R0);
          resolvedDir = (if D = [DOT] \<and> R \<noteq> [] \<and> R \<noteq> [DOT] then R else D)
      in \<lparr>pp_root = R, pp_dir = resolvedDir, pp_base = B, pp_ext = E, pp_name = N\<rparr>)"

section \<open>Alias tables\<close>

text \<open>
  An alias table is a JavaScript object with string keys and string values.  Its own
  enumerable properties are kept as an association list in enumeration order: keys that
  are array indices come first in ascending numeric order, the other keys follow in
  insertion order.  The marker \<open>Symbol.for("pathkit:normalizedAlias")\<close> is a separate,
  non-enumerable flag.  Objects live in a heap (a list of objects, a reference is an
  index), so that identity of references and mutation are explicit.
\<close>

definition is_digit :: "char \<Rightarrow> bool" where
  "is_digit c \<longleftrightarrow> (let n = (of_char c :: nat) in 48 \<le> n \<and> n \<le> 57)"

definition digits_value :: "string \<Rightarrow> int" where
  "digits_value s = foldl (\<lambda>acc c. 10 * acc + ((of_char c :: int) - 48)) 0 s"

definition is_array_index :: "string \<Rightarrow> bool" where
  \<comment> \<open>a canonical numeric string below \<open>2^32 - 1\<close>\<close>
  "is_array_index k \<longleftrightarrow>
     k \<noteq> [] \<and> list_all is_digit k \<and> (length k = 1 \<or> hd k \<noteq> CHR ''0'')
     \<and> digits_value k < 4294967295"

type_synonym props = "(string \<times> string) list"

fun insert_index_key :: "string \<Rightarrow> string \<Rightarrow> props \<Rightarrow> props" where
  \<comment> \<open>a new array-index key goes before the first key that is not a smaller array index\<close>
  "insert_index_key k v [] = [(k, v)]"
| "insert_index_key k v ((k', v') # ps) =
     (if is_array_index k' \<and> digits_value k' < digits_value k
      then (k', v') # insert_index_key k v ps
      else (k, v) # (k', v') # ps)"

definition obj_set :: "props \<Rightarrow> string \<Rightarrow> string \<Rightarrow> props" where
  \<comment> \<open>\<open>o[k] = v\<close>: an existing key keeps its place\<close>
  "obj_set ps k v =
     (if k \<in> fst ` set ps then map (\<lambda>(k', v'). if k' = k then (k', v) else (k', v')) ps
      else if is_array_index k then insert_index_key k v ps
      else ps @ [(k, v)])"

definition obj_get :: "props \<Rightarrow> string \<Rightarrow> string option" where
  "obj_get ps k = map_of ps k"

definition fromEntries :: "props \<Rightarrow> props" where
  \<comment> \<open>\<open>Object.fromEntries(entries)\<close>, and also the spread \<open>{ ...o }\<close> of an object's entries\<close>
  "fromEntries es = foldl (\<lambda>ps (k, v). obj_set ps k v) [] es"

record alias_obj =
  entries :: props
  normalizedAlias :: bool

type_synonym heap = "alias_obj list"

definition compareAliases_key :: "string \<Rightarrow> int" where
  \<comment> \<open>\<open>compareAliases(a, b) = b.split("/").length - a.split("/").length\<close> orders by
      descending segment count; \<open>Array.prototype.sort\<close> is stable\<close>
  "compareAliases_key a = - int (length (split SLASH a))"

definition resolve_nested_step :: "nat \<Rightarrow> string \<Rightarrow> heap \<Rightarrow> string \<Rightarrow> heap" where
  \<comment> \<open>the body of the inner \<open>for (const aliasPrefix in sortedAliases)\<close> loop; \<open>sortedAliases\<close>
      is the object at address \<open>n\<close>\<close>
  "resolve_nested_step n key h aliasPrefix =
     (if aliasPrefix = key \<or> startsWith key (aliasPrefix @ [SLASH]) \<or> key = aliasPrefix then h
      else
        (case obj_get (entries (h ! n)) key of
           None \<Rightarrow> h
         | Some value \<Rightarrow>
             if startsWith value aliasPrefix
                \<and> (length value \<le> length aliasPrefix \<or> value ! length aliasPrefix = SLASH)
             then
               (case obj_get (entries (h ! n)) aliasPrefix of
                  None \<Rightarrow> h
                | Some target \<Rightarrow>
                    h[n := (h ! n)\<lparr>entries :=
                        obj_set (entries (h ! n)) key (target @ drop (length aliasPrefix) value)\<rparr>])
             else h))"

definition normalizeAliases :: "heap \<Rightarrow> nat \<Rightarrow> heap \<times> nat" where
  "normalizeAliases h aliases =
     (if normalizedAlias (h ! aliases) then (h, aliases)
      else
        (let sortedAliasesEntries =
               sort_key (\<lambda>(a, v). compareAliases_key a)
                 (map (\<lambda>(key, value). (normalizeWindowsPath key, normalizeWindowsPath value))
                    (entries (h ! aliases)));
             sortedAliases = length h;
             h1 = h @ [\<lparr>entries = fromEntries sortedAliasesEntries, normalizedAlias = False\<rparr>];
             keys = map fst (entries (h1 ! sortedAliases));
             h2 = foldl (\<lambda>h key. foldl (resolve_nested_step sortedAliases key) h keys) h1 keys;
             finalNormalizedAliases = length h2;
             h3 = h2 @ [\<lparr>entries = fromEntries (entries (h2 ! sortedAliases)),
                            normalizedAlias = True\<rparr>]
         in (h3, finalNormalizedAliases)))"




section \<open>The path algebra on arbitrary JavaScript values\<close>

text \<open>
  The functions are typed \<open>string\<close> in TypeScript but guard their arguments at run time.
  To state what happens on a non-string argument, arguments range over JavaScript values:
  the primitives of every \<open>typeof\<close>, functions, \<open>String\<close> objects, arrays, typed arrays and
  plain objects.  A function is known by its \<open>length\<close>, the number of its parameters, and a
  symbol by its identity.  A plain object is the list of its own properties, which hold
  \<open>null\<close>, booleans, numbers or strings (the first pair for a name is the property; a
  property that is absent reads as \<open>undefined\<close>); objects that carry methods of their own are
  not values of the model.  Numbers are the integers.  A thrown exception is the \<open>Inl\<close>
  branch of the result.
\<close>

datatype jsprop = PNull | PBool bool | PNumber int | PString string

datatype jsval =
    JUndefined
  | JNull
  | JBool bool
  | JNumber int
  | JBigInt int
  | JSymbol nat
  | JString string
  | JFunction nat
  | JStringObject string
  | JArray "jsval list"
  | JTypedArray "nat list"
  | JObject "(string \<times> jsprop) list"

datatype js_error = TypeError string | Error string

fun typeof :: "jsval \<Rightarrow> string" where
  "typeof JUndefined = ''undefined''"
| "typeof JNull = ''object''"
| "typeof (JBool _) = ''boolean''"
| "typeof (JNumber _) = ''number''"
| "typeof (JBigInt _) = ''bigint''"
| "typeof (JSymbol _) = ''symbol''"
| "typeof (JString _) = ''string''"
| "typeof (JFunction _) = ''function''"
| "typeof (JStringObject _) = ''object''"
| "typeof (JArray _) = ''object''"
| "typeof (JTypedArray _) = ''object''"
| "typeof (JObject _) = ''object''"

fun is_TypeError :: "js_error + 'a \<Rightarrow> bool" where
  "is_TypeError (Inl (TypeError _)) = True"
| "is_TypeError _ = False"

fun normalize_js :: "jsval \<Rightarrow> js_error + string" where
  \<comment> \<open>\<open>normalize\<close> has no \<open>typeof\<close> guard.  \<open>path.length\<close> throws on \<open>null\<close> and
      \<open>undefined\<close>; a length of \<open>0\<close> returns \<open>"."\<close>; otherwise \<open>normalizeWindowsPath\<close>
      returns a falsy input as it is and calls \<open>input.replace\<close> on a truthy one, and
      \<open>normalize\<close> goes on to call \<open>path.endsWith\<close>.  Only strings and \<open>String\<close> objects have
      these two methods; on a \<open>String\<close> object every later step sees the same characters as
      on the string\<close>
  "normalize_js JUndefined = Inl (TypeError ''Cannot read properties of undefined (reading 'length')'')"
| "normalize_js JNull = Inl (TypeError ''Cannot read properties of null (reading 'length')'')"
| "normalize_js (JString s) = Inr (normalize s)"
| "normalize_js (JStringObject s) = Inr (normalize s)"
| "normalize_js (JBool b) =
     (if b then Inl (TypeError ''input.replace is not a function'')
      else Inl (TypeError ''path.endsWith is not a function''))"
| "normalize_js (JNumber n) =
     (if n \<noteq> 0 then Inl (TypeError ''input.replace is not a function'')
      else Inl (TypeError ''path.endsWith is not a function''))"
| "normalize_js (JBigInt n) =
     (if n \<noteq> 0 then Inl (TypeError ''input.replace is not a function'')
      else Inl (TypeError ''path.endsWith is not a function''))"
| "normalize_js (JSymbol i) = Inl (TypeError ''input.replace is not a function'')"
| "normalize_js (JFunction n) =
     (if n = 0 then Inr [DOT] else Inl (TypeError ''input.replace is not a function''))"
| "normalize_js (JArray xs) =
     (if length xs = 0 then Inr [DOT] else Inl (TypeError ''input.replace is not a function''))"
| "normalize_js (JTypedArray xs) =
     (if length xs = 0 then Inr [DOT] else Inl (TypeError ''input.replace is not a function''))"
| "normalize_js (JObject ps) =
     (if map_of ps ''length'' = Some (PNumber 0) then Inr [DOT]
      else Inl (TypeError ''input.replace is not a function''))"

fun join_loop :: "jsval list \<Rightarrow> string \<Rightarrow> js_error + string" where
  "join_loop [] joined = Inr joined"
| "join_loop (segment # rest) joined =
     (case segment of
        JString s \<Rightarrow>
          join_loop rest
            (if length s > 0 then (if length joined = 0 then s else joined @ SLASH # s) else joined)
      | _ \<Rightarrow> Inl (TypeError ''Arguments to path.join must be strings''))"

definition join_js :: "jsval list \<Rightarrow> js_error + string" where
  "join_js segments =
     (if length segments = 0 then Inr [DOT]
      else (case join_loop segments [] of
              Inl e \<Rightarrow> Inl e
            | Inr joined \<Rightarrow> if length joined = 0 then Inr [DOT] else Inr (normalize joined)))"

fun resolve_loop_js :: "jsval list \<Rightarrow> string \<Rightarrow> bool \<Rightarrow> js_error + string \<times> bool" where
  "resolve_loop_js [] resolvedPath resolvedAbsolute = Inr (resolvedPath, resolvedAbsolute)"
| "resolve_loop_js (path # rest) resolvedPath resolvedAbsolute =
     (if resolvedAbsolute then Inr (resolvedPath, resolvedAbsolute)
      else (case path of
              JString s \<Rightarrow>
                if length s = 0 then resolve_loop_js rest resolvedPath resolvedAbsolute
                else
                  (let normalizedSegment = normalizeWindowsPath s
                   in resolve_loop_js rest (normalizedSegment @ SLASH # resolvedPath)
                        (IS_ABSOLUTE_RE normalizedSegment))
            | _ \<Rightarrow> Inl (TypeError ''Arguments to path.resolve must be strings'')))"

definition resolve_js :: "string \<Rightarrow> jsval list \<Rightarrow> js_error + string" where
  "resolve_js pcwd args =
     (case resolve_loop_js (rev args @ [JString (cwd pcwd)]) [] False of
        Inl e \<Rightarrow> Inl e
      | Inr (resolvedPath, resolvedAbsolute) \<Rightarrow>
          (let resolvedPath = normalizeString resolvedPath (\<not> resolvedAbsolute)
           in if resolvedAbsolute then
                (if IS_ABSOLUTE_RE resolvedPath then Inr resolvedPath else Inr (SLASH # resolvedPath))
              else if length resolvedPath > 0 then Inr resolvedPath else Inr [DOT]))"

fun isAbsolute_js :: "jsval \<Rightarrow> js_error + bool" where
  "isAbsolute_js (JString p) = Inr (IS_ABSOLUTE_RE (normalizeWindowsPath p))"
| "isAbsolute_js _ = Inr False"

fun extname_js :: "jsval \<Rightarrow> js_error + string" where
  "extname_js (JString p) = Inr (extname p)"
| "extname_js _ = Inr []"

definition relative_js :: "string \<Rightarrow> jsval \<Rightarrow> jsval \<Rightarrow> js_error + string" where
  "relative_js pcwd from to =
     (case resolve_js pcwd [from] of
        Inl e \<Rightarrow> Inl e
      | Inr resolvedFrom \<Rightarrow>
          (case resolve_js pcwd [to] of
             Inl e \<Rightarrow> Inl e
           | Inr resolvedTo \<Rightarrow> Inr (relative_resolved resolvedFrom resolvedTo)))"

fun dirname_js :: "jsval \<Rightarrow> js_error + string" where
  "dirname_js (JString p) = Inr (dirname p)"
| "dirname_js _ = Inr [DOT]"

fun truthy :: "jsprop option \<Rightarrow> bool" where
  \<comment> \<open>truth of a property that was read; \<open>None\<close> is \<open>undefined\<close>\<close>
  "truthy None = False"
| "truthy (Some PNull) = False"
| "truthy (Some (PBool b)) = b"
| "truthy (Some (PNumber n)) = (n \<noteq> 0)"
| "truthy (Some (PString s)) = (s \<noteq> [])"

definition or_prop :: "jsprop option \<Rightarrow> jsprop \<Rightarrow> jsprop" where
  \<comment> \<open>\<open>a || b\<close>\<close>
  "or_prop a b = (if truthy a then the a else b)"

fun template :: "(int \<Rightarrow> string) \<Rightarrow> jsprop \<Rightarrow> string" where
  \<comment> \<open>the text of a value inside a template literal; how a number prints is the engine's
      \<open>Number.prototype.toString\<close>, a parameter\<close>
  "template number_text PNull = ''null''"
| "template number_text (PBool b) = (if b then ''true'' else ''false'')"
| "template number_text (PNumber n) = number_text n"
| "template number_text (PString s) = s"

definition format_object :: "(int \<Rightarrow> string) \<Rightarrow> (string \<times> jsprop) list \<Rightarrow> jsprop" where
  \<comment> \<open>the body of \<open>format\<close> after its guard, on the own properties of the argument\<close>
  "format_object number_text ps =
     (let dir = or_prop (map_of ps ''dir'') (or_prop (map_of ps ''root'') (PString []));
          base = or_prop (map_of ps ''base'')
                   (PString (template number_text (or_prop (map_of ps ''name'') (PString []))
                             @ template number_text (or_prop (map_of ps ''ext'') (PString []))))
      in if \<not> truthy (Some dir) then base
         else if Some dir = map_of ps ''root'' then
           PString (template number_text dir @ template number_text base)
         else PString (normalize (template number_text dir @ SLASH # template number_text base)))"

fun format_js :: "(int \<Rightarrow> string) \<Rightarrow> jsval \<Rightarrow> js_error + jsprop" where
  \<comment> \<open>\<open>typeof p !== "object" || p === null\<close> throws; arrays, typed arrays and \<open>String\<close>
      objects are objects that have none of the five properties\<close>
  "format_js number_text (JObject ps) = Inr (format_object number_text ps)"
| "format_js number_text (JArray xs) = Inr (format_object number_text [])"
| "format_js number_text (JTypedArray xs) = Inr (format_object number_text [])"
| "format_js number_text (JStringObject s) = Inr (format_object number_text [])"
| "format_js number_text _ =
     Inl (TypeError ''Parameter \"pathObject\" must be an object, not null or other type.'')"

definition basename_js :: "jsval \<Rightarrow> jsval \<Rightarrow> js_error + string" where
  "basename_js p ext =
     (case p of
        JString s \<Rightarrow>
          (case ext of
             JUndefined \<Rightarrow> Inr (basename s None)
           | JString e \<Rightarrow> Inr (basename s (Some e))
           | _ \<Rightarrow> Inl (TypeError ''[basename] `ext` must be a string.''))
      | _ \<Rightarrow> Inl (TypeError ''Path must be a string.''))"

fun parse_js :: "jsval \<Rightarrow> js_error + ParsedPath" where
  "parse_js (JString p) = Inr (parse p)"
| "parse_js _ = Inl (TypeError ''Path must be a string.'')"

section \<open>Classification of import paths\<close>

datatype ImportType = Absolute | Alias | Bare | Dynamic | Module | Relative


definition not_slash :: "char \<Rightarrow> bool" where
  "not_slash c \<longleftrightarrow> c \<noteq> SLASH"

definition scoped_package_match :: "string \<Rightarrow> string option" where
  \<comment> \<open>the first alternative \<open>@[^/]+\/[^/]+\<close> of the package-name pattern, anchored at the start\<close>
  "scoped_package_match s =
     (case s of
        [] \<Rightarrow> None
      | c # r \<Rightarrow>
          if c \<noteq> CHR ''@'' then None
          else
            (let scope = takeWhile not_slash r; rest = dropWhile not_slash r
             in if scope = [] then None
                else (case rest of
                        [] \<Rightarrow> None
                      | _ # r' \<Rightarrow>
                          (let name = takeWhile not_slash r'
                           in if name = [] then None else Some (c # scope @ SLASH # name)))))"

definition extractPackageName :: "string option \<Rightarrow> string option" where
  \<comment> \<open>\<open>/^(@[^/]+\/[^/]+|[^/]+)/.exec(importPath)\<close> after the guard\<close>
  "extractPackageName importPath =
     (case importPath of
        None \<Rightarrow> None
      | Some p \<Rightarrow>
          if p = [] \<or> startsWith p ''.'' \<or> startsWith p ''/'' then None
          else (case scoped_package_match p of
                  Some m \<Rightarrow> Some m
                | None \<Rightarrow> (let m = takeWhile not_slash p in if m = [] then None else Some m)))"



datatype pathType = PT_alias | PT_relative | PT_absolute | PT_bare | PT_module

definition getPathType :: "string \<Rightarrow> pathType" where
  \<comment> \<open>the helper inside \<open>getFileImportsExports\<close> of the import/export analysis\<close>
  "getPathType path =
     (if startsWith path ''.'' then PT_relative
      else if startsWith path ''/'' then PT_absolute
      else if startsWith path ''@'' \<or> startsWith path ''~'' then PT_alias
      else if startsWith path ''http://'' \<or> startsWith path ''https://'' then PT_module
      else PT_bare)"






section \<open>Regular expressions of the statement scanner\<close>

text \<open>
  The scanner is driven by regular expressions.  They are kept as syntax trees and run by a
  backtracking matcher with the priorities of the JavaScript engine: a quantifier is greedy,
  an alternation tries its left branch first, an iteration that consumes nothing is not
  repeated.  \<open>ms r (s, c)\<close> lists, best first, every way \<open>r\<close> can match a prefix of \<open>s\<close>: the
  text that remains and the capture groups.
\<close>

datatype cls = CSpace | CWord | COneOf string | CNoneOf string | CAny

definition is_space :: "char \<Rightarrow> bool" where
  \<comment> \<open>\<open>\s\<close>, which is also what \<open>trim\<close> strips, on the one-byte characters: tab, line feed,
      vertical tab, form feed, carriage return, space and the no-break space U+00A0\<close>
  "is_space c \<longleftrightarrow>
     c \<in> set [CHR '' '', CHR 0x09, CHR 0x0A, CHR 0x0B, CHR 0x0C, CHR 0x0D, CHR 0xA0]"

definition is_word :: "char \<Rightarrow> bool" where
  \<comment> \<open>\<open>\w\<close>\<close>
  "is_word c \<longleftrightarrow> (let n = (of_char c :: nat) in
      (48 \<le> n \<and> n \<le> 57) \<or> (65 \<le> n \<and> n \<le> 90) \<or> (97 \<le> n \<and> n \<le> 122) \<or> n = 95)"

fun cls_match :: "cls \<Rightarrow> char \<Rightarrow> bool" where
  "cls_match CSpace c = is_space c"
| "cls_match CWord c = is_word c"
| "cls_match (COneOf cs) c = (c \<in> set cs)"
| "cls_match (CNoneOf cs) c = (c \<notin> set cs)"
| "cls_match CAny c = (c \<notin> set [CHR 0x0A, CHR 0x0D])"

datatype regex =
    Lit string
  | Cls cls
  | Seq regex regex
  | Alt regex regex
  | Opt regex
  | Star regex
  | Group nat regex

type_synonym captures = "(nat \<times> string) list"
type_synonym mstate = "string \<times> captures"

function (sequential) ms :: "regex \<Rightarrow> mstate \<Rightarrow> mstate list" where
  "ms (Lit l) (s, c) = (if take (length l) s = l then [(drop (length l) s, c)] else [])"
| "ms (Cls k) (s, c) = (case s of x # xs \<Rightarrow> if cls_match k x then [(xs, c)] else [] | [] \<Rightarrow> [])"
| "ms (Seq a b) x = concat (map (ms b) (ms a x))"
| "ms (Alt a b) x = ms a x @ ms b x"
| "ms (Opt a) x = ms a x @ [x]"
| "ms (Star a) x =
     concat (map (\<lambda>y. if length (fst y) < length (fst x) then ms (Star a) y else []) (ms a x)) @ [x]"
| "ms (Group i a) (s, c) =
     map (\<lambda>(s', c'). (s', (i, take (length s - length s') s) # filter (\<lambda>(j, _). j \<noteq> i) c'))
       (ms a (s, c))"
  by pat_completeness auto
termination
  by (relation "measure size <*lex*> measure (\<lambda>x. length (fst x))") auto

definition seqs :: "regex list \<Rightarrow> regex" where
  "seqs rs = foldr Seq rs (Lit [])"

definition Plus :: "regex \<Rightarrow> regex" where
  "Plus r = Seq r (Star r)"

definition alts :: "regex list \<Rightarrow> regex" where
  "alts rs = foldr Alt (butlast rs) (last rs)"

definition match_at :: "regex \<Rightarrow> string \<Rightarrow> (nat \<times> captures) option" where
  \<comment> \<open>the match at the start of \<open>s\<close> the engine settles on: its length and its groups\<close>
  "match_at r s = (case ms r (s, []) of [] \<Rightarrow> None | (s', c) # _ \<Rightarrow> Some (length s - length s', c))"

record rmatch =
  m_index :: nat
  m_text :: string
  m_groups :: captures

function matchAll_from :: "regex \<Rightarrow> nat \<Rightarrow> string \<Rightarrow> rmatch list" where
  "matchAll_from r i s =
     (case match_at r s of
        Some (len, c) \<Rightarrow>
          \<lparr>m_index = i, m_text = take len s, m_groups = c\<rparr>
            # (if s = [] then [] else matchAll_from r (i + max len 1) (drop (max len 1) s))
      | None \<Rightarrow> (if s = [] then [] else matchAll_from r (i + 1) (tl s)))"
  by pat_completeness auto
termination
  by (relation "measure (\<lambda>(r, i, s). length s)") auto

definition matchAll :: "regex \<Rightarrow> string \<Rightarrow> rmatch list" where
  \<comment> \<open>\<open>[...s.matchAll(r)]\<close> for a global \<open>r\<close>: leftmost matches, none overlapping\<close>
  "matchAll r s = matchAll_from r 0 s"

fun exec :: "regex \<Rightarrow> string \<Rightarrow> captures option" where
  \<comment> \<open>\<open>r.exec(s)\<close> for a regular expression without flags: the groups of the leftmost match\<close>
  "exec r [] = (case match_at r [] of Some (len, c) \<Rightarrow> Some c | None \<Rightarrow> None)"
| "exec r (x # xs) = (case match_at r (x # xs) of Some (len, c) \<Rightarrow> Some c | None \<Rightarrow> exec r xs)"

definition group :: "captures \<Rightarrow> nat \<Rightarrow> string option" where
  \<comment> \<open>\<open>match[i]\<close> when it is truthy\<close>
  "group c i = (case map_of c i of Some g \<Rightarrow> if g \<noteq> [] then Some g else None | None \<Rightarrow> None)"

definition ws1 :: regex where "ws1 = Plus (Cls CSpace)"
definition ws0 :: regex where "ws0 = Star (Cls CSpace)"
definition word1 :: regex where "word1 = Plus (Cls CWord)"
definition quote :: regex where "quote = Cls (COneOf [CHR 0x27, CHR 0x22])"
definition braces :: regex where
  "braces = seqs [Lit ''{'', Star (Cls (CNoneOf ''}'')), Lit ''}'']"
definition from_source :: "nat \<Rightarrow> regex" where
  \<comment> \<open>\<open>\s+from\s+['"]([^'"]+)['"]\<close> with the given group number\<close>
  "from_source i =
     seqs [ws1, Lit ''from'', ws1, quote, Group i (Plus (Cls (CNoneOf [CHR 0x27, CHR 0x22]))), quote]"

definition staticImport :: regex where
  \<comment> \<open>\<open>/import\s+(?:type\s+)?(?:(?:\w+)(?:\s*,\s*)?)?(?:\{[^}]*\}|\*\s+as\s+\w+)?\s+from\s+['"]([^'"]+)['"]|import\s+(?:type\s+)?(\w+)\s+from\s+['"]([^'"]+)['"]/g\<close>\<close>
  "staticImport =
     Alt (seqs [Lit ''import'', ws1, Opt (Seq (Lit ''type'') ws1),
                Opt (Seq word1 (Opt (seqs [ws0, Lit '','', ws0]))),
                Opt (Alt braces (seqs [Lit ''*'', ws1, Lit ''as'', ws1, word1])),
                from_source 1])
         (seqs [Lit ''import'', ws1, Opt (Seq (Lit ''type'') ws1), Group 2 word1, from_source 3])"

definition dynamicImport :: regex where
  \<comment> \<open>\<open>/import\s*\(\s*['"]([^'"]+)['"]\s*\)/g\<close>\<close>
  "dynamicImport =
     seqs [Lit ''import'', ws0, Lit ''('', ws0, quote,
           Group 1 (Plus (Cls (CNoneOf [CHR 0x27, CHR 0x22]))), quote, ws0, Lit '')'']"

definition staticExport :: regex where
  \<comment> \<open>\<open>/export\s+(?:type\s+)?(?:\{[^}]*\}|\*(?:\s+as\s+\w+)?)\s+from\s+['"]([^'"]+)['"]/g\<close>\<close>
  "staticExport =
     seqs [Lit ''export'', ws1, Opt (Seq (Lit ''type'') ws1),
           Alt braces (Seq (Lit ''*'') (Opt (seqs [ws1, Lit ''as'', ws1, word1]))),
           from_source 1]"

definition defaultExport :: regex where
  \<comment> \<open>\<open>/export\s+default\s+(?:\w+|\{[^}]*\}|class\s+\w+|function\s+\w+)/g\<close>\<close>
  "defaultExport =
     seqs [Lit ''export'', ws1, Lit ''default'', ws1,
           alts [word1, braces, seqs [Lit ''class'', ws1, word1], seqs [Lit ''function'', ws1, word1]]]"

definition namedExport :: regex where
  \<comment> \<open>\<open>/export\s+(?:const|let|var|function|class|enum|interface|type)\s+(\w+)/g\<close>\<close>
  "namedExport =
     seqs [Lit ''export'', ws1,
           alts [Lit ''const'', Lit ''let'', Lit ''var'', Lit ''function'', Lit ''class'', Lit ''enum'',
                 Lit ''interface'', Lit ''type''],
           ws1, Group 1 word1]"

definition namespace_re :: regex where
  \<comment> \<open>\<open>/(?:import|export)\s+(?:type\s+)?\*\s+as\s+(\w+)/\<close>\<close>
  "namespace_re =
     seqs [Alt (Lit ''import'') (Lit ''export''), ws1, Opt (Seq (Lit ''type'') ws1),
           Lit ''*'', ws1, Lit ''as'', ws1, Group 1 word1]"

definition default_re :: regex where
  \<comment> \<open>\<open>/import\s+(?:type\s+)?(\w+)(?:\s*,|\s+from)/\<close>\<close>
  "default_re =
     seqs [Lit ''import'', ws1, Opt (Seq (Lit ''type'') ws1), Group 1 word1,
           Alt (Seq ws0 (Lit '','')) (Seq ws1 (Lit ''from''))]"

definition named_re :: regex where
  \<comment> \<open>\<open>/{([^}]*)}/\<close>\<close>
  "named_re = seqs [Lit ''{'', Group 1 (Star (Cls (CNoneOf ''}''))), Lit ''}'']"

definition type_item_re :: regex where
  \<comment> \<open>\<open>/^type\s+(.+)/\<close>, matched at the start only\<close>
  "type_item_re = seqs [Lit ''type'', ws1, Group 1 (Plus (Cls CAny))]"

section \<open>The statement scanner\<close>

datatype specifier_type = S_named | S_default | S_namespace | S_all

record ImportExportSpecifier =
  s_type :: specifier_type
  s_name :: string
  s_alias :: "string option"
  s_isType :: "bool option"

datatype statement_form = F_static | F_dynamic

datatype statement_kind = K_import | K_export

record ImportExportInfo =
  statement :: string
  i_type :: statement_form
  i_kind :: statement_kind
  source :: "string option"
  pathType :: "pathType option"
  pathTypeSymbol :: "string option"
  isTypeOnly :: "bool option"
  specifiers :: "ImportExportSpecifier list"
  i_start :: nat
  i_end :: nat

datatype kind_filter = KF_import | KF_export | KF_all

record GetFileImportsExportsOptions =
  g_kind :: "kind_filter option"
  g_pathTypes :: "pathType list option"
  g_limitPerType :: "int option"

fun str_includes :: "string \<Rightarrow> string \<Rightarrow> bool" where
  \<comment> \<open>\<open>s.includes(sub)\<close>\<close>
  "str_includes [] sub = (sub = [])"
| "str_includes (x # xs) sub = (take (length sub) (x # xs) = sub \<or> str_includes xs sub)"

definition trim :: "string \<Rightarrow> string" where
  "trim s = rev (dropWhile is_space (rev (dropWhile is_space s)))"

function split_str :: "string \<Rightarrow> string \<Rightarrow> string list" where
  \<comment> \<open>\<open>s.split(sep)\<close> for a separator that is not empty\<close>
  "split_str sep s =
     (if s = [] then [[]]
      else if sep \<noteq> [] \<and> take (length sep) s = sep then [] # split_str sep (drop (length sep) s)
      else (case split_str sep (tl s) of p # ps \<Rightarrow> (hd s # p) # ps | [] \<Rightarrow> [[hd s]]))"
  by pat_completeness auto
termination
  by (relation "measure (\<lambda>(sep, s). length s)") auto

definition named_item :: "bool \<Rightarrow> string \<Rightarrow> ImportExportSpecifier list" where
  \<comment> \<open>the body of \<open>for (const item of items)\<close>: the specifier pushed for one item, if any\<close>
  "named_item isTypeOnly' item =
     (let typeMatch = match_at type_item_re item;
          actualItem = (case typeMatch of
                          Some (len, c) \<Rightarrow> (case map_of c 1 of Some g \<Rightarrow> g | None \<Rightarrow> [])
                        | None \<Rightarrow> item)
      in if actualItem = [] then []
         else
           (let isItemType = (typeMatch \<noteq> None \<or> isTypeOnly')
            in if str_includes actualItem '' as '' then
                 (let parts = map trim (split_str '' as '' actualItem);
                      name = hd parts; alias = parts ! 1
                  in if name = [] then []
                     else [\<lparr>s_type = S_named, s_name = name, s_alias = Some alias,
                            s_isType = Some isItemType\<rparr>])
               else [\<lparr>s_type = S_named, s_name = actualItem, s_alias = None,
                      s_isType = Some isItemType\<rparr>]))"

definition extractSpecifiers :: "string \<Rightarrow> ImportExportSpecifier list" where
  "extractSpecifiers stmt =
     (let isTypeOnly' = (str_includes stmt ''import type'' \<or> str_includes stmt ''export type'') in
      case (case exec namespace_re stmt of Some c \<Rightarrow> group c 1 | None \<Rightarrow> None) of
        Some name \<Rightarrow>
          [\<lparr>s_type = S_namespace, s_name = name, s_alias = None, s_isType = Some isTypeOnly'\<rparr>]
      | None \<Rightarrow>
          (let defaults =
                 (case (case exec default_re stmt of Some c \<Rightarrow> group c 1 | None \<Rightarrow> None) of
                    Some name \<Rightarrow>
                      if \<not> str_includes stmt ''{'' then
                        [\<lparr>s_type = S_default, s_name = name, s_alias = None,
                          s_isType = Some isTypeOnly'\<rparr>]
                      else []
                  | None \<Rightarrow> []);
               named =
                 (case (case exec named_re stmt of Some c \<Rightarrow> group c 1 | None \<Rightarrow> None) of
                    Some inner \<Rightarrow>
                      concat (map (named_item isTypeOnly')
                                (filter (\<lambda>item. length item > 0) (map trim (split (CHR '','') inner))))
                  | None \<Rightarrow> [])
           in defaults @ named))"

definition alias_symbol :: "pathType \<Rightarrow> string \<Rightarrow> string option" where
  \<comment> \<open>\<open>pathType === "alias" ? /^[@~]/.exec(source)?.[0] : undefined\<close>\<close>
  "alias_symbol t src =
     (if t = PT_alias then
        (case src of c # _ \<Rightarrow> if c = CHR ''@'' \<or> c = CHR ''~'' then Some [c] else None | [] \<Rightarrow> None)
      else None)"

definition sourced_info ::
  "statement_form \<Rightarrow> statement_kind \<Rightarrow> pathType list \<Rightarrow> string \<Rightarrow> rmatch \<Rightarrow> string option
     \<Rightarrow> ImportExportInfo list" where
  \<comment> \<open>the body of the three loops over matches that carry a source: the record pushed, if any;
      the last argument is the source the loop reads off the match\<close>
  "sourced_info form knd pathTypes typeMarker m src =
     (case src of
        None \<Rightarrow> []
      | Some source' \<Rightarrow>
          (let pathType' = getPathType source'
           in if pathType' \<notin> set pathTypes then []
              else [\<lparr>statement = m_text m, i_type = form, i_kind = knd, source = Some source',
                     pathType = Some pathType', pathTypeSymbol = alias_symbol pathType' source',
                     isTypeOnly = Some (if form = F_dynamic then False else str_includes (m_text m) typeMarker),
                     specifiers = (if form = F_dynamic then [] else extractSpecifiers (m_text m)),
                     i_start = m_index m, i_end = m_index m + length (m_text m)\<rparr>]))"

definition first_truthy :: "string option \<Rightarrow> string option \<Rightarrow> string option" where
  \<comment> \<open>\<open>a || b\<close>\<close>
  "first_truthy a b = (case a of Some x \<Rightarrow> Some x | None \<Rightarrow> b)"

definition scan :: "string \<Rightarrow> kind_filter \<Rightarrow> pathType list \<Rightarrow> ImportExportInfo list" where
  \<comment> \<open>\<open>results\<close> as it stands before the limit is applied\<close>
  "scan content knd pathTypes =
     (if knd = KF_import \<or> knd = KF_all then
        concat (map (\<lambda>m. sourced_info F_static K_import pathTypes ''import type'' m
                           (first_truthy (group (m_groups m) 1) (group (m_groups m) 3)))
                  (matchAll staticImport content))
        @ concat (map (\<lambda>m. sourced_info F_dynamic K_import pathTypes [] m (group (m_groups m) 1))
                    (matchAll dynamicImport content))
      else [])
     @ (if knd = KF_export \<or> knd = KF_all then
          concat (map (\<lambda>m. sourced_info F_static K_export pathTypes ''export type'' m
                             (group (m_groups m) 1))
                    (matchAll staticExport content))
          @ map (\<lambda>m. \<lparr>statement = m_text m, i_type = F_static, i_kind = K_export, source = None,
                       pathType = None, pathTypeSymbol = None, isTypeOnly = Some False,
                       specifiers = [\<lparr>s_type = S_default, s_name = ''default'', s_alias = None,
                                      s_isType = None\<rparr>],
                       i_start = m_index m, i_end = m_index m + length (m_text m)\<rparr>)
              (matchAll defaultExport content)
          @ concat (map (\<lambda>m. case group (m_groups m) 1 of
                                None \<Rightarrow> []
                              | Some name \<Rightarrow>
                                  [\<lparr>statement = m_text m, i_type = F_static, i_kind = K_export,
                                    source = None, pathType = None, pathTypeSymbol = None,
                                    isTypeOnly = Some (str_includes (m_text m) ''export type''),
                                    specifiers = [\<lparr>s_type = S_named, s_name = name, s_alias = None,
                                                   s_isType = None\<rparr>],
                                    i_start = m_index m, i_end = m_index m + length (m_text m)\<rparr>])
                      (matchAll namedExport content))
        else [])"

definition kind_name :: "statement_kind \<Rightarrow> string" where
  "kind_name k = (case k of K_import \<Rightarrow> ''import'' | K_export \<Rightarrow> ''export'')"

definition pathType_name :: "pathType \<Rightarrow> string" where
  "pathType_name t =
     (case t of PT_alias \<Rightarrow> ''alias'' | PT_relative \<Rightarrow> ''relative'' | PT_absolute \<Rightarrow> ''absolute''
      | PT_bare \<Rightarrow> ''bare'' | PT_module \<Rightarrow> ''module'')"

definition bucket_key :: "ImportExportInfo \<Rightarrow> string" where
  \<comment> \<open>\<open>`${curr.kind}-${curr.pathType || "none"}`\<close>\<close>
  "bucket_key cur =
     kind_name (i_kind cur) @ ''-'' @ (case pathType cur of Some t \<Rightarrow> pathType_name t | None \<Rightarrow> ''none'')"

definition group_push ::
  "(string \<times> ImportExportInfo list) list \<Rightarrow> ImportExportInfo \<Rightarrow> (string \<times> ImportExportInfo list) list" where
  \<comment> \<open>the reducer: \<open>if (!acc[key]) acc[key] = []; acc[key].push(curr)\<close>; the keys are never
      array indices, so the object keeps them in insertion order\<close>
  "group_push acc cur =
     (let key = bucket_key cur
      in if key \<in> fst ` set acc
         then map (\<lambda>(k, g). if k = key then (k, g @ [cur]) else (k, g)) acc
         else acc @ [(key, [cur])])"

definition slice_to :: "'a list \<Rightarrow> int \<Rightarrow> 'a list" where
  \<comment> \<open>\<open>xs.slice(0, n)\<close> for an integer \<open>n\<close>; a negative end counts from the back\<close>
  "slice_to xs n = (if n < 0 then take (nat (int (length xs) + n)) xs else take (nat n) xs)"

definition getFileImportsExports :: "string \<Rightarrow> GetFileImportsExportsOptions \<Rightarrow> ImportExportInfo list" where
  "getFileImportsExports content options =
     (let knd = (case g_kind options of Some k \<Rightarrow> k | None \<Rightarrow> KF_all);
          pathTypes = (case g_pathTypes options of Some ts \<Rightarrow> ts
                       | None \<Rightarrow> [PT_alias, PT_relative, PT_absolute, PT_bare, PT_module]);
          results = scan content knd pathTypes
      in case g_limitPerType options of
           Some limitPerType \<Rightarrow>
             if limitPerType \<noteq> 0 then
               concat (map (\<lambda>(k, g). slice_to g limitPerType) (foldl group_push [] results))
             else results
         | None \<Rightarrow> results)"

definition default_scan_options :: GetFileImportsExportsOptions where
  "default_scan_options = \<lparr>g_kind = None, g_pathTypes = None, g_limitPerType = None\<rparr>"

definition bucket :: "string \<Rightarrow> ImportExportInfo list \<Rightarrow> ImportExportInfo list" where
  \<comment> \<open>the records of one (kind, pathType) bucket, in the order of the list\<close>
  "bucket k rs = filter (\<lambda>r. bucket_key r = k) rs"

definition grp :: "(string \<times> ImportExportInfo list) list \<Rightarrow> string \<Rightarrow> ImportExportInfo list" where
  \<comment> \<open>\<open>acc[key]\<close>, or the empty list\<close>
  "grp acc k = (case map_of acc k of Some g \<Rightarrow> g | None \<Rightarrow> [])"

definition scan_example :: string where
  \<comment> \<open>a dynamic import followed by a static one\<close>
  "scan_example = ''import(\"./a\"); import x from \"./b\"''"

subsection \<open>The deprecated copy of the scanner: its inclusion test\<close>

text \<open>
  The deprecated module has its own \<open>getFileImportsExports\<close>.  It applies
  \<open>limitPerType\<close> while it scans, through the helper below, which every statement with a
  source passes through in scan order; \<open>typeCounts\<close> is the table of counters the helper
  updates, here threaded through as an association list (the first pair for a key counts).
\<close>

definition shouldIncludeByPathType ::
  "ImportType list option \<Rightarrow> int option \<Rightarrow> (ImportType \<times> int) list \<Rightarrow> ImportType
     \<Rightarrow> bool \<times> (ImportType \<times> int) list" where
  "shouldIncludeByPathType pathTypes limitPerType typeCounts ty =
     (case pathTypes of
        None \<Rightarrow> (True, typeCounts)
      | Some pts \<Rightarrow>
          if ty \<notin> set pts then (False, typeCounts)
          else
            (case limitPerType of
               None \<Rightarrow> (True, typeCounts)
             | Some l \<Rightarrow>
                 if l = 0 then (True, typeCounts)
                 else
                   (let c = (case map_of typeCounts ty of Some c \<Rightarrow> c | None \<Rightarrow> 0) + 1
                    in (c \<le> l, (ty, c) # typeCounts))))"

section \<open>The conversion matrix\<close>

text \<open>
  The converter module works on top of Node's \<open>path\<close> module and of the working directory it
  caches at load time (\<open>CWD\<close>).  Node's module is not code of this library, so both are
  parameters, and every general statement below holds for all of their values.  Closed
  examples need some value for them: \<open>pathkit_env\<close> puts the path algebra above in the
  place of Node's functions.  It is not Node's module (the two differ, for instance on a
  path that starts with a drive letter on a POSIX system), and it is used only in examples
  whose outcome does not depend on what the path functions return.  Logging calls have no
  effect on results and are left out.
\<close>

record path_api =
  p_relative :: "string \<Rightarrow> string \<Rightarrow> string"
  p_resolve :: "string list \<Rightarrow> string"
  p_dirname :: "string \<Rightarrow> string"
  p_basename :: "string \<Rightarrow> string"
  p_join :: "string list \<Rightarrow> string"
  p_isAbsolute :: "string \<Rightarrow> bool"
  p_normalize :: "string \<Rightarrow> string"

record env =
  node_path :: path_api
  CWD :: string

definition pathkit_env :: "string \<Rightarrow> env" where
  "pathkit_env pcwd =
     \<lparr>node_path = \<lparr>p_relative = relative pcwd, p_resolve = resolve pcwd, p_dirname = dirname,
                    p_basename = (\<lambda>p. basename p None), p_join = join,
                    p_isAbsolute = isAbsolute, p_normalize = normalize\<rparr>,
      CWD = pcwd\<rparr>"

record LibConfigDeprecated =
  libMainFile :: string  \<comment> \<open>the only field of the library configuration the converters read\<close>

record ConversionOptions =
  aliasPrefix :: string
  baseDir :: string
  currentLibName :: "string option"
  libsList :: "(string \<times> LibConfigDeprecated) list"
  sourceFile :: string
  urlMap :: "(string \<times> string) list"
  strip :: "string list"

definition is_quote :: "char \<Rightarrow> bool" where
  "is_quote c \<longleftrightarrow> c = CHR 0x27 \<or> c = CHR 0x22"

definition url_after_quote :: "char \<Rightarrow> string \<Rightarrow> string option" where
  \<comment> \<open>\<open>(https?:\/\/[^'"]+)\1\<close> right after an opening quote \<open>q\<close>\<close>
  "url_after_quote q s =
     (let scheme = (if startsWith s ''https://'' then Some ''https://''
                    else if startsWith s ''http://'' then Some ''http://'' else None)
      in case scheme of
           None \<Rightarrow> None
         | Some sch \<Rightarrow>
             (let r = drop (length sch) s;
                  body = takeWhile (\<lambda>c. \<not> is_quote c) r;
                  rest = dropWhile (\<lambda>c. \<not> is_quote c) r
              in if body \<noteq> [] \<and> rest \<noteq> [] \<and> hd rest = q then Some (sch @ body) else None))"

fun getBareImportUrl :: "string \<Rightarrow> string option" where
  \<comment> \<open>\<open>/(['"])(https?:\/\/[^'"]+)\1/.exec(importStr)?.[2] ?? null\<close>, the leftmost match\<close>
  "getBareImportUrl [] = None"
| "getBareImportUrl (c # s) =
     (if is_quote c then
        (case url_after_quote c s of Some u \<Rightarrow> Some u | None \<Rightarrow> getBareImportUrl s)
      else getBareImportUrl s)"

definition Object_prototype_keys :: "string list" where
  \<comment> \<open>the property names every plain object inherits from \<open>Object.prototype\<close>\<close>
  "Object_prototype_keys =
     [''constructor'', ''__defineGetter__'', ''__defineSetter__'', ''hasOwnProperty'',
      ''__lookupGetter__'', ''__lookupSetter__'', ''isPrototypeOf'', ''propertyIsEnumerable'',
      ''toString'', ''valueOf'', ''__proto__'', ''toLocaleString'']"

definition has_property :: "(string \<times> 'a) list \<Rightarrow> string \<Rightarrow> bool" where
  \<comment> \<open>truth of \<open>obj[k]\<close> for a plain object \<open>obj\<close> whose own values are objects: an own value is
      truthy, and so is every value inherited from \<open>Object.prototype\<close> (functions, and the
      prototype itself under \<open>__proto__\<close>)\<close>
  "has_property obj k \<longleftrightarrow> map_of obj k \<noteq> None \<or> k \<in> set Object_prototype_keys"

definition truthy_lookup :: "(string \<times> string) list \<Rightarrow> string \<Rightarrow> string option" where
  \<comment> \<open>\<open>m[k]\<close> when it is truthy (present and not empty)\<close>
  "truthy_lookup m k = (case map_of m k of Some v \<Rightarrow> if v \<noteq> [] then Some v else None | None \<Rightarrow> None)"

definition isLibraryImport ::
  "env \<Rightarrow> string \<Rightarrow> string \<Rightarrow> LibConfigDeprecated \<Rightarrow> string option \<Rightarrow> bool" where
  "isLibraryImport e relativePathToRoot libName libConfigDeprecated currentLibName' =
     (if (case currentLibName' of Some c \<Rightarrow> c \<noteq> [] \<and> libName = c | None \<Rightarrow> False) then False
      else
        (let libMainDir = replace_backslashes (p_dirname (node_path e) (libMainFile libConfigDeprecated))
         in startsWith relativePathToRoot (libMainDir @ [SLASH])))"

fun matchLibraryImport ::
  "env \<Rightarrow> string \<Rightarrow> (string \<times> LibConfigDeprecated) list \<Rightarrow> string option \<Rightarrow> string option" where
  "matchLibraryImport e relativeToRoot [] currentLibName' = None"
| "matchLibraryImport e relativeToRoot ((libName, libConfigDeprecated) # rest) currentLibName' =
     (if libMainFile libConfigDeprecated \<noteq> []
         \<and> isLibraryImport e relativeToRoot libName libConfigDeprecated currentLibName'
      then Some libName
      else matchLibraryImport e relativeToRoot rest currentLibName')"

definition convertAbsoluteToAlias :: "env \<Rightarrow> string \<Rightarrow> ConversionOptions \<Rightarrow> string" where
  "convertAbsoluteToAlias e ip opts =
     aliasPrefix opts @ replace_backslashes (p_relative (node_path e) (baseDir opts) ip)"

definition convertAbsoluteToBare :: "env \<Rightarrow> string \<Rightarrow> string" where
  "convertAbsoluteToBare e ip = replace_backslashes (p_relative (node_path e) (CWD e) ip)"

definition convertAbsoluteToModule :: "env \<Rightarrow> string \<Rightarrow> ConversionOptions \<Rightarrow> string" where
  "convertAbsoluteToModule e ip opts =
     (let relativeToRoot = replace_backslashes (p_relative (node_path e) (CWD e) ip)
      in case matchLibraryImport e relativeToRoot (libsList opts) (currentLibName opts) of
           Some libName \<Rightarrow> if libName \<noteq> [] then libName else ip
         | None \<Rightarrow> ip)"

definition convertAbsoluteToRelative :: "env \<Rightarrow> string \<Rightarrow> ConversionOptions \<Rightarrow> string" where
  "convertAbsoluteToRelative e ip opts =
     (let relativePath = replace_backslashes
            (p_relative (node_path e) (p_dirname (node_path e) (sourceFile opts)) ip)
      in if \<not> startsWith relativePath ''.'' \<and> \<not> p_isAbsolute (node_path e) relativePath
         then ''./'' @ relativePath else relativePath)"

definition split_seps :: "string \<Rightarrow> string list" where
  \<comment> \<open>\<open>s.split(/[\\/]/)\<close>\<close>
  "split_seps s = split SLASH (replace_backslashes s)"

definition convertAliasToAbsolute :: "env \<Rightarrow> string \<Rightarrow> ConversionOptions \<Rightarrow> string" where
  "convertAliasToAbsolute e ip opts =
     (if \<not> startsWith ip (aliasPrefix opts) then ip
      else
        (let subPath = drop (length (aliasPrefix opts)) ip;
             absolutePath = p_resolve (node_path e) [baseDir opts, subPath];
             sourceFileRelativeToBase = p_relative (node_path e) (baseDir opts) (sourceFile opts)
         in if sourceFileRelativeToBase \<noteq> [] then
              (let sourceFileParts = split_seps sourceFileRelativeToBase;
                   newBaseDir = (p_dirname (node_path e) ^^ (length sourceFileParts - 1))
                                  (p_dirname (node_path e) (sourceFile opts));
                   relativeToBase = filter (\<lambda>x. x \<noteq> []) (split SLASH subPath)
               in p_resolve (node_path e) (newBaseDir # relativeToBase))
            else absolutePath))"

definition convertAliasToBare :: "env \<Rightarrow> string \<Rightarrow> ConversionOptions \<Rightarrow> string" where
  "convertAliasToBare e ip opts =
     (if \<not> startsWith ip (aliasPrefix opts) then ip
      else convertAbsoluteToBare e (convertAliasToAbsolute e ip opts))"

definition convertAliasToModule :: "env \<Rightarrow> string \<Rightarrow> ConversionOptions \<Rightarrow> string" where
  "convertAliasToModule e ip opts =
     (if \<not> startsWith ip (aliasPrefix opts) then ip
      else convertAbsoluteToModule e (convertAliasToAbsolute e ip opts) opts)"

definition convertAliasToRelative :: "env \<Rightarrow> string \<Rightarrow> ConversionOptions \<Rightarrow> string" where
  "convertAliasToRelative e ip opts =
     (if \<not> startsWith ip (aliasPrefix opts) then ip
      else convertAbsoluteToRelative e (convertAliasToAbsolute e ip opts) opts)"

definition libMainFile_of :: "(string \<times> LibConfigDeprecated) list \<Rightarrow> string option \<Rightarrow> string option" where
  \<comment> \<open>\<open>(packageName ? libsList[packageName] : undefined)?.libMainFile\<close> when truthy; a value
      inherited from \<open>Object.prototype\<close> has no \<open>libMainFile\<close>, as an absent one\<close>
  "libMainFile_of libs packageName =
     (case packageName of
        None \<Rightarrow> None
      | Some n \<Rightarrow> (case map_of libs n of
                     Some cfg \<Rightarrow> if libMainFile cfg \<noteq> [] then Some (libMainFile cfg) else None
                   | None \<Rightarrow> None))"

definition mapped_url :: "ConversionOptions \<Rightarrow> string \<Rightarrow> string option" where
  \<comment> \<open>\<open>url && opts.urlMap[url]\<close>: the local path when both are truthy\<close>
  "mapped_url opts ip =
     (case getBareImportUrl ip of None \<Rightarrow> None | Some url \<Rightarrow> truthy_lookup (urlMap opts) url)"

definition convertBareToAbsolute :: "env \<Rightarrow> string \<Rightarrow> ConversionOptions \<Rightarrow> string" where
  "convertBareToAbsolute e ip opts =
     (case mapped_url opts ip of
        Some localPath \<Rightarrow> p_resolve (node_path e) [CWD e, localPath]
      | None \<Rightarrow>
          (case libMainFile_of (libsList opts) (extractPackageName (Some ip)) of
             Some mainFile \<Rightarrow> p_resolve (node_path e) [CWD e, mainFile]
           | None \<Rightarrow> ip))"

definition convertBareToAlias :: "env \<Rightarrow> string \<Rightarrow> ConversionOptions \<Rightarrow> string" where
  "convertBareToAlias e ip opts =
     (let absolutePath = convertBareToAbsolute e ip opts
      in if absolutePath \<noteq> ip then convertAbsoluteToAlias e absolutePath opts else ip)"

definition convertBareToDynamic :: "string \<Rightarrow> string" where
  "convertBareToDynamic ip = ip"

definition convertBareToModule :: "env \<Rightarrow> string \<Rightarrow> ConversionOptions \<Rightarrow> string" where
  "convertBareToModule e ip opts =
     (case mapped_url opts ip of
        Some localPath \<Rightarrow>
          convertAbsoluteToModule e (p_resolve (node_path e) [CWD e, localPath]) opts
      | None \<Rightarrow>
          (case extractPackageName (Some ip) of
             Some packageName \<Rightarrow>
               if packageName \<noteq> [] \<and> has_property (libsList opts) packageName then packageName else ip
           | None \<Rightarrow> ip))"

definition convertBareToRelative :: "env \<Rightarrow> string \<Rightarrow> ConversionOptions \<Rightarrow> string" where
  "convertBareToRelative e ip opts =
     (let absolutePath = convertBareToAbsolute e ip opts
      in if absolutePath \<noteq> ip then convertAbsoluteToRelative e absolutePath opts else ip)"

definition convertDynamicToAbsolute :: "env \<Rightarrow> string \<Rightarrow> ConversionOptions \<Rightarrow> string" where
  "convertDynamicToAbsolute e ip opts =
     p_resolve (node_path e) [p_dirname (node_path e) (sourceFile opts), ip]"

definition convertDynamicToAlias :: "env \<Rightarrow> string \<Rightarrow> ConversionOptions \<Rightarrow> string" where
  "convertDynamicToAlias e ip opts = convertAbsoluteToAlias e (convertDynamicToAbsolute e ip opts) opts"

definition convertDynamicToBare :: "env \<Rightarrow> string \<Rightarrow> ConversionOptions \<Rightarrow> string" where
  "convertDynamicToBare e ip opts = convertAbsoluteToBare e (convertDynamicToAbsolute e ip opts)"

definition convertDynamicToModule :: "env \<Rightarrow> string \<Rightarrow> ConversionOptions \<Rightarrow> string" where
  "convertDynamicToModule e ip opts = convertAbsoluteToModule e (convertDynamicToAbsolute e ip opts) opts"

definition convertDynamicToRelative :: "env \<Rightarrow> string \<Rightarrow> ConversionOptions \<Rightarrow> string" where
  "convertDynamicToRelative e ip opts =
     convertAbsoluteToRelative e (convertDynamicToAbsolute e ip opts) opts"

definition convertModuleToAbsolute :: "env \<Rightarrow> string \<Rightarrow> ConversionOptions \<Rightarrow> string" where
  "convertModuleToAbsolute e ip opts =
     (case libMainFile_of (libsList opts) (extractPackageName (Some ip)) of
        None \<Rightarrow> ip
      | Some mainFile \<Rightarrow> p_dirname (node_path e) (p_resolve (node_path e) [CWD e, mainFile]))"

definition convertModuleToAlias :: "env \<Rightarrow> string \<Rightarrow> ConversionOptions \<Rightarrow> string" where
  "convertModuleToAlias e ip opts =
     (let absolutePath = convertModuleToAbsolute e ip opts
      in if absolutePath \<noteq> ip then convertAbsoluteToAlias e absolutePath opts else ip)"

definition convertModuleToBare :: "env \<Rightarrow> string \<Rightarrow> ConversionOptions \<Rightarrow> string" where
  "convertModuleToBare e ip opts =
     (let absolutePath = convertModuleToAbsolute e ip opts
      in if absolutePath \<noteq> ip then convertAbsoluteToBare e absolutePath else ip)"

definition convertModuleToRelative :: "env \<Rightarrow> string \<Rightarrow> ConversionOptions \<Rightarrow> string" where
  "convertModuleToRelative e ip opts =
     (let absolutePath = convertModuleToAbsolute e ip opts
      in if absolutePath \<noteq> ip then convertAbsoluteToRelative e absolutePath opts else ip)"

definition convertRelativeToAbsolute :: "env \<Rightarrow> string \<Rightarrow> ConversionOptions \<Rightarrow> string" where
  "convertRelativeToAbsolute e ip opts =
     p_resolve (node_path e) [p_dirname (node_path e) (sourceFile opts), ip]"

definition convertRelativeToAlias :: "env \<Rightarrow> string \<Rightarrow> ConversionOptions \<Rightarrow> string" where
  "convertRelativeToAlias e ip opts = convertAbsoluteToAlias e (convertRelativeToAbsolute e ip opts) opts"

definition convertRelativeToBare :: "env \<Rightarrow> string \<Rightarrow> ConversionOptions \<Rightarrow> string" where
  "convertRelativeToBare e ip opts = convertAbsoluteToBare e (convertRelativeToAbsolute e ip opts)"

definition convertRelativeToModule :: "env \<Rightarrow> string \<Rightarrow> ConversionOptions \<Rightarrow> string" where
  "convertRelativeToModule e ip opts = convertAbsoluteToModule e (convertRelativeToAbsolute e ip opts) opts"

type_synonym ConverterFunction = "env \<Rightarrow> string \<Rightarrow> ConversionOptions \<Rightarrow> string"

fun conversionMapping :: "ImportType \<Rightarrow> ImportType \<Rightarrow> ConverterFunction option" where
  \<comment> \<open>the table keyed by \<open>"fromType:toType"\<close>; a key that is not listed is \<open>undefined\<close>\<close>
  "conversionMapping Absolute Alias = Some convertAbsoluteToAlias"
| "conversionMapping Absolute Bare = Some (\<lambda>e ip opts. convertAbsoluteToBare e ip)"
| "conversionMapping Absolute Module = Some convertAbsoluteToModule"
| "conversionMapping Absolute Relative = Some convertAbsoluteToRelative"
| "conversionMapping Alias Absolute = Some convertAliasToAbsolute"
| "conversionMapping Alias Bare = Some convertAliasToBare"
| "conversionMapping Alias Module = Some convertAliasToModule"
| "conversionMapping Alias Relative = Some convertAliasToRelative"
| "conversionMapping Bare Absolute = Some convertBareToAbsolute"
| "conversionMapping Bare Alias = Some convertBareToAlias"
| "conversionMapping Bare Dynamic = Some (\<lambda>e ip opts. convertBareToDynamic ip)"
| "conversionMapping Bare Module = Some convertBareToModule"
| "conversionMapping Bare Relative = Some convertBareToRelative"
| "conversionMapping Dynamic Absolute = Some convertDynamicToAbsolute"
| "conversionMapping Dynamic Alias = Some convertDynamicToAlias"
| "conversionMapping Dynamic Bare = Some convertDynamicToBare"
| "conversionMapping Dynamic Module = Some convertDynamicToModule"
| "conversionMapping Dynamic Relative = Some convertDynamicToRelative"
| "conversionMapping Module Absolute = Some convertModuleToAbsolute"
| "conversionMapping Module Alias = Some convertModuleToAlias"
| "conversionMapping Module Bare = Some convertModuleToBare"
| "conversionMapping Module Relative = Some convertModuleToRelative"
| "conversionMapping Relative Absolute = Some convertRelativeToAbsolute"
| "conversionMapping Relative Alias = Some convertRelativeToAlias"
| "conversionMapping Relative Bare = Some convertRelativeToBare"
| "conversionMapping Relative Module = Some convertRelativeToModule"
| "conversionMapping _ _ = None"

record SingleImportOptions =
  \<comment> \<open>\<open>Omit<ConversionOptions, "aliasPrefix"> & { aliasPrefix?: string }\<close>\<close>
  so_aliasPrefix :: "string option"
  so_baseDir :: string
  so_currentLibName :: "string option"
  so_libsList :: "(string \<times> LibConfigDeprecated) list"
  so_sourceFile :: string
  so_urlMap :: "(string \<times> string) list"
  so_strip :: "string list"

fun leading_dot_runs :: "string \<Rightarrow> string" where
  \<comment> \<open>\<open>/^((\.\.\/|\.\/)+)/.exec(s)\<close>: the matched text, or the empty string\<close>
  "leading_dot_runs (a # b # c # r) =
     (if a = DOT \<and> b = DOT \<and> c = SLASH then a # b # c # leading_dot_runs r
      else if a = DOT \<and> b = SLASH then a # b # leading_dot_runs (c # r)
      else [])"
| "leading_dot_runs [a, b] = (if a = DOT \<and> b = SLASH then [a, b] else [])"
| "leading_dot_runs _ = []"

definition strip_step :: "string \<Rightarrow> string \<Rightarrow> string" where
  \<comment> \<open>the body of \<open>for (const stripSegment of fullOptions.strip)\<close>\<close>
  "strip_step processedPath stripSegment =
     (let normalizedStripSegment =
            (if endsWith stripSegment [SLASH] then stripSegment else stripSegment @ [SLASH]);
          leading = leading_dot_runs processedPath;
          afterLeading = drop (length leading) processedPath
      in if startsWith afterLeading normalizedStripSegment
         then leading @ drop (length normalizedStripSegment) afterLeading
         else processedPath)"

definition convertSingleImportPath ::
  "env \<Rightarrow> ImportType \<Rightarrow> ImportType \<Rightarrow> string \<Rightarrow> SingleImportOptions \<Rightarrow> string" where
  "convertSingleImportPath e fromType toType importPath options =
     (let fullOptions =
            \<lparr>aliasPrefix = (case so_aliasPrefix options of None \<Rightarrow> ''~/'' | Some a \<Rightarrow> a),
             baseDir = so_baseDir options, currentLibName = so_currentLibName options,
             libsList = so_libsList options, sourceFile = so_sourceFile options,
             urlMap = so_urlMap options, strip = so_strip options\<rparr>;
          P = node_path e
      in case conversionMapping fromType toType of
           None \<Rightarrow> importPath
         | Some converter \<Rightarrow>
             (let convertedPath = converter e importPath fullOptions
              in if length (strip fullOptions) > 0 \<and> convertedPath \<noteq> importPath
                    \<and> sourceFile fullOptions \<noteq> [] then
                   (let importingFileDir = p_dirname P (sourceFile fullOptions);
                        sourceTreeTarget = p_resolve P [baseDir fullOptions,
                                             drop (length (aliasPrefix fullOptions)) importPath];
                        importingFileRelativeToBase =
                          p_relative P (baseDir fullOptions) (sourceFile fullOptions);
                        targetFileRelativeToBase = p_relative P (baseDir fullOptions) sourceTreeTarget
                    in if fromType = Alias \<and> baseDir fullOptions \<noteq> []
                          \<and> importingFileRelativeToBase \<noteq> [] \<and> targetFileRelativeToBase \<noteq> [] then
                         (let importingFileParts = split_seps importingFileRelativeToBase;
                              newBaseDir = (p_dirname P ^^ (length importingFileParts - 1))
                                             (p_dirname P (sourceFile fullOptions));
                              newTargetLocation =
                                p_join P [newBaseDir, p_basename P targetFileRelativeToBase];
                              processedPath =
                                replace_backslashes (p_relative P importingFileDir newTargetLocation)
                          in if \<not> startsWith processedPath ''.'' then ''./'' @ processedPath
                             else processedPath)
                       else
                         (let processedPath = foldl strip_step convertedPath (strip fullOptions);
                              preStripAbsoluteTarget = p_resolve P [importingFileDir, convertedPath];
                              postStripAbsoluteTarget = p_resolve P [importingFileDir, processedPath]
                          in if p_normalize P preStripAbsoluteTarget \<noteq> p_normalize P postStripAbsoluteTarget
                             then
                               (let processedPath =
                                      replace_backslashes
                                        (p_relative P importingFileDir preStripAbsoluteTarget)
                                in if \<not> startsWith processedPath ''.'' then ''./'' @ processedPath
                                   else processedPath)
                             else processedPath))
                 else convertedPath))"

definition example_options :: "string \<Rightarrow> string \<Rightarrow> SingleImportOptions" where
  \<comment> \<open>a run with alias prefix \<open>~/\<close>, the given base directory and importing file, nothing else\<close>
  "example_options base file =
     \<lparr>so_aliasPrefix = Some ''~/'', so_baseDir = base, so_currentLibName = None, so_libsList = [],
      so_sourceFile = file, so_urlMap = [], so_strip = []\<rparr>"

section \<open>The tree rewriter\<close>

text \<open>
  The file system is a tree; every call that touches it is recorded in a log, so that
  ``no file is read or modified'' is a statement about the world returned.  A broken file or
  directory is one whose reading fails with the given message.  The rewriting of one file's
  text (\<open>transformImportPathsLogic\<close>, which drives \<open>convertSingleImportPath\<close> from
  regular-expression matches and edits a \<open>MagicString\<close>) and the rendering of a source map
  are parameters of the model; files of one directory are processed in order.
\<close>

datatype fs_node =
    File string
  | Dir "(string \<times> fs_node) list"
  | BrokenFile string
  | BrokenDir string

datatype io_event =
    EvStat string
  | EvReaddir string
  | EvReadFile string
  | EvWriteFile string string

record world =
  fs_root :: fs_node
  io_log :: "io_event list"

record FileResult =
  filePath :: string
  message :: string
  success :: bool

record ConvertImportPathsOptions =
  o_baseDir :: string
  o_fromType :: ImportType
  o_toType :: ImportType
  o_libsList :: "(string \<times> LibConfigDeprecated) list"
  o_aliasPrefix :: "string option"
  o_currentLibName :: "string option"
  o_distJsrDryRun :: "bool option"
  o_fileExtensions :: "string list option"
  o_generateSourceMap :: "bool option"
  o_strip :: "string list option"
  o_urlMap :: "(string \<times> string) list option"

record rewriter =
  rw_logic :: "ImportType \<Rightarrow> ImportType \<Rightarrow> SingleImportOptions \<Rightarrow> string \<Rightarrow> bool \<times> string"
    \<comment> \<open>\<open>changesMade\<close> and \<open>s.toString()\<close> for a file's content\<close>
  rw_map :: "string \<Rightarrow> string \<Rightarrow> string \<Rightarrow> string"
    \<comment> \<open>the text of \<open>s.generateMap(...)\<close> from the file's base name, old and new content\<close>

fun fs_lookup :: "fs_node \<Rightarrow> string list \<Rightarrow> fs_node option" where
  "fs_lookup n [] = Some n"
| "fs_lookup (Dir es) (x # xs) = (case map_of es x of Some c \<Rightarrow> fs_lookup c xs | None \<Rightarrow> None)"
| "fs_lookup _ (x # xs) = None"

definition DEFAULT_FILE_EXTENSIONS :: "string list" where
  "DEFAULT_FILE_EXTENSIONS = [''.ts'', ''.tsx'', ''.js'', ''.jsx'']"

definition set_add :: "string list \<Rightarrow> string \<Rightarrow> string list" where
  \<comment> \<open>\<open>Set.prototype.add\<close> on a set kept in insertion order\<close>
  "set_add xs x = (if x \<in> set xs then xs else xs @ [x])"

fun collapse_double_slash :: "string \<Rightarrow> string" where
  \<comment> \<open>\<open>s.replace(/\/\//g, "/")\<close>\<close>
  "collapse_double_slash (a # b # r) =
     (if a = SLASH \<and> b = SLASH then SLASH # collapse_double_slash r
      else a # collapse_double_slash (b # r))"
| "collapse_double_slash s = s"

definition usable_segment :: "string \<Rightarrow> bool" where
  \<comment> \<open>\<open>x && x !== "." && !x.startsWith("..") && x !== "/"\<close>\<close>
  "usable_segment x \<longleftrightarrow> x \<noteq> [] \<and> x \<noteq> ''.'' \<and> \<not> startsWith x ''..'' \<and> x \<noteq> ''/''"

definition ancestorDirForRelativePath :: "env \<Rightarrow> string \<Rightarrow> string" where
  "ancestorDirForRelativePath e baseDir' =
     (let dn = p_dirname (node_path e);
          parentDir = dn baseDir'
      in if parentDir \<noteq> baseDir' \<and> parentDir \<noteq> dn parentDir then
           (let grandParentDir = dn parentDir
            in if grandParentDir \<noteq> parentDir \<and> grandParentDir \<noteq> dn grandParentDir then
                 (let greatGrandParentDir = dn grandParentDir
                  in if greatGrandParentDir \<noteq> grandParentDir
                        \<and> greatGrandParentDir \<noteq> dn greatGrandParentDir
                     then greatGrandParentDir else grandParentDir)
               else parentDir)
         else if baseDir' \<noteq> CWD e then (if parentDir \<noteq> baseDir' then parentDir else CWD e)
         else CWD e)"

definition strip_pattern_step :: "string list \<Rightarrow> string \<Rightarrow> string list" where
  \<comment> \<open>the body of \<open>for (const segment of derivedAliasPathSegments)\<close>\<close>
  "strip_pattern_step autoStripPatterns segment =
     (if segment = [] then autoStripPatterns
      else
        (let pattern = replace_backslashes segment;
             pattern = (if \<not> endsWith pattern [SLASH] then pattern @ [SLASH] else pattern);
             pattern = collapse_double_slash pattern
         in if pattern \<noteq> [] \<and> pattern \<noteq> ''/'' \<and> pattern \<noteq> ''./'' \<and> length pattern > 1
            then set_add autoStripPatterns pattern else autoStripPatterns))"

definition determine_strip :: "env \<Rightarrow> ImportType \<Rightarrow> string \<Rightarrow> string list option \<Rightarrow> string list" where
  "determine_strip e fromType baseDir' userProvidedStrip =
     (let strip0 = (case userProvidedStrip of Some u \<Rightarrow> u | None \<Rightarrow> [])
      in if fromType = Alias then
           (let autoStripPatterns = foldl set_add [] strip0;
                structuralPath = replace_backslashes
                   (p_relative (node_path e) (ancestorDirForRelativePath e baseDir') baseDir');
                derived = (if usable_segment structuralPath then [structuralPath] else []);
                baseDirName = p_basename (node_path e) baseDir';
                derived = (if usable_segment baseDirName
                           then set_add derived (replace_backslashes baseDirName) else derived);
                pathFromCwd = replace_backslashes (p_relative (node_path e) (CWD e) baseDir');
                derived = (if length derived = 0 \<and> baseDir' \<noteq> CWD e \<and> usable_segment pathFromCwd
                           then set_add derived pathFromCwd else derived)
            in foldl strip_pattern_step autoStripPatterns derived)
         else strip0)"

record walk_ctx =
  wc_env :: env
  wc_rewriter :: rewriter
  wc_fromType :: ImportType
  wc_toType :: ImportType
  wc_options :: SingleImportOptions  \<comment> \<open>the conversion arguments; \<open>sourceFile\<close> is set per file\<close>
  wc_fileExtensions :: "string list"
  wc_distJsrDryRun :: bool
  wc_generateSourceMap :: bool

definition is_dir_node :: "fs_node \<Rightarrow> bool" where
  "is_dir_node n = (case n of Dir _ \<Rightarrow> True | BrokenDir _ \<Rightarrow> True | _ \<Rightarrow> False)"

definition upsert :: "(string \<times> fs_node) list \<Rightarrow> string \<Rightarrow> fs_node \<Rightarrow> (string \<times> fs_node) list" where
  "upsert es k n =
     (if k \<in> fst ` set es then map (\<lambda>(k', n'). if k' = k then (k', n) else (k', n')) es
      else es @ [(k, n)])"

definition processFileContent ::
  "walk_ctx \<Rightarrow> string \<Rightarrow> string \<Rightarrow> (string \<times> fs_node) list
     \<Rightarrow> FileResult \<times> (string \<times> fs_node) list \<times> io_event list" where
  \<comment> \<open>\<open>filePath\<close> is the entry \<open>name\<close> of the directory listing \<open>es\<close>\<close>
  "processFileContent c filePath' name es =
     (let base = p_basename (node_path (wc_env c)) filePath' in
      case map_of es name of
        Some (File originalContent) \<Rightarrow>
          (let (changesMade, newContent) =
                 rw_logic (wc_rewriter c) (wc_fromType c) (wc_toType c)
                   ((wc_options c)\<lparr>so_sourceFile := filePath'\<rparr>) originalContent
           in if \<not> changesMade then
                (\<lparr>filePath = filePath', message = ''No matching import paths found'', success = True\<rparr>,
                 es, [EvReadFile filePath'])
              else if originalContent = newContent then
                (\<lparr>filePath = filePath', message = ''No effective changes for '' @ base, success = True\<rparr>,
                 es, [EvReadFile filePath'])
              else
                (let mapText = rw_map (wc_rewriter c) base originalContent newContent;
                     msg = ''Processed '' @ base
                           @ (if wc_distJsrDryRun c then '' (dry run)'' else [])
                           @ (if wc_generateSourceMap c then '' + sourcemap'' else [])
                 in if wc_distJsrDryRun c then
                      (\<lparr>filePath = filePath', message = msg, success = True\<rparr>, es, [EvReadFile filePath'])
                    else if \<not> wc_generateSourceMap c then
                      (\<lparr>filePath = filePath', message = msg, success = True\<rparr>,
                       upsert es name (File newContent),
                       [EvReadFile filePath', EvWriteFile filePath' newContent])
                    else if (case map_of es (name @ ''.map'') of Some n \<Rightarrow> is_dir_node n | None \<Rightarrow> False)
                    then
                      (\<lparr>filePath = filePath',
                        message = ''Error processing file '' @ filePath'
                                  @ '': EISDIR: illegal operation on a directory'',
                        success = False\<rparr>,
                       upsert es name (File newContent),
                       [EvReadFile filePath', EvWriteFile filePath' newContent,
                        EvWriteFile (filePath' @ ''.map'') mapText])
                    else
                      (\<lparr>filePath = filePath', message = msg, success = True\<rparr>,
                       upsert (upsert es name (File newContent)) (name @ ''.map'') (File mapText),
                       [EvReadFile filePath', EvWriteFile filePath' newContent,
                        EvWriteFile (filePath' @ ''.map'') mapText])))
      | Some (BrokenFile err) \<Rightarrow>
          (\<lparr>filePath = filePath', message = ''Error processing file '' @ filePath' @ '': '' @ err,
            success = False\<rparr>, es, [EvReadFile filePath'])
      | _ \<Rightarrow>
          (\<lparr>filePath = filePath',
            message = ''Error processing file '' @ filePath' @ '': ENOENT: no such file or directory'',
            success = False\<rparr>, es, [EvReadFile filePath']))"

definition is_file_to_process :: "walk_ctx \<Rightarrow> string \<times> fs_node \<Rightarrow> bool" where
  \<comment> \<open>\<open>entry.isFile() && fileExtensions.some((ext) => entry.name.endsWith(ext))\<close>\<close>
  "is_file_to_process c entry =
     ((case snd entry of File _ \<Rightarrow> True | BrokenFile _ \<Rightarrow> True | _ \<Rightarrow> False)
      \<and> list_ex (\<lambda>ext. endsWith (fst entry) ext) (wc_fileExtensions c))"

definition is_directory_to_recurse :: "string \<times> fs_node \<Rightarrow> bool" where
  \<comment> \<open>\<open>entry.isDirectory() && entry.name !== "node_modules" && !entry.name.startsWith(".")\<close>\<close>
  "is_directory_to_recurse entry =
     (is_dir_node (snd entry) \<and> fst entry \<noteq> ''node_modules'' \<and> \<not> startsWith (fst entry) ''.'')"

definition process_files ::
  "walk_ctx \<Rightarrow> string \<Rightarrow> (string \<times> fs_node) list
     \<Rightarrow> FileResult list \<times> (string \<times> fs_node) list \<times> io_event list" where
  \<comment> \<open>\<open>pMap(filesToProcess, fileProcessor)\<close>: results in the order of the listing\<close>
  "process_files c dirPath es =
     foldl (\<lambda>(rs, es', evs) entry.
              let (r, es'', ev) =
                    processFileContent c (p_join (node_path (wc_env c)) [dirPath, fst entry]) (fst entry) es'
              in (rs @ [r], es'', evs @ ev))
       ([], es, []) (filter (is_file_to_process c) es)"

fun processDirectoryRecursively ::
      "walk_ctx \<Rightarrow> string \<Rightarrow> fs_node \<Rightarrow> FileResult list \<times> fs_node \<times> io_event list"
  and recurse_directories ::
      "walk_ctx \<Rightarrow> string \<Rightarrow> (string \<times> fs_node) list
         \<Rightarrow> FileResult list \<times> (string \<times> fs_node) list \<times> io_event list" where
  "processDirectoryRecursively c dirPath (Dir es) =
     (let (fileResults, es1, ev1) = process_files c dirPath es;
          (subDirResults, subdirs, ev2) = recurse_directories c dirPath es
      in (fileResults @ subDirResults,
          Dir (foldl (\<lambda>acc (k, n). upsert acc k n) es1 subdirs),
          EvReaddir dirPath # ev1 @ ev2))"
| "processDirectoryRecursively c dirPath n = ([], n, [EvReaddir dirPath])"
| "recurse_directories c dirPath [] = ([], [], [])"
| "recurse_directories c dirPath ((name, n) # rest) =
     (if is_directory_to_recurse (name, n) then
        (let (r1, n', ev1) =
               processDirectoryRecursively c (p_join (node_path (wc_env c)) [dirPath, name]) n;
             (r2, ns, ev2) = recurse_directories c dirPath rest
         in (r1 @ r2, (name, n') # ns, ev1 @ ev2))
      else recurse_directories c dirPath rest)"

fun fs_replace :: "fs_node \<Rightarrow> string list \<Rightarrow> fs_node \<Rightarrow> fs_node" where
  \<comment> \<open>the tree with the node at a path replaced\<close>
  "fs_replace n [] new = new"
| "fs_replace (Dir es) (x # xs) new =
     Dir (map (\<lambda>(k, c). if k = x then (k, fs_replace c xs new) else (k, c)) es)"
| "fs_replace n (x # xs) new = n"

definition falsy :: "string option \<Rightarrow> bool" where
  \<comment> \<open>\<open>!x\<close> for an optional string\<close>
  "falsy x \<longleftrightarrow> x = None \<or> x = Some []"

definition convertImportPaths ::
  "env \<Rightarrow> rewriter \<Rightarrow> ConvertImportPathsOptions \<Rightarrow> world \<Rightarrow> (js_error + FileResult list) \<times> world" where
  "convertImportPaths e rw options w =
     (let rawBaseDir = o_baseDir options; rawAliasPrefix = o_aliasPrefix options in
      if rawBaseDir = [] then (Inl (Error ''`baseDir` option is required.''), w)
      else
        (let baseDir' = p_resolve (node_path e) [CWD e, rawBaseDir] in
         if (o_fromType options = Alias \<or> o_toType options = Alias) \<and> falsy rawAliasPrefix then
           (Inl (Error ''aliasPrefix is required for alias path conversions''), w)
         else
           (let w1 = w\<lparr>io_log := io_log w @ [EvStat baseDir']\<rparr> in
            case fs_lookup (fs_root w) (segments_of baseDir') of
              None \<Rightarrow> (Inl (Error (''Specified baseDir does not exist: '' @ baseDir')), w1)
            | Some n \<Rightarrow>
                if \<not> is_dir_node n then
                  (Inl (Error (''Specified baseDir is not a directory: '' @ baseDir')), w1)
                else
                  (let c = \<lparr>wc_env = e, wc_rewriter = rw, wc_fromType = o_fromType options,
                            wc_toType = o_toType options,
                            wc_options =
                              \<lparr>so_aliasPrefix = rawAliasPrefix, so_baseDir = baseDir',
                               so_currentLibName = o_currentLibName options,
                               so_libsList = o_libsList options, so_sourceFile = [],
                               so_urlMap = (case o_urlMap options of Some m \<Rightarrow> m | None \<Rightarrow> []),
                               so_strip = determine_strip e (o_fromType options) baseDir'
                                            (o_strip options)\<rparr>,
                            wc_fileExtensions =
                              (case o_fileExtensions options of Some x \<Rightarrow> x
                               | None \<Rightarrow> DEFAULT_FILE_EXTENSIONS),
                            wc_distJsrDryRun =
                              (case o_distJsrDryRun options of Some b \<Rightarrow> b | None \<Rightarrow> False),
                            wc_generateSourceMap =
                              (case o_generateSourceMap options of Some b \<Rightarrow> b | None \<Rightarrow> False)\<rparr>;
                       (results, n', evs) = processDirectoryRecursively c baseDir' n
                   in (Inr results,
                       \<lparr>fs_root = fs_replace (fs_root w) (segments_of baseDir') n',
                        io_log = io_log w1 @ evs\<rparr>)))))"

definition identity_rewriter :: rewriter where
  \<comment> \<open>a rewriter that never changes a file\<close>
  "identity_rewriter = \<lparr>rw_logic = (\<lambda>f t so content. (False, content)), rw_map = (\<lambda>b old new. [])\<rparr>"

definition example_world :: world where
  \<comment> \<open>the directory \<open>/proj\<close> holding \<open>a.ts\<close>, with an empty log\<close>
  "example_world =
     \<lparr>fs_root = Dir [(''proj'', Dir [(''a.ts'', File ''import foo from \"~/foo\";'')])], io_log = []\<rparr>"

definition example_run :: "ImportType \<Rightarrow> ImportType \<Rightarrow> string option \<Rightarrow> ConvertImportPathsOptions" where
  "example_run f t ap =
     \<lparr>o_baseDir = ''/proj'', o_fromType = f, o_toType = t, o_libsList = [], o_aliasPrefix = ap,
      o_currentLibName = None, o_distJsrDryRun = None, o_fileExtensions = None,
      o_generateSourceMap = None, o_strip = None, o_urlMap = None\<rparr>"


definition table1 :: heap where
  \<comment> \<open>a heap holding the raw table \<open>{ "@": "./src" }\<close> at address \<open>0\<close>\<close>
  "table1 = [\<lparr>entries = [(''@'', ''./src'')], normalizedAlias = False\<rparr>]"

section \<open>Segments of a path\<close>

text \<open>
  Auxiliary notions for reasoning about \<open>normalizeString\<close> and \<open>resolve\<close>; none of them is
  code of the library.  A path is read as its list of non-empty pieces between slashes;
  \<open>collapse\<close> runs over the pieces with a stack, dropping \<open>.\<close> and popping at \<open>..\<close>.
  \<open>step_char\<close>, \<open>dots_of\<close>, \<open>good_stack\<close> and \<open>sim\<close> relate the state of the character loop
  of \<open>normalizeString\<close> (without \<open>allowAboveRoot\<close>) to that stack; \<open>prefix_of\<close> is the string
  that the loop of \<open>resolve\<close> has accumulated for one argument under an absolute working
  directory, and \<open>fin\<close> the final test of \<open>resolve\<close> that puts a slash in front.
\<close>

definition collapse_piece :: "string list \<Rightarrow> string \<Rightarrow> string list" where
  "collapse_piece stack piece =
     (if piece = [] \<or> piece = [DOT] then stack
      else if piece = [DOT, DOT] then butlast stack
      else stack @ [piece])"

definition segs :: "string \<Rightarrow> string list" where
  "segs p = filter (\<lambda>x. x \<noteq> []) (split SLASH p)"

definition collapse :: "string list \<Rightarrow> string list" where
  "collapse ss = foldl collapse_piece [] ss"

definition step_char :: "string list \<times> string \<Rightarrow> char \<Rightarrow> string list \<times> string" where
  "step_char sc ch = (if ch = SLASH then (collapse_piece (fst sc) (snd sc), []) else (fst sc, snd sc @ [ch]))"

definition dots_of :: "string \<Rightarrow> int" where
  "dots_of cur = (if \<forall>c \<in> set cur. c = DOT then int (length cur) else -1)"

definition good_stack :: "string list \<Rightarrow> bool" where
  "good_stack stack \<longleftrightarrow> (\<forall>s \<in> set stack. s \<noteq> [] \<and> SLASH \<notin> set s \<and> s \<noteq> [DOT, DOT])"

definition sim :: "string \<Rightarrow> nat \<Rightarrow> ns_state \<Rightarrow> string list \<times> string \<Rightarrow> bool" where
  "sim q n st sc \<longleftrightarrow>
     lastSlash st = int n - 1 - int (length (snd sc))
     \<and> dots st = dots_of (snd sc)
     \<and> res st = joinWith [SLASH] (fst sc)
     \<and> lastSegmentLength st = (if fst sc = [] then 0 else int (length (last (fst sc))))
     \<and> good_stack (fst sc)
     \<and> SLASH \<notin> set (snd sc)
     \<and> length (snd sc) \<le> n
     \<and> snd sc = slice q (n - length (snd sc)) n"

definition clean :: "string list \<Rightarrow> bool" where
  "clean ss \<longleftrightarrow> (\<forall>s \<in> set ss. s \<noteq> [] \<and> SLASH \<notin> set s \<and> s \<noteq> [DOT] \<and> s \<noteq> [DOT, DOT])"

definition fin :: "string \<Rightarrow> string" where
  "fin r = (if IS_ABSOLUTE_RE r then r else SLASH # r)"

definition prefix_of :: "string \<Rightarrow> string \<Rightarrow> string" where
  "prefix_of c x =
     (if x = [] then normalizeWindowsPath c @ [SLASH]
      else if IS_ABSOLUTE_RE (normalizeWindowsPath x) then normalizeWindowsPath x @ [SLASH]
      else normalizeWindowsPath c @ SLASH # normalizeWindowsPath x @ [SLASH])"

section \<open>Properties\<close>

subsection \<open>C7: idempotence of normalize\<close>

text \<open>
  C7. The specification states that \<open>normalize\<close> is idempotent on every string.
  The code upper-cases a drive letter only when it is followed by a slash
  (\<open>DRIVE_LETTER_START_RE\<close> in \<open>normalizeWindowsPath\<close>), while \<open>normalize\<close>
  appends the slash to a lone drive letter after that step.  So the lone lower-case drive
  \<open>c:\<close> normalizes to \<open>c:/\<close>, and normalizing that once more gives \<open>C:/\<close>:
  idempotence fails at this input.
\<close>

theorem normalize_lone_drive_not_idempotent:
  "normalize ''c:'' = ''c:/'' \<and> normalize (normalize ''c:'') = ''C:/''
   \<and> normalize (normalize ''c:'') \<noteq> normalize ''c:''"
  by code_simp

subsection \<open>Alias tables: C5, C9, C10\<close>

lemma resolve_nested_step_length:
  "length (resolve_nested_step n key h p) = length h"
  by (simp add: resolve_nested_step_def split: option.splits)

lemma resolve_nested_step_other:
  "b \<noteq> n \<Longrightarrow> resolve_nested_step n key h p ! b = h ! b"
  by (simp add: resolve_nested_step_def split: option.splits)

lemma resolve_nested_inner:
  "length (foldl (resolve_nested_step n key) h ks) = length h
   \<and> (b \<noteq> n \<longrightarrow> foldl (resolve_nested_step n key) h ks ! b = h ! b)"
  by (induction ks arbitrary: h)
     (simp_all add: resolve_nested_step_length resolve_nested_step_other)

lemma resolve_nested_outer:
  "length (foldl (\<lambda>h key. foldl (resolve_nested_step n key) h ks) h ks') = length h
   \<and> (b \<noteq> n \<longrightarrow> foldl (\<lambda>h key. foldl (resolve_nested_step n key) h ks) h ks' ! b = h ! b)"
  by (induction ks' arbitrary: h) (simp_all add: resolve_nested_inner)

lemma normalizeAliases_flagged:
  "normalizedAlias (h ! aliases) \<Longrightarrow> normalizeAliases h aliases = (h, aliases)"
  by (simp add: normalizeAliases_def)

lemma normalizeAliases_raw:
  assumes "\<not> normalizedAlias (h ! aliases)" and "normalizeAliases h aliases = (h', r)"
  shows "length h' = length h + 2" and "r = Suc (length h)"
    and "normalizedAlias (h' ! r)" and "take (length h) h' = h"
proof -
  let ?n = "length h"
  let ?h1 = "h @ [\<lparr>entries = fromEntries (sort_key (\<lambda>(a, v). compareAliases_key a)
                 (map (\<lambda>(key, value). (normalizeWindowsPath key, normalizeWindowsPath value))
                    (entries (h ! aliases)))), normalizedAlias = False\<rparr>]"
  let ?keys = "map fst (entries (?h1 ! ?n))"
  let ?h2 = "foldl (\<lambda>h key. foldl (resolve_nested_step ?n key) h ?keys) ?h1 ?keys"
  have len2: "length ?h2 = Suc ?n"
    using resolve_nested_outer[of ?n ?keys ?h1 ?keys] by simp
  have old: "\<And>b. b < ?n \<Longrightarrow> ?h2 ! b = h ! b"
    using resolve_nested_outer[of ?n ?keys ?h1 ?keys] by (simp add: nth_append)
  have h': "h' = ?h2 @ [\<lparr>entries = fromEntries (entries (?h2 ! ?n)), normalizedAlias = True\<rparr>]"
    and r: "r = length ?h2"
    using assms by (simp_all add: normalizeAliases_def Let_def)
  show "length h' = length h + 2" using h' len2 by simp
  show "r = Suc (length h)" using r len2 by simp
  show "normalizedAlias (h' ! r)" using h' r by simp
  show "take (length h) h' = h"
  proof (rule nth_equalityI)
    show "length (take (length h) h') = length h" using h' len2 by simp
  next
    fix i assume "i < length (take (length h) h')"
    then have i: "i < ?n" by simp
    then have "take ?n h' ! i = h' ! i" by simp
    also have "\<dots> = ?h2 ! i" using h' len2 i by (simp add: nth_append)
    also have "\<dots> = h ! i" using old i by simp
    finally show "take (length h) h' ! i = h ! i" .
  qed
qed

lemma table1_normalized:
  "normalizeAliases table1 0 =
    ([\<lparr>entries = [(''@'', ''./src'')], normalizedAlias = False\<rparr>,
      \<lparr>entries = [(''@'', ''./src'')], normalizedAlias = False\<rparr>,
      \<lparr>entries = [(''@'', ''./src'')], normalizedAlias = True\<rparr>], 2)"
  unfolding table1_def by code_simp






text \<open>
  C9.  \<open>normalizeAliases\<close> is idempotent: normalizing the result of a normalization returns
  the same reference and leaves the heap as it is; and a table that already carries the
  marker is returned as it is, with nothing allocated or changed.
\<close>

theorem normalizeAliases_idempotent:
  "(case normalizeAliases h aliases of (h1, r1) \<Rightarrow> normalizeAliases h1 r1 = (h1, r1))
   \<and> (normalizedAlias (h ! aliases) \<longrightarrow> normalizeAliases h aliases = (h, aliases))"
proof (cases "normalizedAlias (h ! aliases)")
  case True
  then show ?thesis by (simp add: normalizeAliases_flagged)
next
  case False
  obtain h1 r1 where eq: "normalizeAliases h aliases = (h1, r1)" by (cases "normalizeAliases h aliases")
  from normalizeAliases_raw(3)[OF False eq] have "normalizeAliases h1 r1 = (h1, r1)"
    by (rule normalizeAliases_flagged)
  with eq False show ?thesis by simp
qed

theorem normalizeAliases_idempotent_witness:
  "normalizeAliases (fst (normalizeAliases table1 0)) (snd (normalizeAliases table1 0))
     = (fst (normalizeAliases table1 0), snd (normalizeAliases table1 0))
   \<and> snd (normalizeAliases table1 0) = 2"
proof -
  have s: "snd (normalizeAliases table1 0) = 2" by (simp add: table1_normalized)
  have "normalizeAliases (fst (normalizeAliases table1 0)) (snd (normalizeAliases table1 0))
        = (fst (normalizeAliases table1 0), snd (normalizeAliases table1 0))"
    using normalizeAliases_idempotent[of table1 0] by (simp add: case_prod_beta)
  with s show ?thesis by simp
qed

text \<open>
  C10.  \<open>normalizeAliases\<close> never mutates its argument: after the call the object at the
  argument's address, and every other object that existed before the call, is what it was;
  and for a raw table (one without the marker) the result is a new address, beyond every
  address of the old heap, holding an object with the marker.
\<close>

theorem normalizeAliases_frame:
  assumes "aliases < length h" and "normalizeAliases h aliases = (h', r)"
  shows "h' ! aliases = h ! aliases \<and> take (length h) h' = h
         \<and> (\<not> normalizedAlias (h ! aliases) \<longrightarrow>
               length h \<le> r \<and> r < length h' \<and> normalizedAlias (h' ! r))"
proof (cases "normalizedAlias (h ! aliases)")
  case True
  with assms show ?thesis by (simp add: normalizeAliases_flagged)
next
  case False
  note raw = normalizeAliases_raw[OF False assms(2)]
  have "h' ! aliases = take (length h) h' ! aliases" using assms(1) by simp
  then have "h' ! aliases = h ! aliases" using raw(4) by simp
  with raw False show ?thesis by simp
qed

theorem normalizeAliases_frame_witness:
  "(0::nat) < length table1 \<and> fst (normalizeAliases table1 0) ! 0 = table1 ! 0
   \<and> length table1 \<le> snd (normalizeAliases table1 0)"
proof -
  have l: "(0::nat) < length table1" by (simp add: table1_def)
  have f: "\<not> normalizedAlias (table1 ! 0)" by (simp add: table1_def)
  have e: "normalizeAliases table1 0 = (fst (normalizeAliases table1 0), snd (normalizeAliases table1 0))"
    by simp
  from normalizeAliases_frame[OF l e] f l show ?thesis by simp
qed

subsection \<open>C1: the classifier\<close>



lemma startsWith_one: "startsWith p [c] \<longleftrightarrow> p \<noteq> [] \<and> hd p = c"
  by (cases p) (simp_all add: startsWith_def)








subsection \<open>C6: non-string arguments\<close>

lemma join_loop_non_string:
  "typeof v \<noteq> ''string'' \<Longrightarrow>
   join_loop (pre @ v # post) joined = Inl (TypeError ''Arguments to path.join must be strings'')"
proof (induction pre arbitrary: joined)
  case Nil
  then show ?case by (cases v) simp_all
next
  case (Cons a pre)
  then show ?case by (cases a) simp_all
qed

lemma resolve_loop_js_strings:
  "resolve_loop_js (map JString ps) rp ra = Inr (resolve_loop ps rp ra)"
  by (induction ps arbitrary: rp ra) (simp_all add: Let_def)

lemma resolve_js_strings: "resolve_js pcwd (map JString args) = Inr (resolve pcwd args)"
proof -
  have e: "resolve_loop_js (rev (map JString args) @ [JString (cwd pcwd)]) [] False
           = Inr (resolve_loop (rev args @ [cwd pcwd]) [] False)"
    using resolve_loop_js_strings[of "rev args @ [cwd pcwd]" "[]" False] by (simp add: rev_map)
  show ?thesis
    unfolding resolve_js_def resolve_def e by (simp add: Let_def split: prod.splits)
qed

lemma join_loop_strings:
  "join_loop (map JString ss) joined =
     Inr (foldl (\<lambda>joined segment.
                   if length segment > 0 then
                     (if length joined = 0 then segment else joined @ SLASH # segment)
                   else joined) joined ss)"
  by (induction ss arbitrary: joined) simp_all

lemma join_js_strings: "join_js (map JString ss) = Inr (join ss)"
  by (simp add: join_js_def join_def join_loop_strings Let_def)

lemma relative_js_strings:
  "relative_js pcwd (JString from) (JString to) = Inr (relative pcwd from to)"
  using resolve_js_strings[of pcwd "[from]"] resolve_js_strings[of pcwd "[to]"]
  by (simp add: relative_js_def relative_def)

lemma format_js_strings:
  "format_js number_text (JObject (map (\<lambda>(k, v). (k, PString v)) ps))
     = Inr (PString (format \<lparr>fi_root = map_of ps ''root'', fi_dir = map_of ps ''dir'',
                              fi_base = map_of ps ''base'', fi_ext = map_of ps ''ext'',
                              fi_name = map_of ps ''name''\<rparr>))"
proof -
  have m: "\<And>k. map_of (map (\<lambda>(k, v). (k, PString v)) ps) k = map_option PString (map_of ps k)"
    by (induction ps) auto
  have o: "\<And>a b. or_prop (map_option PString a) (PString b) = PString (or_else a b)"
    by (simp add: or_prop_def or_else_def split: option.splits)
  have e: "\<And>x a. (Some (PString x) = map_option PString a) = (Some x = a)"
  proof -
    fix x :: string and a
    show "(Some (PString x) = map_option PString a) = (Some x = a)" by (cases a) auto
  qed
  show ?thesis
    by (simp add: format_object_def format_def m o e Let_def)
qed

lemma non_string_cases:
  assumes "typeof v \<noteq> ''string''"
  shows "join_js (pre @ v # post) = Inl (TypeError ''Arguments to path.join must be strings'')"
    and "resolve_js pcwd (args @ [v]) = Inl (TypeError ''Arguments to path.resolve must be strings'')"
    and "relative_js pcwd v to = Inl (TypeError ''Arguments to path.resolve must be strings'')"
    and "relative_js pcwd (JString from) v = Inl (TypeError ''Arguments to path.resolve must be strings'')"
    and "basename_js v ext = Inl (TypeError ''Path must be a string.'')"
    and "v \<noteq> JUndefined \<longrightarrow> basename_js (JString p) v = Inl (TypeError ''[basename] `ext` must be a string.'')"
    and "parse_js v = Inl (TypeError ''Path must be a string.'')"
    and "is_TypeError (format_js number_text (JString p))
         \<and> (typeof v \<noteq> ''object'' \<or> v = JNull \<longrightarrow> is_TypeError (format_js number_text v))"
    and "isAbsolute_js v = Inr False"
    and "extname_js v = Inr []"
    and "dirname_js v = Inr [DOT]"
    and "typeof v \<noteq> ''object'' \<and> typeof v \<noteq> ''function'' \<or> v = JNull \<longrightarrow> is_TypeError (normalize_js v)"
proof -
  show "join_js (pre @ v # post) = Inl (TypeError ''Arguments to path.join must be strings'')"
    using assms by (simp add: join_js_def join_loop_non_string)
  show r: "\<And>args. resolve_js pcwd (args @ [v]) = Inl (TypeError ''Arguments to path.resolve must be strings'')"
    using assms by (cases v) (simp_all add: resolve_js_def)
  show "relative_js pcwd v to = Inl (TypeError ''Arguments to path.resolve must be strings'')"
    using r[of "[]"] by (simp add: relative_js_def)
  show "relative_js pcwd (JString from) v = Inl (TypeError ''Arguments to path.resolve must be strings'')"
    using r[of "[]"] resolve_js_strings[of pcwd "[from]"] by (simp add: relative_js_def)
  show "basename_js v ext = Inl (TypeError ''Path must be a string.'')"
    using assms by (cases v) (simp_all add: basename_js_def)
  show "v \<noteq> JUndefined \<longrightarrow> basename_js (JString p) v = Inl (TypeError ''[basename] `ext` must be a string.'')"
    using assms by (cases v) (simp_all add: basename_js_def)
  show "parse_js v = Inl (TypeError ''Path must be a string.'')"
    using assms by (cases v) simp_all
  show "is_TypeError (format_js number_text (JString p))
         \<and> (typeof v \<noteq> ''object'' \<or> v = JNull \<longrightarrow> is_TypeError (format_js number_text v))"
    using assms by (cases v) simp_all
  show "isAbsolute_js v = Inr False" using assms by (cases v) simp_all
  show "extname_js v = Inr []" using assms by (cases v) simp_all
  show "dirname_js v = Inr [DOT]" using assms by (cases v) simp_all
  show "typeof v \<noteq> ''object'' \<and> typeof v \<noteq> ''function'' \<or> v = JNull \<longrightarrow> is_TypeError (normalize_js v)"
    using assms by (cases v) simp_all
qed

text \<open>
  C6 (as amended).  On an argument that is not a string: \<open>join\<close>, \<open>resolve\<close> (for the
  argument it examines first, the last one), \<open>relative\<close>, \<open>basename\<close> and \<open>parse\<close> throw a
  \<open>TypeError\<close>; \<open>format\<close> throws a \<open>TypeError\<close> on everything that is not an object, a string
  included; \<open>isAbsolute\<close>, \<open>extname\<close> and \<open>dirname\<close> do not throw and return \<open>false\<close>, the empty
  string and \<open>"."\<close>; \<open>normalize\<close>, which has no guard, throws a \<open>TypeError\<close> on \<open>undefined\<close>,
  \<open>null\<close>, booleans, numbers, bigints and symbols.  Nothing is said of \<open>normalize\<close> on objects
  and functions.
\<close>

theorem non_string_arguments:
  "typeof v \<noteq> ''string'' \<Longrightarrow>
     join_js (pre @ v # post) = Inl (TypeError ''Arguments to path.join must be strings'')
   \<and> resolve_js pcwd (args @ [v]) = Inl (TypeError ''Arguments to path.resolve must be strings'')
   \<and> relative_js pcwd v to = Inl (TypeError ''Arguments to path.resolve must be strings'')
   \<and> relative_js pcwd (JString from) v = Inl (TypeError ''Arguments to path.resolve must be strings'')
   \<and> basename_js v ext = Inl (TypeError ''Path must be a string.'')
   \<and> (v \<noteq> JUndefined \<longrightarrow> basename_js (JString p) v = Inl (TypeError ''[basename] `ext` must be a string.''))
   \<and> parse_js v = Inl (TypeError ''Path must be a string.'')
   \<and> is_TypeError (format_js number_text (JString p))
   \<and> (typeof v \<noteq> ''object'' \<or> v = JNull \<longrightarrow> is_TypeError (format_js number_text v))
   \<and> isAbsolute_js v = Inr False
   \<and> extname_js v = Inr []
   \<and> dirname_js v = Inr [DOT]
   \<and> (typeof v \<noteq> ''object'' \<and> typeof v \<noteq> ''function'' \<or> v = JNull \<longrightarrow> is_TypeError (normalize_js v))"
  using non_string_cases[of v] by blast

theorem non_string_arguments_witness:
  "typeof (JNumber 123) \<noteq> ''string''
   \<and> join_js [JNumber 123] = Inl (TypeError ''Arguments to path.join must be strings'')
   \<and> is_TypeError (format_js (\<lambda>n. []) (JNumber 123))
   \<and> is_TypeError (normalize_js (JNumber 123))
   \<and> basename_js (JString ''a'') (JNumber 123) = Inl (TypeError ''[basename] `ext` must be a string.'')
   \<and> isAbsolute_js (JNumber 123) = Inr False"
proof -
  have t: "typeof (JNumber 123) \<noteq> ''string''" by simp
  from non_string_arguments[OF t, of "[]" "[]" _ _ _ _ _ "''a''" "\<lambda>n. []"] t show ?thesis by (simp add: basename_js_def)
qed

text \<open>
  C6 as stated fails: \<open>isAbsolute\<close>, \<open>extname\<close> and \<open>dirname\<close> return a default value on a
  non-string, and \<open>resolve\<close> never examines an argument to the left of an absolute one.
\<close>

theorem non_string_arguments_counterexample:
  "isAbsolute_js (JNumber 123) = Inr False \<and> extname_js JNull = Inr [] \<and> dirname_js JUndefined = Inr ''.''
   \<and> resolve_js ''/cwd'' [JNumber 5, JString ''/abs''] = Inr ''/abs''"
  by code_simp

subsection \<open>C2: conversions between equal types\<close>

text \<open>
  C2 (as amended).  Whenever \<open>fromType\<close> equals \<open>toType\<close>, \<open>convertSingleImportPath\<close> returns the
  path it was given, for each of the six types and under every configuration: the mapping
  holds no converter for a pair of equal types, and the dispatcher returns its input when it
  finds none.  Alias to alias is no exception, whatever the base directory.
\<close>

theorem same_type_is_identity:
  "convertSingleImportPath e t t importPath options = importPath"
  by (cases t) (simp_all add: convertSingleImportPath_def)

text \<open>
  C2 as stated fails in its exception: an alias path converted to alias comes back unchanged
  under the base directory \<open>/old\<close> and just as well under \<open>/new\<close>; nothing is re-resolved.
\<close>

theorem alias_alias_counterexample:
  "convertSingleImportPath (pathkit_env ''/cwd'') Alias Alias ''~/foo''
      (example_options ''/old'' ''/old/a.ts'') = ''~/foo''
   \<and> convertSingleImportPath (pathkit_env ''/cwd'') Alias Alias ''~/foo''
      (example_options ''/new'' ''/new/a.ts'') = ''~/foo''"
  by (simp add: convertSingleImportPath_def)

subsection \<open>C3: alias conversion without an alias prefix\<close>

text \<open>
  C3.  When \<open>fromType\<close> or \<open>toType\<close> is alias and no alias prefix is supplied (it is absent
  or empty), \<open>convertImportPaths\<close> fails with a configuration error and returns the world as
  it received it: the file tree is the same and the log of file-system calls has not grown,
  so not even the \<open>stat\<close> of the base directory has been issued.  The error is the missing
  alias prefix, unless the base directory is missing too, which is reported first.
\<close>

theorem alias_without_prefix_fails_before_io:
  assumes "o_fromType options = Alias \<or> o_toType options = Alias"
    and "falsy (o_aliasPrefix options)"
  shows "convertImportPaths e rw options w =
           (Inl (Error (if o_baseDir options = [] then ''`baseDir` option is required.''
                        else ''aliasPrefix is required for alias path conversions'')), w)"
  using assms by (simp add: convertImportPaths_def Let_def)

theorem alias_without_prefix_fails_before_io_witness:
  "(o_fromType (example_run Alias Relative None) = Alias \<or> o_toType (example_run Alias Relative None) = Alias)
   \<and> falsy (o_aliasPrefix (example_run Alias Relative None))
   \<and> convertImportPaths (pathkit_env ''/cwd'') identity_rewriter (example_run Alias Relative None) example_world
       = (Inl (Error ''aliasPrefix is required for alias path conversions''), example_world)"
proof -
  have a: "o_fromType (example_run Alias Relative None) = Alias \<or> o_toType (example_run Alias Relative None) = Alias"
    by (simp add: example_run_def)
  have b: "falsy (o_aliasPrefix (example_run Alias Relative None))"
    by (simp add: example_run_def falsy_def)
  have c: "o_baseDir (example_run Alias Relative None) \<noteq> []" by (simp add: example_run_def)
  from alias_without_prefix_fails_before_io[OF a b, of "pathkit_env ''/cwd''" identity_rewriter example_world] a b c
  show ?thesis by simp
qed

subsection \<open>C4: the limit per bucket\<close>

lemma group_update_keys:
  "map fst (map (\<lambda>(k', g). if k' = key then (k', g @ [c]) else (k', g)) acc) = map fst acc"
  by (induction acc) auto

lemma group_update_keys_comp:
  "map (fst \<circ> (\<lambda>(k', g). if k' = key then (k', g @ [c]) else (k', g))) acc = map fst acc"
  by (induction acc) auto

lemma group_update_map_of:
  "map_of (map (\<lambda>(k', g). if k' = key then (k', g @ [c]) else (k', g)) acc) k
     = (if k = key then map_option (\<lambda>g. g @ [c]) (map_of acc k) else map_of acc k)"
  by (induction acc) auto

lemma grp_push:
  assumes "distinct (map fst acc)"
  shows "distinct (map fst (group_push acc c))"
    and "grp (group_push acc c) k = grp acc k @ (if bucket_key c = k then [c] else [])"
proof -
  let ?key = "bucket_key c"
  show "distinct (map fst (group_push acc c))"
    using assms by (auto simp: group_push_def Let_def group_update_keys_comp)
  show "grp (group_push acc c) k = grp acc k @ (if bucket_key c = k then [c] else [])"
  proof (cases "?key \<in> fst ` set acc")
    case True
    then obtain g where g: "map_of acc ?key = Some g"
      by (metis domD dom_map_of_conv_image_fst)
    from True have "group_push acc c = map (\<lambda>(k', g). if k' = ?key then (k', g @ [c]) else (k', g)) acc"
      by (simp add: group_push_def Let_def)
    then show ?thesis
      using g by (auto simp: grp_def group_update_map_of split: option.splits)
  next
    case False
    then have n: "map_of acc ?key = None"
      by (simp add: map_of_eq_None_iff)
    from False have "group_push acc c = acc @ [(?key, [c])]"
      by (simp add: group_push_def Let_def)
    then show ?thesis
      using n by (auto simp: grp_def map_add_def split: option.splits)
  qed
qed

lemma grp_foldl:
  "distinct (map fst acc) \<Longrightarrow>
     distinct (map fst (foldl group_push acc rs))
     \<and> grp (foldl group_push acc rs) k = grp acc k @ bucket k rs"
proof (induction rs arbitrary: acc)
  case Nil
  then show ?case by (simp add: bucket_def)
next
  case (Cons r rs)
  from grp_push[OF Cons.prems, of r] Cons.IH[of "group_push acc r"]
  show ?case by (auto simp: bucket_def)
qed

lemma bucket_concat_groups:
  assumes "distinct (map fst G)" and "\<And>k r. r \<in> set (grp G k) \<Longrightarrow> bucket_key r = k"
  shows "bucket k (concat (map (\<lambda>(k', g). take m g) G)) = take m (grp G k)"
  using assms
proof (induction G)
  case Nil
  then show ?case by (simp add: bucket_def grp_def)
next
  case (Cons e G)
  obtain k0 g0 where e: "e = (k0, g0)" by (cases e)
  have k0: "k0 \<notin> fst ` set G" using Cons.prems(1) e by simp
  then have none: "map_of G k0 = None" by (simp add: map_of_eq_None_iff)
  have g0: "\<And>r. r \<in> set g0 \<Longrightarrow> bucket_key r = k0"
    using Cons.prems(2)[of _ k0] e by (simp add: grp_def)
  have rest: "\<And>k r. r \<in> set (grp G k) \<Longrightarrow> bucket_key r = k"
  proof -
    fix k r assume r: "r \<in> set (grp G k)"
    then have "k \<noteq> k0" using none by (auto simp: grp_def)
    then have "grp (e # G) k = grp G k" using e by (simp add: grp_def)
    with r Cons.prems(2)[of r k] show "bucket_key r = k" by simp
  qed
  have IH: "bucket k (concat (map (\<lambda>(k', g). take m g) G)) = take m (grp G k)"
    using Cons.IH rest Cons.prems(1) by simp
  show ?case
  proof (cases "k = k0")
    case True
    have "\<forall>r \<in> set (take m g0). bucket_key r = k0" using g0 by (auto dest: in_set_takeD)
    then have "bucket k0 (take m g0) = take m g0" by (simp add: bucket_def)
    moreover have "grp G k0 = []" using none by (simp add: grp_def)
    moreover have "grp (e # G) k0 = g0" using e by (simp add: grp_def)
    ultimately show ?thesis using IH True e by (simp add: bucket_def)
  next
    case False
    have "\<forall>r \<in> set (take m g0). bucket_key r \<noteq> k" using g0 False by (auto dest: in_set_takeD)
    then have "bucket k (take m g0) = []" by (simp add: bucket_def)
    moreover have "grp (e # G) k = grp G k" using e False by (simp add: grp_def)
    ultimately show ?thesis using IH e by (simp add: bucket_def)
  qed
qed

lemma limited_buckets:
  "bucket k (concat (map (\<lambda>(k', g). take m g) (foldl group_push [] rs))) = take m (bucket k rs)"
proof -
  have d: "distinct (map fst (foldl group_push [] rs))"
    and g: "\<And>k. grp (foldl group_push [] rs) k = bucket k rs"
    using grp_foldl[of "[]" rs] by (simp_all add: grp_def)
  have "\<And>k r. r \<in> set (grp (foldl group_push [] rs) k) \<Longrightarrow> bucket_key r = k"
    unfolding g by (simp add: bucket_def)
  from bucket_concat_groups[OF d this] g show ?thesis by simp
qed

text \<open>
  The cap itself works as intended: for a positive \<open>limitPerType\<close> every bucket of the result
  is the bucket of the uncapped result cut after \<open>limitPerType\<close> records.
\<close>

lemma cap_cuts_each_bucket:
  assumes "0 < n"
  shows "bucket k (getFileImportsExports content (options\<lparr>g_limitPerType := Some n\<rparr>))
           = take (nat n) (bucket k (getFileImportsExports content (options\<lparr>g_limitPerType := None\<rparr>)))"
proof -
  have s: "\<And>g :: ImportExportInfo list. slice_to g n = take (nat n) g"
    using assms by (simp add: slice_to_def)
  show ?thesis
    using assms by (simp add: getFileImportsExports_def Let_def s limited_buckets)
qed

text \<open>
  C4.  The records of a bucket are not in the order of the statements, so the cap does not
  keep the first statements of the text.  In \<open>import("./a"); import x from "./b"\<close> both
  statements are relative imports and share a bucket.  The scan returns the static import
  (offset 15) before the dynamic import (offset 0), because it runs one pass per kind of
  statement; with a limit of one the record kept is the static import, and the first
  statement of the text is dropped.  The deprecated copy of the function decides during its
  scan: without \<open>pathTypes\<close> its test admits every statement whatever the limit, and with
  \<open>pathTypes\<close> it counts per path type, imports and exports together.
\<close>

theorem limit_drops_first_statement:
  "map (\<lambda>r. (i_start r, bucket_key r)) (getFileImportsExports scan_example default_scan_options)
     = [(15, ''import-relative''), (0, ''import-relative'')]
   \<and> map (\<lambda>r. (i_start r, bucket_key r))
        (getFileImportsExports scan_example (default_scan_options\<lparr>g_limitPerType := Some 1\<rparr>))
     = [(15, ''import-relative'')]
   \<and> shouldIncludeByPathType None (Some 1) [(Relative, 1)] Relative = (True, [(Relative, 1)])
   \<and> shouldIncludeByPathType (Some [Relative]) (Some 1) [(Relative, 1)] Relative
     = (False, [(Relative, 2), (Relative, 1)])"
  unfolding scan_example_def default_scan_options_def shouldIncludeByPathType_def by code_simp

subsection \<open>C8: round trip of resolve and relative\<close>

paragraph \<open>Splitting and joining\<close>

lemma split_nonempty: "split c s \<noteq> []"
  by (induction s) (auto split: list.splits)

lemma split_free: "c \<notin> set s \<Longrightarrow> split c s = [s]"
  by (induction s) (auto split: list.splits)

lemma split_append_sep: "c \<notin> set a \<Longrightarrow> split c (a @ c # w) = a # split c w"
  by (induction a) (auto split: list.splits)

lemma joinWith_snoc: "ss \<noteq> [] \<Longrightarrow> joinWith sep (ss @ [x]) = joinWith sep ss @ sep @ x"
  by (induction sep ss rule: joinWith.induct) auto

lemma joinWith_empty_iff: "\<forall>s \<in> set ss. s \<noteq> [] \<Longrightarrow> joinWith sep ss = [] \<longleftrightarrow> ss = []"
  by (induction sep ss rule: joinWith.induct) auto

lemma joinWith_length_ge:
  assumes "\<forall>s \<in> set ss. s \<noteq> []" and "length ss \<ge> 2"
  shows "length (joinWith [c] ss) \<ge> 3"
proof -
  from assms(2) obtain x y ys where ss: "ss = x # y # ys"
    by (cases ss; cases "tl ss") auto
  have "joinWith [c] (y # ys) \<noteq> []"
    using assms(1) ss joinWith_empty_iff[of "y # ys" "[c]"] by simp
  then have "length (joinWith [c] (y # ys)) \<ge> 1" by (simp add: Suc_le_eq)
  moreover have "length x \<ge> 1" using assms(1) ss by (simp add: Suc_le_eq)
  ultimately show ?thesis using ss by simp
qed

lemma lastIndexOf_free: "c \<notin> set s \<Longrightarrow> lastIndexOf s c = -1"
  by (induction s) (auto simp: Let_def)

lemma lastIndexOf_ge: "lastIndexOf s c \<ge> -1"
  by (induction s) (auto simp: Let_def)

lemma lastIndexOf_append_sep: "c \<notin> set b \<Longrightarrow> lastIndexOf (a @ c # b) c = int (length a)"
  by (induction a) (auto simp: Let_def lastIndexOf_free)

lemma abstract_run:
  "SLASH \<notin> set cur \<Longrightarrow>
   foldl step_char (stack, cur) w
     = (foldl collapse_piece stack (butlast (split SLASH (cur @ w))), last (split SLASH (cur @ w)))"
proof (induction w arbitrary: stack cur)
  case Nil
  then show ?case by (simp add: split_free)
next
  case (Cons x w)
  show ?case
  proof (cases "x = SLASH")
    case True
    have "foldl step_char (stack, cur) (x # w) = foldl step_char (collapse_piece stack cur, []) w"
      using True by (simp add: step_char_def)
    also have "\<dots> = (foldl collapse_piece (collapse_piece stack cur) (butlast (split SLASH w)),
                      last (split SLASH w))"
      using Cons.IH[of "[]" "collapse_piece stack cur"] by simp
    finally show ?thesis
      using True Cons.prems by (simp add: split_append_sep split_nonempty)
  next
    case False
    have "foldl step_char (stack, cur) (x # w) = foldl step_char (stack, cur @ [x]) w"
      using False by (simp add: step_char_def)
    also have "\<dots> = (foldl collapse_piece stack (butlast (split SLASH ((cur @ [x]) @ w))),
                      last (split SLASH ((cur @ [x]) @ w)))"
      using Cons.IH[of "cur @ [x]" stack] Cons.prems False by simp
    finally show ?thesis by simp
  qed
qed

lemma foldl_collapse_piece_filter:
  "foldl collapse_piece stack ps = foldl collapse_piece stack (filter (\<lambda>x. x \<noteq> []) ps)"
  by (induction ps arbitrary: stack) (auto simp: collapse_piece_def)

lemma split_snoc_sep: "split c (w @ [c]) = split c w @ [[]]"
  by (induction w) (auto split: list.splits simp: split_nonempty)

lemma dots_of_nonneg: "dots_of cur \<noteq> -1 \<longleftrightarrow> (\<forall>c \<in> set cur. c = DOT)"
  by (simp add: dots_of_def)

lemma dots_of_snoc:
  "dots_of (cur @ [ch]) = (if ch = DOT \<and> dots_of cur \<noteq> -1 then dots_of cur + 1 else -1)"
  by (auto simp: dots_of_def)

lemma dots_of_1: "dots_of cur = 1 \<longleftrightarrow> cur = [DOT]"
proof
  assume "dots_of cur = 1"
  then have a: "\<forall>c \<in> set cur. c = DOT" and l: "length cur = 1"
    by (auto simp: dots_of_def split: if_splits)
  from l obtain x where "cur = [x]" by (cases cur) auto
  with a show "cur = [DOT]" by simp
qed (simp add: dots_of_def)

lemma dots_of_2: "dots_of cur = 2 \<longleftrightarrow> cur = [DOT, DOT]"
proof
  assume "dots_of cur = 2"
  then have a: "\<forall>c \<in> set cur. c = DOT" and l: "length cur = 2"
    by (auto simp: dots_of_def split: if_splits)
  from l obtain x y where "cur = [x, y]" by (cases cur; cases "tl cur") auto
  with a show "cur = [DOT, DOT]" by simp
qed (simp add: dots_of_def)

lemma joinWith_last: "ss \<noteq> [] \<Longrightarrow> \<exists>pre. joinWith sep ss = pre @ last ss"
  by (induction sep ss rule: joinWith.induct) auto

lemma A_holds:
  assumes "good_stack stack" and "stack \<noteq> []" and "r = joinWith [SLASH] stack"
    and "l = int (length (last stack))"
  shows "length r < 2 \<or> l \<noteq> 2 \<or> \<not> endsWith r [DOT] \<or> r ! (length r - 2) \<noteq> DOT"
proof (rule ccontr)
  assume n: "\<not> ?thesis"
  then have l2: "length (last stack) = 2" using assms(4) by simp
  then obtain a b where ab: "last stack = [a, b]" by (cases "last stack"; cases "tl (last stack)") auto
  from joinWith_last[OF assms(2)] assms(3) obtain pre where r: "r = pre @ [a, b]" using ab by auto
  from n r have "b = DOT" by (simp add: endsWith_def)
  moreover from n r have "a = DOT" by (simp add: nth_append)
  ultimately have "last stack = [DOT, DOT]" using ab by simp
  moreover have "last stack \<in> set stack" using assms(2) by simp
  ultimately show False using assms(1) by (auto simp: good_stack_def)
qed

lemma last_segment_length:
  assumes "good_stack ss"
  shows "int (length (joinWith [SLASH] ss)) - 1 - lastIndexOf (joinWith [SLASH] ss) SLASH
         = (if ss = [] then 0 else int (length (last ss)))"
proof (cases ss rule: rev_cases)
  case Nil
  then show ?thesis by simp
next
  case (snoc ss' t)
  have t: "SLASH \<notin> set t" using assms snoc by (simp add: good_stack_def)
  show ?thesis
  proof (cases "ss' = []")
    case True
    then show ?thesis using snoc t by (simp add: lastIndexOf_free)
  next
    case False
    then have "joinWith [SLASH] ss = joinWith [SLASH] ss' @ SLASH # t"
      using snoc by (simp add: joinWith_snoc)
    then show ?thesis using snoc t by (simp add: lastIndexOf_append_sep)
  qed
qed

lemma pop_step:
  assumes g: "good_stack stack" and ne: "stack \<noteq> []" and r: "r = joinWith [SLASH] stack"
  shows "(length r > 2 \<and> lastIndexOf r SLASH \<noteq> -1 \<longrightarrow>
            slice r 0 (nat (lastIndexOf r SLASH)) = joinWith [SLASH] (butlast stack) \<and> butlast stack \<noteq> [])
       \<and> (length r \<le> 2 \<or> lastIndexOf r SLASH = -1 \<longrightarrow> butlast stack = [])
       \<and> length r > 0"
proof -
  obtain ss t where st: "stack = ss @ [t]" using ne by (cases stack rule: rev_cases) auto
  have t: "SLASH \<notin> set t" "t \<noteq> []" using g st by (simp_all add: good_stack_def)
  have nonempty: "\<forall>s \<in> set stack. s \<noteq> []" using g by (simp add: good_stack_def)
  show ?thesis
  proof (cases "ss = []")
    case True
    then show ?thesis using st t r by (simp add: lastIndexOf_free)
  next
    case False
    then have rr: "r = joinWith [SLASH] ss @ SLASH # t" using st r by (simp add: joinWith_snoc)
    have "length stack \<ge> 2" using False st by (cases ss) auto
    then have "length r \<ge> 3" using joinWith_length_ge[OF nonempty] r by simp
    moreover have "lastIndexOf r SLASH = int (length (joinWith [SLASH] ss))"
      using rr t by (simp add: lastIndexOf_append_sep)
    ultimately show ?thesis using rr st False by (simp add: slice_def)
  qed
qed

lemma sim_step:
  assumes s: "sim q n st sc" and ch: "ch \<noteq> SLASH \<longrightarrow> n < length q \<and> ch = q ! n"
  shows "sim q (Suc n) (ns_step q False st n ch) (step_char sc ch)"
proof -
  obtain stack cur where sc: "sc = (stack, cur)" by (cases sc)
  from s sc have ls: "lastSlash st = int n - 1 - int (length cur)"
    and d: "dots st = dots_of cur" and r: "res st = joinWith [SLASH] stack"
    and l: "lastSegmentLength st = (if stack = [] then 0 else int (length (last stack)))"
    and g: "good_stack stack" and cs: "SLASH \<notin> set cur" and cl: "length cur \<le> n"
    and csl: "cur = slice q (n - length cur) n"
    by (simp_all add: sim_def)
  have ne: "\<forall>s \<in> set stack. s \<noteq> []" using g by (simp add: good_stack_def)
  show ?thesis
  proof (cases "ch = SLASH")
    case False
    with ch have n: "n < length q" and chq: "ch = q ! n" by simp_all
    have "slice q (n - length cur) (Suc n) = take (Suc (length cur)) (drop (n - length cur) q)"
      using cl by (simp add: slice_def Suc_diff_le)
    also have "\<dots> = take (length cur) (drop (n - length cur) q) @ [drop (n - length cur) q ! length cur]"
      using n cl by (simp add: take_Suc_conv_app_nth)
    also have "\<dots> = cur @ [ch]"
    proof -
      have "take (length cur) (drop (n - length cur) q) = cur"
        using csl cl by (simp add: slice_def)
      moreover have "drop (n - length cur) q ! length cur = ch"
        using cl n chq by simp
      ultimately show ?thesis by simp
    qed
    finally have sl: "slice q (n - length cur) (Suc n) = cur @ [ch]" .
    have st': "ns_step q False st n ch = (if ch = DOT \<and> dots st \<noteq> -1 then st\<lparr>dots := dots st + 1\<rparr> else st\<lparr>dots := -1\<rparr>)"
      using False by (simp add: ns_step_def)
    have new: "step_char sc ch = (stack, cur @ [ch])"
      using False sc by (simp add: step_char_def)
    show ?thesis
      unfolding sim_def new
      using False ls d r l g cs cl by (simp add: st' dots_of_snoc sl)
  next
    case True
    have base: "int (Suc n) - 1 - int (length ([]::string)) = int n" by simp
    consider (empty) "cur = []" | (dot) "cur = [DOT]" | (dotdot) "cur = [DOT, DOT]"
      | (seg) "cur \<noteq> []" "cur \<noteq> [DOT]" "cur \<noteq> [DOT, DOT]" by blast
    then show ?thesis
    proof cases
      case empty
      then have "lastSlash st = int n - 1" using ls by simp
      then have "ns_step q False st n ch = st\<lparr>lastSlash := int n, dots := 0\<rparr>"
        using True by (simp add: ns_step_def)
      then show ?thesis
        unfolding sim_def sc step_char_def
        using True empty r l g by (simp add: collapse_piece_def dots_of_def slice_def)
    next
      case dot
      then have "dots st = 1" using d by (simp add: dots_of_def)
      then have "ns_step q False st n ch = st\<lparr>lastSlash := int n, dots := 0\<rparr>"
        using True by (simp add: ns_step_def)
      then show ?thesis
        unfolding sim_def sc step_char_def
        using True dot r l g by (simp add: collapse_piece_def dots_of_def slice_def)
    next
      case dotdot
      then have d2: "dots st = 2" and ls2: "lastSlash st \<noteq> int n - 1"
        using d ls by (simp_all add: dots_of_def)
      have cp: "collapse_piece stack cur = butlast stack"
        using dotdot by (simp add: collapse_piece_def DOT_def)
      have gb: "good_stack (butlast stack)"
        using g by (auto simp: good_stack_def dest: in_set_butlastD)
      have new: "step_char sc ch = (butlast stack, [])"
        using True sc cp by (simp add: step_char_def)
      show ?thesis
      proof (cases "stack = []")
        case True
        then have "res st = []" using r by simp
        then have "ns_step q False st n ch = st\<lparr>lastSlash := int n, dots := 0\<rparr>"
          using \<open>ch = SLASH\<close> d2 ls2 by (simp add: ns_step_def)
        then show ?thesis
          unfolding sim_def new
          using \<open>ch = SLASH\<close> True r l by (simp add: dots_of_def slice_def good_stack_def)
      next
        case False
        note A = A_holds[OF g False r, of "lastSegmentLength st"]
        note P = pop_step[OF g False r]
        have Ah: "length (res st) < 2 \<or> lastSegmentLength st \<noteq> 2 \<or> \<not> endsWith (res st) [DOT]
                  \<or> res st ! (length (res st) - 2) \<noteq> DOT"
          using A l False by simp
        show ?thesis
        proof (cases "length (res st) > 2 \<and> lastIndexOf (res st) SLASH \<noteq> -1")
          case True
          then have eq: "ns_step q False st n ch =
              st\<lparr>res := slice (res st) 0 (nat (lastIndexOf (res st) SLASH)),
                 lastSegmentLength := int (length (slice (res st) 0 (nat (lastIndexOf (res st) SLASH)))) - 1
                    - lastIndexOf (slice (res st) 0 (nat (lastIndexOf (res st) SLASH))) SLASH,
                 lastSlash := int n, dots := 0\<rparr>"
            using \<open>ch = SLASH\<close> d2 ls2 Ah by (simp add: ns_step_def Let_def)
          from P True have sl: "slice (res st) 0 (nat (lastIndexOf (res st) SLASH)) = joinWith [SLASH] (butlast stack)"
            and bne: "butlast stack \<noteq> []" by simp_all
          show ?thesis
            unfolding sim_def new eq
            using \<open>ch = SLASH\<close> sl bne gb last_segment_length[OF gb]
            by (simp add: dots_of_def slice_def)
        next
          case F2: False
          then have be: "butlast stack = []" using P by auto
          have pos: "length (res st) > 0" using P by simp
          have eq: "ns_step q False st n ch =
              st\<lparr>res := [], lastSegmentLength := 0, lastSlash := int n, dots := 0\<rparr>"
          proof (cases "length (res st) > 2")
            case True
            with F2 have "lastIndexOf (res st) SLASH = -1" by simp
            then show ?thesis
              using \<open>ch = SLASH\<close> d2 ls2 Ah True by (simp add: ns_step_def Let_def)
          next
            case False
            then show ?thesis
              using \<open>ch = SLASH\<close> d2 ls2 Ah pos by (simp add: ns_step_def Let_def)
          qed
          show ?thesis
            unfolding sim_def new eq
            using \<open>ch = SLASH\<close> be by (simp add: dots_of_def slice_def good_stack_def)
        qed
      qed
    next
      case seg
      then have d1: "dots st \<noteq> 1" and d2: "dots st \<noteq> 2" and ls2: "lastSlash st \<noteq> int n - 1"
        using d ls by (simp_all add: dots_of_1 dots_of_2)
      have segm: "slice q (nat (lastSlash st + 1)) n = cur"
      proof -
        have "nat (lastSlash st + 1) = n - length cur" using ls cl by simp
        then show ?thesis using csl by simp
      qed
      have eq: "ns_step q False st n ch =
          st\<lparr>res := (if length (res st) > 0 then res st @ SLASH # cur else cur),
             lastSegmentLength := int (length cur), lastSlash := int n, dots := 0\<rparr>"
        using True d1 d2 ls2 segm by (simp add: ns_step_def Let_def)
      have cp: "collapse_piece stack cur = stack @ [cur]"
        using seg by (simp add: collapse_piece_def)
      have j: "joinWith [SLASH] (stack @ [cur]) = (if length (res st) > 0 then res st @ SLASH # cur else cur)"
        using r joinWith_empty_iff[OF ne, of "[SLASH]"] by (cases "stack = []") (simp_all add: joinWith_snoc)
      have new: "step_char sc ch = (stack @ [cur], [])"
        using True sc cp by (simp add: step_char_def)
      show ?thesis
        unfolding sim_def new eq
        using True j[symmetric] g seg cs by (simp add: dots_of_def slice_def good_stack_def)
    qed
  qed
qed

lemma sim_run:
  "n \<le> length q \<Longrightarrow>
   sim q n (foldl (\<lambda>st i. ns_step q False st i (q ! i)) ns_init [0..<n])
           (foldl step_char ([], []) (take n q))"
proof (induction n)
  case 0
  show ?case by (simp add: sim_def ns_init_def dots_of_def slice_def good_stack_def)
next
  case (Suc n)
  then have n: "n < length q" and IH: "sim q n (foldl (\<lambda>st i. ns_step q False st i (q ! i)) ns_init [0..<n])
           (foldl step_char ([], []) (take n q))" by simp_all
  from sim_step[OF IH, of "q ! n"] n
  show ?case by (simp add: take_Suc_conv_app_nth)
qed

theorem normalizeString_segments:
  "normalizeString p False = joinWith [SLASH] (collapse (segs p))"
proof -
  let ?st = "foldl (\<lambda>st i. ns_step p False st i (p ! i)) ns_init [0..<length p]"
  let ?sc = "foldl step_char ([], []) p"
  have S: "sim p (length p) ?st ?sc" using sim_run[of "length p" p] by simp
  show ?thesis
  proof (cases "p \<noteq> [] \<and> last p = SLASH")
    case True
    then obtain w where w: "p = w @ [SLASH]" by (metis append_butlast_last_id)
    have "normalizeString p False = res ?st" using True by (simp add: normalizeString_def Let_def)
    also have "\<dots> = joinWith [SLASH] (fst ?sc)" using S by (simp add: sim_def)
    also have "fst ?sc = foldl collapse_piece [] (butlast (split SLASH p))"
      using abstract_run[of "[]" "[]" p] by simp
    also have "\<dots> = foldl collapse_piece [] (split SLASH w)" using w by (simp add: split_snoc_sep)
    also have "\<dots> = collapse (segs p)"
      using w foldl_collapse_piece_filter[of "[]" "split SLASH w"]
      by (simp add: collapse_def segs_def split_snoc_sep)
    finally show ?thesis .
  next
    case False
    have S': "sim p (Suc (length p)) (ns_step p False ?st (length p) SLASH) (step_char ?sc SLASH)"
      using sim_step[OF S, of SLASH] by simp
    have "normalizeString p False = res (ns_step p False ?st (length p) SLASH)"
      using False by (auto simp: normalizeString_def Let_def)
    also have "\<dots> = joinWith [SLASH] (fst (step_char ?sc SLASH))" using S' by (simp add: sim_def)
    also have "step_char ?sc SLASH = foldl step_char ([], []) (p @ [SLASH])" by simp
    also have "fst \<dots> = foldl collapse_piece [] (butlast (split SLASH (p @ [SLASH])))"
      using abstract_run[of "[]" "[]" "p @ [SLASH]"] by simp
    also have "\<dots> = foldl collapse_piece [] (split SLASH p)" by (simp add: split_snoc_sep)
    also have "\<dots> = collapse (segs p)"
      using foldl_collapse_piece_filter[of "[]" "split SLASH p"] by (simp add: collapse_def segs_def)
    finally show ?thesis .
  qed
qed

lemma split_pieces_free: "s \<in> set (split c p) \<Longrightarrow> c \<notin> set s"
  by (induction p arbitrary: s) (auto split: list.splits if_splits)

lemma split_pieces_chars_all: "\<Union>(set ` set (split c p)) \<subseteq> set p"
  by (induction p) (auto split: list.splits, blast+)

lemma split_pieces_chars: "s \<in> set (split c p) \<Longrightarrow> set s \<subseteq> set p"
  using split_pieces_chars_all[of c p] by blast

lemma collapse_piece_clean:
  "clean st \<Longrightarrow> SLASH \<notin> set x \<Longrightarrow> clean (collapse_piece st x)"
  by (auto simp: clean_def collapse_piece_def dest: in_set_butlastD)

lemma foldl_collapse_clean:
  "clean st \<Longrightarrow> \<forall>s \<in> set ss. SLASH \<notin> set s \<Longrightarrow> clean (foldl collapse_piece st ss)"
  by (induction ss arbitrary: st) (simp_all add: collapse_piece_clean)

lemma clean_collapse_segs: "clean (collapse (segs p))"
  unfolding collapse_def
  by (rule foldl_collapse_clean) (auto simp: clean_def segs_def dest: split_pieces_free)

lemma foldl_collapse_of_clean: "clean ss \<Longrightarrow> foldl collapse_piece st ss = st @ ss"
  by (induction ss arbitrary: st) (auto simp: clean_def collapse_piece_def)

lemma foldl_collapse_ups:
  "foldl collapse_piece st (replicate k [DOT, DOT]) = take (length st - k) st"
proof (induction k arbitrary: st)
  case 0
  show ?case by simp
next
  case (Suc k)
  have "collapse_piece st [DOT, DOT] = butlast st" by (simp add: collapse_piece_def DOT_def)
  then show ?case using Suc[of "butlast st"] by (simp add: butlast_conv_take min_def)
qed

lemma split_append_sep_gen: "split c (a @ c # b) = split c a @ split c b"
proof (induction a)
  case Nil
  show ?case by simp
next
  case (Cons x a)
  obtain p ps where "split c a = p # ps" using split_nonempty[of c a] by (cases "split c a") auto
  with Cons show ?case by (auto split: list.splits)
qed

lemma segs_append_sep: "segs (a @ SLASH # b) = segs a @ segs b"
  by (simp add: segs_def split_append_sep_gen)

lemma segs_snoc_sep: "segs (a @ [SLASH]) = segs a"
  by (simp add: segs_def split_snoc_sep)

lemma segs_join:
  "\<forall>s \<in> set ss. s \<noteq> [] \<and> SLASH \<notin> set s \<Longrightarrow> segs (joinWith [SLASH] ss) = ss"
proof (induction "[SLASH]" ss rule: joinWith.induct)
  case 1
  show ?case by (simp add: segs_def)
next
  case (2 x)
  then show ?case by (simp add: segs_def split_free)
next
  case (3 x y ys)
  have "segs (x @ SLASH # joinWith [SLASH] (y # ys)) = segs x @ segs (joinWith [SLASH] (y # ys))"
    by (rule segs_append_sep)
  moreover have "segs x = [x]" using 3(2) by (simp add: segs_def split_free)
  ultimately show ?case using 3 by simp
qed

lemma commonSegments_props:
  "take (commonSegments F T) F = take (commonSegments F T) T
   \<and> commonSegments F T \<le> length F \<and> commonSegments F T \<le> length T"
  by (induction F T rule: commonSegments.induct) auto

lemma hd_free: "x \<noteq> [] \<Longrightarrow> c \<notin> set x \<Longrightarrow> hd x \<noteq> c"
  by (cases x) auto

lemma join_not_slash_first:
  "\<forall>s \<in> set ss. s \<noteq> [] \<and> SLASH \<notin> set s \<Longrightarrow> joinWith [SLASH] ss = [] \<or> hd (joinWith [SLASH] ss) \<noteq> SLASH"
  by (induction "[SLASH]" ss rule: joinWith.induct) (auto simp: hd_append hd_free)

lemma join_chars: "set (joinWith [c] ss) \<subseteq> \<Union>(set ` set ss) \<union> {c}"
  by (induction "[c]" ss rule: joinWith.induct) auto

lemma foldl_collapse_subset: "set (foldl collapse_piece st ss) \<subseteq> set st \<union> set ss"
proof (induction ss arbitrary: st)
  case Nil
  show ?case by simp
next
  case (Cons x ss)
  have "set (collapse_piece st x) \<subseteq> set st \<union> {x}"
    by (auto simp: collapse_piece_def dest: in_set_butlastD)
  with Cons[of "collapse_piece st x"] show ?case by auto
qed

paragraph \<open>resolve in terms of segments\<close>

lemma abs_nonempty: "isAbsolute c \<Longrightarrow> c \<noteq> []"
  by (auto simp: isAbsolute_def normalizeWindowsPath_def IS_ABSOLUTE_RE_def)

lemma resolve_single:
  assumes "isAbsolute (cwd pcwd)"
  shows "resolve pcwd [x] = fin (normalizeString (prefix_of (cwd pcwd) x) False)"
  using assms abs_nonempty[OF assms]
  by (simp add: resolve_def prefix_of_def fin_def Let_def isAbsolute_def)

lemma resolve_pair:
  assumes "isAbsolute (cwd pcwd)" and "rel \<noteq> []" and "\<not> IS_ABSOLUTE_RE (normalizeWindowsPath rel)"
  shows "resolve pcwd [from, rel]
         = fin (normalizeString (prefix_of (cwd pcwd) from @ normalizeWindowsPath rel @ [SLASH]) False)"
  using assms abs_nonempty[OF assms(1)]
  by (simp add: resolve_def prefix_of_def fin_def Let_def isAbsolute_def)

lemma resolve_pair_empty: "resolve pcwd [from, []] = resolve pcwd [from]"
  by (simp add: resolve_def)

lemma prefix_of_snoc: "\<exists>X. prefix_of c x = X @ [SLASH]"
  by (simp add: prefix_of_def)

paragraph \<open>Characters\<close>

lemma upper_code:
  assumes "97 \<le> (of_char c :: nat)" and "(of_char c :: nat) \<le> 122"
  shows "(of_char (toUpperCase_char c) :: nat) = of_char c - 32"
proof -
  have "(of_char c :: nat) - 32 < 256" using assms by arith
  then have "((of_char c :: nat) - 32) mod 256 = of_char c - 32" by (rule mod_less)
  then show ?thesis using assms by (simp add: toUpperCase_char_def Let_def)
qed

lemma upper_other:
  "\<not> (97 \<le> (of_char c :: nat) \<and> (of_char c :: nat) \<le> 122) \<Longrightarrow> toUpperCase_char c = c"
  by (auto simp add: toUpperCase_char_def Let_def)

lemma upper_not_backslash:
  assumes "c \<noteq> BACK_SLASH"
  shows "toUpperCase_char c \<noteq> BACK_SLASH"
proof (cases "97 \<le> (of_char c :: nat) \<and> (of_char c :: nat) \<le> 122")
  case True
  then have "(of_char (toUpperCase_char c) :: nat) = of_char c - 32" by (simp add: upper_code)
  then have "(of_char (toUpperCase_char c) :: nat) \<le> 90" using True by arith
  moreover have "(of_char BACK_SLASH :: nat) = 92" by (simp add: BACK_SLASH_def)
  ultimately show ?thesis by force
next
  case False
  then show ?thesis using assms by (simp add: upper_other)
qed

lemma upper_letter:
  assumes "is_letter a"
  shows "is_letter (toUpperCase_char a)"
proof (cases "97 \<le> (of_char a :: nat) \<and> (of_char a :: nat) \<le> 122")
  case True
  then have "(of_char (toUpperCase_char a) :: nat) = of_char a - 32" by (simp add: upper_code)
  then have "65 \<le> (of_char (toUpperCase_char a) :: nat) \<and> (of_char (toUpperCase_char a) :: nat) \<le> 90"
    using True by arith
  then show ?thesis by (simp add: is_letter_def Let_def)
next
  case False
  then show ?thesis using assms by (simp add: upper_other)
qed

lemma upper_colon: "toUpperCase_char COLON = COLON"
  by (simp add: toUpperCase_char_def COLON_def)

lemma upper_slash: "toUpperCase_char SLASH = SLASH"
  by (simp add: toUpperCase_char_def SLASH_def)

lemma dls_shape: "DRIVE_LETTER_START_RE s \<Longrightarrow> \<exists>a r. s = a # COLON # SLASH # r \<and> is_letter a"
  by (cases s rule: DRIVE_LETTER_START_RE.cases) simp_all

lemma replace_backslashes_free: "BACK_SLASH \<notin> set (replace_backslashes x)"
  by (auto simp: replace_backslashes_def SLASH_def BACK_SLASH_def)

lemma replace_backslashes_id: "BACK_SLASH \<notin> set s \<Longrightarrow> replace_backslashes s = s"
  by (induction s) (auto simp: replace_backslashes_def)

lemma map_upper_free: "BACK_SLASH \<notin> set s \<Longrightarrow> BACK_SLASH \<notin> set (map toUpperCase_char s)"
proof (induction s)
  case Nil
  show ?case by simp
next
  case (Cons a s)
  then have "a \<noteq> BACK_SLASH" by auto
  then have "toUpperCase_char a \<noteq> BACK_SLASH" by (rule upper_not_backslash)
  then show ?case using Cons by auto
qed

lemma nwp_no_backslash: "BACK_SLASH \<notin> set (normalizeWindowsPath x)"
proof -
  let ?s = "replace_backslashes x"
  have s: "BACK_SLASH \<notin> set ?s" by (rule replace_backslashes_free)
  have "BACK_SLASH \<notin> set (take 3 ?s)" using s by (meson in_set_takeD)
  then have a: "BACK_SLASH \<notin> set (map toUpperCase_char (take 3 ?s))" by (rule map_upper_free)
  have b: "BACK_SLASH \<notin> set (drop 3 ?s)" using s by (meson in_set_dropD)
  have "BACK_SLASH \<notin> set (map toUpperCase_char (take 3 ?s) @ drop 3 ?s)"
    using a b by simp
  then show ?thesis using s by (simp add: normalizeWindowsPath_def Let_def)
qed

lemma dls_abs:
  assumes "DRIVE_LETTER_START_RE (replace_backslashes s)"
  shows "IS_ABSOLUTE_RE (normalizeWindowsPath s)"
proof -
  from dls_shape[OF assms] obtain a r where sh: "replace_backslashes s = a # COLON # SLASH # r"
    and a: "is_letter a" by blast
  then have "s \<noteq> []" by (auto simp: replace_backslashes_def)
  then have "normalizeWindowsPath s = toUpperCase_char a # COLON # SLASH # r"
    using assms sh by (simp add: normalizeWindowsPath_def Let_def upper_colon upper_slash)
  then show ?thesis
    using upper_letter[OF a] by (simp add: IS_ABSOLUTE_RE_def is_sep_def)
qed

lemma abs_nwp:
  assumes "BACK_SLASH \<notin> set s" and "IS_ABSOLUTE_RE s"
  shows "IS_ABSOLUTE_RE (normalizeWindowsPath s)"
proof (cases "DRIVE_LETTER_START_RE (replace_backslashes s)")
  case True
  then show ?thesis by (rule dls_abs)
next
  case False
  then have "normalizeWindowsPath s = s"
    using replace_backslashes_id[OF assms(1)] by (simp add: normalizeWindowsPath_def Let_def)
  then show ?thesis using assms(2) by simp
qed

lemma not_abs_nwp_id:
  assumes "BACK_SLASH \<notin> set s" and "\<not> isAbsolute s"
  shows "normalizeWindowsPath s = s \<and> \<not> IS_ABSOLUTE_RE (normalizeWindowsPath s)"
proof -
  have n: "\<not> IS_ABSOLUTE_RE (normalizeWindowsPath s)" using assms(2) by (simp add: isAbsolute_def)
  then have "\<not> DRIVE_LETTER_START_RE (replace_backslashes s)" using dls_abs by blast
  then have "normalizeWindowsPath s = s"
    using replace_backslashes_id[OF assms(1)] by (simp add: normalizeWindowsPath_def Let_def)
  with n show ?thesis by simp
qed

lemma fin_abs:
  assumes "r = [] \<or> hd r \<noteq> SLASH" and "BACK_SLASH \<notin> set r"
  shows "IS_ABSOLUTE_RE (fin r)"
proof (cases "IS_ABSOLUTE_RE r")
  case True
  then show ?thesis by (simp add: fin_def)
next
  case False
  have "IS_ABSOLUTE_RE (SLASH # r)"
    using assms by (cases r) (auto simp add: IS_ABSOLUTE_RE_def is_sep_def)
  with False show ?thesis by (simp add: fin_def)
qed

lemma rfr_not_slash: "s = [] \<or> hd s \<noteq> SLASH \<Longrightarrow> ROOT_FOLDER_RE_replace s = s"
  by (cases s rule: ROOT_FOLDER_RE_replace.cases) simp_all

lemma segs_slash_cons: "segs (SLASH # r) = segs r"
  by (simp add: segs_def)

lemma segs_rfr_slash: "segs (ROOT_FOLDER_RE_replace (SLASH # r)) = segs r"
  by (cases "SLASH # r" rule: ROOT_FOLDER_RE_replace.cases) (simp_all add: segs_slash_cons)

lemma segments_of_segs: "segments_of s = segs (ROOT_FOLDER_RE_replace s)"
  by (simp add: segments_of_def segs_def)

lemma segments_of_fin:
  assumes "r = [] \<or> hd r \<noteq> SLASH"
  shows "segments_of (fin r) = segs r"
proof (cases "IS_ABSOLUTE_RE r")
  case True
  then show ?thesis using rfr_not_slash[OF assms] by (simp add: fin_def segments_of_segs)
next
  case False
  then show ?thesis using segs_rfr_slash[of r] by (simp add: fin_def segments_of_segs)
qed

paragraph \<open>The round trip\<close>

lemma prefix_of_free: "BACK_SLASH \<notin> set (prefix_of c x)"
  using nwp_no_backslash[of c] nwp_no_backslash[of x]
  by (simp add: prefix_of_def SLASH_def BACK_SLASH_def)

lemma collapse_segs_chars: "s \<in> set (collapse (segs p)) \<Longrightarrow> set s \<subseteq> set p"
proof -
  assume "s \<in> set (collapse (segs p))"
  then have "s \<in> set (segs p)"
    using foldl_collapse_subset[of "[]" "segs p"] by (auto simp: collapse_def)
  then have "s \<in> set (split SLASH p)" by (simp add: segs_def)
  then show ?thesis by (rule split_pieces_chars)
qed

lemma clean_pieces: "clean ss \<Longrightarrow> \<forall>s \<in> set ss. s \<noteq> [] \<and> SLASH \<notin> set s"
  by (simp add: clean_def)

lemma join_collapse_free:
  assumes "BACK_SLASH \<notin> set p"
  shows "BACK_SLASH \<notin> set (joinWith [SLASH] (collapse (segs p)))"
proof
  assume "BACK_SLASH \<in> set (joinWith [SLASH] (collapse (segs p)))"
  then have "BACK_SLASH \<in> \<Union>(set ` set (collapse (segs p))) \<union> {SLASH}"
    using join_chars[of SLASH "collapse (segs p)"] by blast
  moreover have "BACK_SLASH \<noteq> SLASH" by (simp add: SLASH_def BACK_SLASH_def)
  ultimately obtain s where "s \<in> set (collapse (segs p))" and "BACK_SLASH \<in> set s" by auto
  then show False using collapse_segs_chars[of s p] assms by auto
qed

lemma resolve_segments:
  assumes "isAbsolute (cwd pcwd)"
  shows "resolve pcwd [x] = fin (joinWith [SLASH] (collapse (segs (prefix_of (cwd pcwd) x))))"
  by (simp add: resolve_single[OF assms] normalizeString_segments)

lemma resolved_absolute:
  assumes "BACK_SLASH \<notin> set p"
  shows "isAbsolute (fin (joinWith [SLASH] (collapse (segs p))))"
proof -
  let ?j = "joinWith [SLASH] (collapse (segs p))"
  have f: "BACK_SLASH \<notin> set ?j" using assms by (rule join_collapse_free)
  have h: "?j = [] \<or> hd ?j \<noteq> SLASH"
    by (rule join_not_slash_first) (rule clean_pieces[OF clean_collapse_segs])
  have a: "IS_ABSOLUTE_RE (fin ?j)" using h f by (rule fin_abs)
  have "BACK_SLASH \<notin> set (fin ?j)" using f by (simp add: fin_def SLASH_def BACK_SLASH_def)
  then have "IS_ABSOLUTE_RE (normalizeWindowsPath (fin ?j))" using a by (rule abs_nwp)
  then show ?thesis by (simp add: isAbsolute_def)
qed

lemma segments_of_resolved:
  "segments_of (fin (joinWith [SLASH] (collapse (segs p)))) = collapse (segs p)"
proof -
  let ?T = "collapse (segs p)"
  have c: "\<forall>s \<in> set ?T. s \<noteq> [] \<and> SLASH \<notin> set s" by (rule clean_pieces[OF clean_collapse_segs])
  have "joinWith [SLASH] ?T = [] \<or> hd (joinWith [SLASH] ?T) \<noteq> SLASH"
    using c by (rule join_not_slash_first)
  then have "segments_of (fin (joinWith [SLASH] ?T)) = segs (joinWith [SLASH] ?T)"
    by (rule segments_of_fin)
  also have "\<dots> = ?T" using c by (rule segs_join)
  finally show ?thesis .
qed

lemma collapse_append_rel:
  assumes F: "F = collapse (segs PF)" and cT: "clean T"
    and k: "k = commonSegments F T"
  shows "collapse (segs PF @ replicate (length F - k) [DOT, DOT] @ drop k T) = T"
proof -
  have p: "take k F = take k T" and kF: "k \<le> length F" and kT: "k \<le> length T"
    using commonSegments_props[of F T] k by auto
  have cd: "clean (drop k T)" using cT by (auto simp: clean_def dest: in_set_dropD)
  have "collapse (segs PF @ replicate (length F - k) [DOT, DOT] @ drop k T)
        = foldl collapse_piece (foldl collapse_piece F (replicate (length F - k) [DOT, DOT])) (drop k T)"
    by (simp add: collapse_def F)
  also have "\<dots> = foldl collapse_piece (take (length F - (length F - k)) F) (drop k T)"
    by (simp only: foldl_collapse_ups)
  also have "\<dots> = foldl collapse_piece (take k F) (drop k T)" using kF by simp
  also have "\<dots> = take k F @ drop k T" using cd by (rule foldl_collapse_of_clean)
  also have "\<dots> = T" using p by simp
  finally show ?thesis .
qed

lemma common_full:
  assumes "length F - commonSegments F T = 0" and "drop (commonSegments F T) T = []"
  shows "F = T"
proof -
  let ?k = "commonSegments F T"
  have p: "take ?k F = take ?k T" and kF: "?k \<le> length F" and kT: "?k \<le> length T"
    using commonSegments_props[of F T] by auto
  have "?k = length F" using assms(1) kF by simp
  moreover have "?k = length T" using assms(2) kT by simp
  ultimately have "take (length F) F = take (length T) T" using p by simp
  then show ?thesis by simp
qed

lemma relative_resolved_cases:
  assumes "RF \<noteq> RT" and "segments_of RF = F" and "segments_of RT = T"
    and "r = joinWith [SLASH] (replicate (length F - commonSegments F T) [DOT, DOT] @ drop (commonSegments F T) T)"
    and "r \<noteq> []"
  shows "relative_resolved RF RT = RT \<or> relative_resolved RF RT = r"
  using assms by (simp add: relative_resolved_def Let_def)

lemma rel_pieces:
  assumes "clean T"
  shows "\<forall>s \<in> set (replicate n [DOT, DOT] @ drop k T). s \<noteq> [] \<and> SLASH \<notin> set s"
proof
  fix s assume "s \<in> set (replicate n [DOT, DOT] @ drop k T)"
  then have "s \<in> set (replicate n [DOT, DOT]) \<or> s \<in> set (drop k T)" by simp
  then show "s \<noteq> [] \<and> SLASH \<notin> set s"
  proof
    assume "s \<in> set (replicate n [DOT, DOT])"
    then have "s = [DOT, DOT]" by simp
    then show ?thesis by (simp add: DOT_def SLASH_def)
  next
    assume "s \<in> set (drop k T)"
    then have "s \<in> set T" by (rule in_set_dropD)
    then show ?thesis using assms by (simp add: clean_def)
  qed
qed

lemma rel_free:
  assumes "\<forall>s \<in> set T. BACK_SLASH \<notin> set s"
  shows "BACK_SLASH \<notin> set (joinWith [SLASH] (replicate n [DOT, DOT] @ drop k T))"
proof
  assume "BACK_SLASH \<in> set (joinWith [SLASH] (replicate n [DOT, DOT] @ drop k T))"
  then have "BACK_SLASH \<in> \<Union>(set ` set (replicate n [DOT, DOT] @ drop k T)) \<union> {SLASH}"
    using join_chars[of SLASH "replicate n [DOT, DOT] @ drop k T"] by blast
  moreover have "BACK_SLASH \<noteq> SLASH" by (simp add: SLASH_def BACK_SLASH_def)
  ultimately obtain s where s: "s \<in> set (replicate n [DOT, DOT] @ drop k T)" and b: "BACK_SLASH \<in> set s"
    by blast
  from s have "s = [DOT, DOT] \<or> s \<in> set T" by (auto dest: in_set_dropD)
  moreover have "BACK_SLASH \<noteq> DOT" by (simp add: DOT_def BACK_SLASH_def)
  ultimately show False using b assms by auto
qed

lemma collapse_segs_free:
  assumes "BACK_SLASH \<notin> set p"
  shows "\<forall>s \<in> set (collapse (segs p)). BACK_SLASH \<notin> set s"
  using collapse_segs_chars[of _ p] assms by blast

lemma segs_prefix_rel:
  assumes "PF = X @ [SLASH]" and "\<forall>s \<in> set ss. s \<noteq> [] \<and> SLASH \<notin> set s"
  shows "segs (PF @ joinWith [SLASH] ss @ [SLASH]) = segs PF @ ss"
proof -
  have "segs (PF @ joinWith [SLASH] ss @ [SLASH]) = segs (X @ SLASH # (joinWith [SLASH] ss @ [SLASH]))"
    by (simp add: assms(1))
  also have "\<dots> = segs X @ segs (joinWith [SLASH] ss @ [SLASH])" by (rule segs_append_sep)
  also have "\<dots> = segs PF @ segs (joinWith [SLASH] ss)" by (simp add: assms(1) segs_snoc_sep)
  also have "\<dots> = segs PF @ ss" by (simp only: segs_join[OF assms(2)])
  finally show ?thesis .
qed

lemma round_trip_not_absolute:
  assumes cw: "isAbsolute (cwd pcwd)"
    and na: "\<not> isAbsolute (relative pcwd from to)"
  shows "resolve pcwd [from, relative pcwd from to] = resolve pcwd [to]"
proof -
  define PF where "PF = prefix_of (cwd pcwd) from"
  define PT where "PT = prefix_of (cwd pcwd) to"
  define F where "F = collapse (segs PF)"
  define T where "T = collapse (segs PT)"
  define RF where "RF = resolve pcwd [from]"
  define RT where "RT = resolve pcwd [to]"
  define k where "k = commonSegments F T"
  define ss where "ss = replicate (length F - k) [DOT, DOT] @ drop k T"
  define r where "r = joinWith [SLASH] ss"
  define rel where "rel = relative pcwd from to"
  have RF: "RF = fin (joinWith [SLASH] F)"
    unfolding RF_def F_def PF_def by (rule resolve_segments[OF cw])
  have RT: "RT = fin (joinWith [SLASH] T)"
    unfolding RT_def T_def PT_def by (rule resolve_segments[OF cw])
  have sF: "segments_of RF = F" unfolding RF F_def by (rule segments_of_resolved)
  have sT: "segments_of RT = T" unfolding RT T_def by (rule segments_of_resolved)
  have cT: "clean T" unfolding T_def by (rule clean_collapse_segs)
  have fPT: "BACK_SLASH \<notin> set PT" unfolding PT_def by (rule prefix_of_free)
  have absT: "isAbsolute RT" unfolding RT T_def using fPT by (rule resolved_absolute)
  have rel: "rel = relative_resolved RF RT" by (simp add: rel_def relative_def RF_def RT_def)
  have na': "\<not> isAbsolute rel" using na by (simp add: rel_def)
  have goal: "resolve pcwd [from, rel] = RT"
  proof (cases "RF = RT")
    case True
    then have "rel = []" by (simp add: rel relative_resolved_def)
    then show ?thesis using True by (simp add: resolve_pair_empty RF_def)
  next
    case ne: False
    have pieces: "\<forall>s \<in> set ss. s \<noteq> [] \<and> SLASH \<notin> set s"
      unfolding ss_def using cT by (rule rel_pieces)
    have ssne: "ss \<noteq> []"
    proof
      assume "ss = []"
      then have "length F - commonSegments F T = 0" and "drop (commonSegments F T) T = []"
        by (simp_all add: ss_def k_def)
      then have "F = T" by (rule common_full)
      then show False using ne RF RT by simp
    qed
    have "\<forall>s \<in> set ss. s \<noteq> []" using pieces by blast
    then have "(r = []) = (ss = [])" unfolding r_def by (rule joinWith_empty_iff)
    then have rne: "r \<noteq> []" using ssne by simp
    have r_eq: "r = joinWith [SLASH] (replicate (length F - commonSegments F T) [DOT, DOT] @ drop (commonSegments F T) T)"
      by (simp add: r_def ss_def k_def)
    have "relative_resolved RF RT = RT \<or> relative_resolved RF RT = r"
      using ne sF sT r_eq rne by (rule relative_resolved_cases)
    moreover have "rel \<noteq> RT" using na' absT by blast
    ultimately have relr: "rel = r" using rel by simp
    have "\<forall>s \<in> set T. BACK_SLASH \<notin> set s" unfolding T_def using fPT by (rule collapse_segs_free)
    then have free: "BACK_SLASH \<notin> set r" unfolding r_def ss_def by (rule rel_free)
    have "\<not> isAbsolute r" using na' relr by simp
    with free have nw: "normalizeWindowsPath r = r \<and> \<not> IS_ABSOLUTE_RE (normalizeWindowsPath r)"
      by (rule not_abs_nwp_id)
    then have nw1: "normalizeWindowsPath r = r" and nw2: "\<not> IS_ABSOLUTE_RE (normalizeWindowsPath r)"
      by blast+
    obtain X where X: "PF = X @ [SLASH]" unfolding PF_def using prefix_of_snoc by blast
    have sg: "segs (PF @ r @ [SLASH]) = segs PF @ ss"
      unfolding r_def using X pieces by (rule segs_prefix_rel)
    have col: "collapse (segs PF @ ss) = T"
      unfolding ss_def using F_def cT k_def by (rule collapse_append_rel)
    have "resolve pcwd [from, r]
          = fin (normalizeString (prefix_of (cwd pcwd) from @ normalizeWindowsPath r @ [SLASH]) False)"
      using cw rne nw2 by (rule resolve_pair)
    also have "\<dots> = fin (normalizeString (PF @ r @ [SLASH]) False)"
      by (simp only: nw1 PF_def)
    also have "\<dots> = fin (joinWith [SLASH] (collapse (segs (PF @ r @ [SLASH]))))"
      by (simp only: normalizeString_segments)
    also have "\<dots> = fin (joinWith [SLASH] T)" by (simp only: sg col)
    finally show ?thesis by (simp only: relr RT)
  qed
  then show ?thesis by (simp only: rel_def RT_def)
qed

paragraph \<open>When the relative path is absolute\<close>

lemma resolve_abs_arg:
  assumes "isAbsolute (cwd pcwd)" and "isAbsolute rel"
  shows "resolve pcwd [from, rel] = resolve pcwd [rel]"
  using assms abs_nonempty[OF assms(2)] by (simp add: resolve_def isAbsolute_def Let_def)

lemma segs_fin_join:
  assumes "\<forall>s \<in> set T. s \<noteq> [] \<and> SLASH \<notin> set s"
  shows "segs (fin (joinWith [SLASH] T)) = T"
  using segs_join[OF assms] by (simp add: fin_def segs_slash_cons)

lemma segments_of_fin_join:
  assumes "\<forall>s \<in> set T. s \<noteq> [] \<and> SLASH \<notin> set s"
  shows "segments_of (fin (joinWith [SLASH] T)) = T"
proof -
  have "joinWith [SLASH] T = [] \<or> hd (joinWith [SLASH] T) \<noteq> SLASH"
    using assms by (rule join_not_slash_first)
  then have "segments_of (fin (joinWith [SLASH] T)) = segs (joinWith [SLASH] T)"
    by (rule segments_of_fin)
  also have "\<dots> = T" using assms by (rule segs_join)
  finally show ?thesis .
qed

lemma fin_join_inject:
  assumes "clean A" and "clean B" and "fin (joinWith [SLASH] A) = fin (joinWith [SLASH] B)"
  shows "A = B"
proof -
  have a: "segments_of (fin (joinWith [SLASH] A)) = A"
    by (rule segments_of_fin_join[OF clean_pieces[OF assms(1)]])
  have b: "segments_of (fin (joinWith [SLASH] B)) = B"
    by (rule segments_of_fin_join[OF clean_pieces[OF assms(2)]])
  have "A = segments_of (fin (joinWith [SLASH] A))" using a by (rule sym)
  also have "\<dots> = segments_of (fin (joinWith [SLASH] B))" by (simp only: assms(3))
  also have "\<dots> = B" by (rule b)
  finally show ?thesis .
qed

lemma collapse_clean: "clean D \<Longrightarrow> collapse D = D"
  using foldl_collapse_of_clean[of D "[]"] by (simp add: collapse_def)

lemma resolve_abs_single:
  assumes "isAbsolute (cwd pcwd)" and "isAbsolute r"
  shows "resolve pcwd [r] = fin (joinWith [SLASH] (collapse (segs (normalizeWindowsPath r))))"
proof -
  have ne: "r \<noteq> []" using assms(2) by (rule abs_nonempty)
  have "prefix_of (cwd pcwd) r = normalizeWindowsPath r @ [SLASH]"
    using ne assms(2) by (simp add: prefix_of_def isAbsolute_def)
  then show ?thesis
    by (simp add: resolve_segments[OF assms(1)] segs_snoc_sep)
qed

lemma not_letter_slash: "\<not> is_letter SLASH"
  by (simp add: is_letter_def SLASH_def Let_def)

lemma not_letter_dot: "\<not> is_letter DOT"
  by (simp add: is_letter_def DOT_def Let_def)

lemma letter_not_slash: "is_letter a \<Longrightarrow> a \<noteq> SLASH"
  using not_letter_slash by blast

lemma segs_drive:
  assumes "a \<noteq> SLASH"
  shows "segs (a # COLON # SLASH # r0) = [a, COLON] # segs r0"
proof -
  have c: "COLON \<noteq> SLASH" by (simp add: COLON_def SLASH_def)
  have "segs ([a, COLON] @ SLASH # r0) = segs [a, COLON] @ segs r0" by (rule segs_append_sep)
  moreover have "split SLASH [a, COLON] = [[a, COLON]]"
    using assms c by (intro split_free) simp
  ultimately show ?thesis by (simp add: segs_def)
qed

lemma nwp_changed:
  assumes "BACK_SLASH \<notin> set r" and "normalizeWindowsPath r \<noteq> r"
  shows "\<exists>a r0. r = a # COLON # SLASH # r0 \<and> is_letter a \<and> toUpperCase_char a \<noteq> a
           \<and> normalizeWindowsPath r = toUpperCase_char a # COLON # SLASH # r0"
proof -
  have rb: "replace_backslashes r = r" using assms(1) by (rule replace_backslashes_id)
  have d: "r \<noteq> [] \<and> DRIVE_LETTER_START_RE r"
  proof (rule ccontr)
    assume "\<not> (r \<noteq> [] \<and> DRIVE_LETTER_START_RE r)"
    then have "normalizeWindowsPath r = r" using rb by (auto simp: normalizeWindowsPath_def Let_def)
    with assms(2) show False by simp
  qed
  then obtain a r0 where sh: "r = a # COLON # SLASH # r0" and a: "is_letter a"
    using dls_shape by blast
  have n: "normalizeWindowsPath r = toUpperCase_char a # COLON # SLASH # r0"
    using d rb sh by (simp add: normalizeWindowsPath_def Let_def upper_colon upper_slash)
  with assms(2) sh have "toUpperCase_char a \<noteq> a" by auto
  with sh a n show ?thesis by blast
qed

lemma dls_collapse:
  assumes "BACK_SLASH \<notin> set r" and "normalizeWindowsPath r \<noteq> r" and "segs r = D" and "clean D"
  shows "\<exists>D'. clean D' \<and> length D' = length D \<and> D' \<noteq> D \<and> segs (normalizeWindowsPath r) = D'"
proof -
  from nwp_changed[OF assms(1,2)] obtain a r0 where sh: "r = a # COLON # SLASH # r0"
    and a: "is_letter a" and u: "toUpperCase_char a \<noteq> a"
    and n: "normalizeWindowsPath r = toUpperCase_char a # COLON # SLASH # r0" by blast
  let ?u = "toUpperCase_char a"
  have D: "D = [a, COLON] # segs r0"
    using assms(3) segs_drive[OF letter_not_slash[OF a]] sh by simp
  have us: "?u \<noteq> SLASH" using upper_letter[OF a] by (rule letter_not_slash)
  have D': "segs (normalizeWindowsPath r) = [?u, COLON] # segs r0"
    unfolding n using us by (rule segs_drive)
  have cd: "COLON \<noteq> DOT" "COLON \<noteq> SLASH" by (simp_all add: COLON_def DOT_def SLASH_def)
  have "clean ([?u, COLON] # segs r0)"
    using assms(4) us cd unfolding D clean_def by simp
  moreover have "[?u, COLON] # segs r0 \<noteq> D" using u D by simp
  moreover have "length ([?u, COLON] # segs r0) = length D" using D by simp
  ultimately show ?thesis using D' by blast
qed

lemma hd_joinWith: "x \<noteq> [] \<Longrightarrow> hd (joinWith sep (x # xs)) = hd x"
  by (cases xs) simp_all

lemma dot_not_absolute:
  assumes "r \<noteq> []" and "hd r = DOT"
  shows "\<not> isAbsolute r"
proof -
  obtain t where r: "r = DOT # t" using assms by (cases r) auto
  have nl: "\<not> is_letter DOT" by (rule not_letter_dot)
  have db: "DOT \<noteq> BACK_SLASH" "DOT \<noteq> SLASH" by (simp_all add: DOT_def BACK_SLASH_def SLASH_def)
  have rb: "replace_backslashes r = DOT # replace_backslashes t"
    using db by (simp add: r replace_backslashes_def)
  have nd: "\<not> DRIVE_LETTER_START_RE (replace_backslashes r)"
    unfolding rb using nl by (cases "replace_backslashes t" rule: DRIVE_LETTER_START_RE.cases) simp_all
  then have "normalizeWindowsPath r = DOT # replace_backslashes t"
    using rb r by (simp add: normalizeWindowsPath_def Let_def)
  then show ?thesis using nl db by (simp add: isAbsolute_def IS_ABSOLUTE_RE_def is_sep_def)
qed

lemma resolve_fixed:
  assumes cw: "isAbsolute (cwd pcwd)" and cT: "clean T"
    and ab: "isAbsolute (fin (joinWith [SLASH] T))"
    and st: "normalizeWindowsPath (fin (joinWith [SLASH] T)) = fin (joinWith [SLASH] T)"
  shows "resolve pcwd [fin (joinWith [SLASH] T)] = fin (joinWith [SLASH] T)"
proof -
  let ?R = "fin (joinWith [SLASH] T)"
  have "resolve pcwd [?R] = fin (joinWith [SLASH] (collapse (segs (normalizeWindowsPath ?R))))"
    using cw ab by (rule resolve_abs_single)
  also have "\<dots> = fin (joinWith [SLASH] (collapse (segs ?R)))" by (simp only: st)
  also have "\<dots> = fin (joinWith [SLASH] (collapse T))"
    by (simp only: segs_fin_join[OF clean_pieces[OF cT]])
  also have "\<dots> = ?R" by (simp only: collapse_clean[OF cT])
  finally show ?thesis .
qed

lemma resolve_joined:
  assumes cw: "isAbsolute (cwd pcwd)" and cD: "clean D" and r: "r = joinWith [SLASH] D"
    and fr: "BACK_SLASH \<notin> set r" and ab: "isAbsolute r"
  shows "\<exists>D'. clean D' \<and> length D' = length D
            \<and> resolve pcwd [r] = fin (joinWith [SLASH] D')
            \<and> (D' = D \<longrightarrow> normalizeWindowsPath r = r)"
proof -
  have sr: "segs r = D" unfolding r by (rule segs_join[OF clean_pieces[OF cD]])
  have res: "resolve pcwd [r] = fin (joinWith [SLASH] (collapse (segs (normalizeWindowsPath r))))"
    using cw ab by (rule resolve_abs_single)
  show ?thesis
  proof (cases "normalizeWindowsPath r = r")
    case True
    have "resolve pcwd [r] = fin (joinWith [SLASH] D)"
      by (simp only: res True sr collapse_clean[OF cD])
    with cD True show ?thesis by blast
  next
    case False
    from dls_collapse[OF fr False sr cD] obtain D' where c: "clean D'"
      and l: "length D' = length D" and n: "D' \<noteq> D" and s: "segs (normalizeWindowsPath r) = D'"
      by blast
    have "resolve pcwd [r] = fin (joinWith [SLASH] D')"
      by (simp only: res s collapse_clean[OF c])
    with c l n show ?thesis by blast
  qed
qed

lemma round_trip_absolute:
  assumes cw: "isAbsolute (cwd pcwd)"
    and ab: "isAbsolute (relative pcwd from to)"
    and rt: "resolve pcwd [from, relative pcwd from to] = resolve pcwd [to]"
  shows "relative pcwd from to = resolve pcwd [to]
         \<and> normalizeWindowsPath (resolve pcwd [to]) = resolve pcwd [to]"
proof -
  define PF where "PF = prefix_of (cwd pcwd) from"
  define PT where "PT = prefix_of (cwd pcwd) to"
  define F where "F = collapse (segs PF)"
  define T where "T = collapse (segs PT)"
  define RF where "RF = resolve pcwd [from]"
  define RT where "RT = resolve pcwd [to]"
  define k where "k = commonSegments F T"
  define ss where "ss = replicate (length F - k) [DOT, DOT] @ drop k T"
  define r where "r = joinWith [SLASH] ss"
  define rel where "rel = relative pcwd from to"
  have RF: "RF = fin (joinWith [SLASH] F)"
    unfolding RF_def F_def PF_def by (rule resolve_segments[OF cw])
  have RT: "RT = fin (joinWith [SLASH] T)"
    unfolding RT_def T_def PT_def by (rule resolve_segments[OF cw])
  have sF: "segments_of RF = F" unfolding RF F_def by (rule segments_of_resolved)
  have sT: "segments_of RT = T" unfolding RT T_def by (rule segments_of_resolved)
  have cT: "clean T" unfolding T_def by (rule clean_collapse_segs)
  have fPT: "BACK_SLASH \<notin> set PT" unfolding PT_def by (rule prefix_of_free)
  have fT: "\<forall>s \<in> set T. BACK_SLASH \<notin> set s" unfolding T_def using fPT by (rule collapse_segs_free)
  have absT: "isAbsolute RT" unfolding RT T_def using fPT by (rule resolved_absolute)
  have fRT: "BACK_SLASH \<notin> set RT"
    using join_collapse_free[OF fPT] unfolding RT T_def
    by (simp add: fin_def SLASH_def BACK_SLASH_def)
  have rel: "rel = relative_resolved RF RT" by (simp add: rel_def relative_def RF_def RT_def)
  have ab': "isAbsolute rel" using ab by (simp add: rel_def)
  have "resolve pcwd [from, rel] = resolve pcwd [rel]" using cw ab' by (rule resolve_abs_arg)
  then have res: "resolve pcwd [rel] = RT" using rt by (simp add: rel_def RT_def)
  have ne: "RF \<noteq> RT"
  proof
    assume "RF = RT"
    then have "rel = []" by (simp add: rel relative_resolved_def)
    then show False using abs_nonempty[OF ab'] by simp
  qed
  have pieces: "\<forall>s \<in> set ss. s \<noteq> [] \<and> SLASH \<notin> set s"
    unfolding ss_def using cT by (rule rel_pieces)
  have ssne: "ss \<noteq> []"
  proof
    assume "ss = []"
    then have "length F - commonSegments F T = 0" and "drop (commonSegments F T) T = []"
      by (simp_all add: ss_def k_def)
    then have "F = T" by (rule common_full)
    then show False using ne RF RT by simp
  qed
  have "\<forall>s \<in> set ss. s \<noteq> []" using pieces by blast
  then have "(r = []) = (ss = [])" unfolding r_def by (rule joinWith_empty_iff)
  then have rne: "r \<noteq> []" using ssne by simp
  have r_eq: "r = joinWith [SLASH] (replicate (length F - commonSegments F T) [DOT, DOT] @ drop (commonSegments F T) T)"
    by (simp add: r_def ss_def k_def)
  have "relative_resolved RF RT = RT \<or> relative_resolved RF RT = r"
    using ne sF sT r_eq rne by (rule relative_resolved_cases)
  then have cases2: "rel = RT \<or> rel = r" using rel by simp
  have stable: "rel = RT \<Longrightarrow> normalizeWindowsPath RT = RT"
  proof (rule ccontr)
    assume e: "rel = RT" and c: "normalizeWindowsPath RT \<noteq> RT"
    from nwp_changed[OF fRT c] obtain a r0 where sh: "RT = a # COLON # SLASH # r0"
      and a: "is_letter a" by blast
    have "hd RT \<noteq> SLASH" using sh letter_not_slash[OF a] by simp
    then have j: "RT = joinWith [SLASH] T" using RT by (auto simp: fin_def split: if_splits)
    from resolve_joined[OF cw cT j fRT absT] obtain D' where cD: "clean D'"
      and rr: "resolve pcwd [RT] = fin (joinWith [SLASH] D')"
      and imp: "D' = T \<longrightarrow> normalizeWindowsPath RT = RT" by blast
    have "fin (joinWith [SLASH] D') = fin (joinWith [SLASH] T)"
      using rr res e RT by simp
    with cD cT have "D' = T" by (rule fin_join_inject)
    with imp c show False by blast
  qed
  show ?thesis
  proof (cases "rel = RT")
    case True
    with stable show ?thesis by (simp add: rel_def RT_def)
  next
    case False
    with cases2 have relr: "rel = r" by blast
    have ar: "isAbsolute r" using ab' relr by simp
    have fr: "BACK_SLASH \<notin> set r" unfolding r_def ss_def using fT by (rule rel_free)
    have ups: "length F - k = 0"
    proof (rule ccontr)
      assume "length F - k \<noteq> 0"
      then obtain m where m: "length F - k = Suc m" by (cases "length F - k") auto
      have "ss = [DOT, DOT] # (replicate m [DOT, DOT] @ drop k T)" by (simp add: ss_def m)
      then have "hd r = DOT" unfolding r_def by (simp add: hd_joinWith)
      with rne have "\<not> isAbsolute r" by (rule dot_not_absolute)
      with ar show False by blast
    qed
    then have ssd: "ss = drop k T" by (simp add: ss_def)
    have cD: "clean ss" unfolding ssd using cT by (auto simp: clean_def dest: in_set_dropD)
    from resolve_joined[OF cw cD r_def fr ar] obtain D' where cD': "clean D'"
      and l: "length D' = length ss"
      and rr: "resolve pcwd [r] = fin (joinWith [SLASH] D')"
      and imp: "D' = ss \<longrightarrow> normalizeWindowsPath r = r" by blast
    have "fin (joinWith [SLASH] D') = fin (joinWith [SLASH] T)"
      using rr res relr RT by simp
    with cD' cT have DT: "D' = T" by (rule fin_join_inject)
    have "length T = length T - k" using l DT ssd by simp
    moreover have "k \<le> length T" using commonSegments_props[of F T] by (simp add: k_def)
    ultimately have "k = 0 \<or> length T = 0" by arith
    then have "ss = T" using ssd by auto
    then have st: "normalizeWindowsPath r = r" using imp DT by simp
    have "IS_ABSOLUTE_RE r" using ar st by (simp add: isAbsolute_def)
    then have "fin r = r" by (simp add: fin_def)
    then have "RT = r" using RT \<open>ss = T\<close> by (simp add: r_def)
    with False relr show ?thesis by simp
  qed
qed

text \<open>
  C8.  Round trip of \<open>resolve\<close> and \<open>relative\<close>, with the working directory held fixed and
  absolute.  For all paths \<open>from\<close> and \<open>to\<close> (in particular for every absolute \<open>to\<close>),
  \<open>resolve(from, relative(from, to))\<close> equals \<open>resolve(to)\<close> exactly when \<open>relative(from, to)\<close>
  is not an absolute path, or it is \<open>resolve(to)\<close> itself and \<open>normalizeWindowsPath\<close> leaves
  \<open>resolve(to)\<close> as it is (it does not begin with a lower-case drive letter, a colon and a
  slash).  The second case covers paths on different drives, where \<open>relative\<close> returns
  \<open>resolve(to)\<close>.
\<close>

theorem resolve_relative_round_trip:
  assumes cw: "isAbsolute (cwd pcwd)"
  shows "resolve pcwd [from, relative pcwd from to] = resolve pcwd [to]
         \<longleftrightarrow> (\<not> isAbsolute (relative pcwd from to)
              \<or> (relative pcwd from to = resolve pcwd [to]
                  \<and> normalizeWindowsPath (resolve pcwd [to]) = resolve pcwd [to]))"
proof
  assume rt: "resolve pcwd [from, relative pcwd from to] = resolve pcwd [to]"
  show "\<not> isAbsolute (relative pcwd from to)
        \<or> (relative pcwd from to = resolve pcwd [to]
            \<and> normalizeWindowsPath (resolve pcwd [to]) = resolve pcwd [to])"
  proof (cases "isAbsolute (relative pcwd from to)")
    case True
    with cw have "relative pcwd from to = resolve pcwd [to]
         \<and> normalizeWindowsPath (resolve pcwd [to]) = resolve pcwd [to]"
      using rt by (rule round_trip_absolute)
    then show ?thesis by (rule disjI2)
  next
    case False
    then show ?thesis by (rule disjI1)
  qed
next
  assume h: "\<not> isAbsolute (relative pcwd from to)
        \<or> (relative pcwd from to = resolve pcwd [to]
            \<and> normalizeWindowsPath (resolve pcwd [to]) = resolve pcwd [to])"
  show "resolve pcwd [from, relative pcwd from to] = resolve pcwd [to]"
  proof (cases "isAbsolute (relative pcwd from to)")
    case False
    with cw show ?thesis by (rule round_trip_not_absolute)
  next
    case True
    with h have e: "relative pcwd from to = resolve pcwd [to]"
      and st: "normalizeWindowsPath (resolve pcwd [to]) = resolve pcwd [to]" by blast+
    define T where "T = collapse (segs (prefix_of (cwd pcwd) to))"
    have RT: "resolve pcwd [to] = fin (joinWith [SLASH] T)"
      unfolding T_def by (rule resolve_segments[OF cw])
    have cT: "clean T" unfolding T_def by (rule clean_collapse_segs)
    have ab: "isAbsolute (fin (joinWith [SLASH] T))" using True e RT by simp
    have st': "normalizeWindowsPath (fin (joinWith [SLASH] T)) = fin (joinWith [SLASH] T)"
      using st RT by simp
    have fx: "resolve pcwd [fin (joinWith [SLASH] T)] = fin (joinWith [SLASH] T)"
      using cw cT ab st' by (rule resolve_fixed)
    have "resolve pcwd [from, relative pcwd from to] = resolve pcwd [relative pcwd from to]"
      using cw True by (rule resolve_abs_arg)
    also have "\<dots> = resolve pcwd [to]" using fx e RT by simp
    finally show ?thesis .
  qed
qed

theorem resolve_relative_round_trip_witness:
  "isAbsolute (cwd ''/x'')
   \<and> isAbsolute (relative ''/x'' ''C:/a'' ''D:/b'')
   \<and> relative ''/x'' ''C:/a'' ''D:/b'' = resolve ''/x'' [''D:/b'']
   \<and> normalizeWindowsPath (resolve ''/x'' [''D:/b'']) = resolve ''/x'' [''D:/b'']
   \<and> resolve ''/x'' [''C:/a'', relative ''/x'' ''C:/a'' ''D:/b''] = resolve ''/x'' [''D:/b'']"
proof -
  have a: "isAbsolute (cwd ''/x'')" by code_simp
  have b: "isAbsolute (relative ''/x'' ''C:/a'' ''D:/b'')" by code_simp
  have c: "relative ''/x'' ''C:/a'' ''D:/b'' = resolve ''/x'' [''D:/b'']
     \<and> normalizeWindowsPath (resolve ''/x'' [''D:/b'']) = resolve ''/x'' [''D:/b'']" by code_simp
  from resolve_relative_round_trip[OF a, of "''C:/a''" "''D:/b''"] a b c show ?thesis by blast
qed

text \<open>
  C8 as stated fails when a segment of \<open>to\<close> below \<open>from\<close> looks like a drive: for
  \<open>from = "/a"\<close> and the absolute \<open>to = "/a/C:/x"\<close> the relative path is \<open>"C:/x"\<close>, which
  \<open>resolve\<close> takes for an absolute path, so the round trip gives \<open>"C:/x"\<close> and not
  \<open>"/a/C:/x"\<close>.
\<close>

theorem resolve_relative_round_trip_counterexample:
  "isAbsolute ''/a/C:/x''
   \<and> relative ''/'' ''/a'' ''/a/C:/x'' = ''C:/x''
   \<and> resolve ''/'' [''/a'', relative ''/'' ''/a'' ''/a/C:/x''] = ''C:/x''
   \<and> resolve ''/'' [''/a/C:/x''] = ''/a/C:/x''"
  by code_simp

end
